(* ===== verification/Py_Base.thy ===== *)
theory Py_Base
  imports
    Complex_Main
    "HOL-Library.AList"
    "HOL-Library.Sublist"
    "HOL-Library.Char_ord"
    "HOL-Library.List_Lexorder"
begin

text \<open>
  The prelude of the development: what the Python sources share and every component uses.

  \<^item> Exceptions are values of \<open>error\<close>; a function that may raise returns \<open>'a res\<close>
    (\<open>Inl\<close> the exception, \<open>Inr\<close> the result). A message is abbreviated to its fixed words and
    the location it names: the model keeps which \<^verbatim>\<open>raise\<close> was taken, not the
    \<^verbatim>\<open>!r\<close> rendering of the rejected value.
  \<^item> Values parsed from TOML or JSON are \<open>pyval\<close>; a dict is an association list in insertion
    order (\<open>AList.update\<close> replaces in place and appends a new key, as a dict does).
  \<^item> A \<^verbatim>\<open>str\<close> is a list of code points below 256. Character classes
    (\<^verbatim>\<open>isspace\<close>, \<^verbatim>\<open>isalnum\<close>, \<^verbatim>\<open>isdigit\<close>,
    \<^verbatim>\<open>lower\<close>) are exact on those code points.
  \<^item> A \<^verbatim>\<open>float\<close> is a real number: rounding is not modelled.
\<close>

section \<open>Definitions\<close>

subsection \<open>Exceptions and results\<close>

datatype error =
    ProvisionError string
  | ProvisionSystemError string
  | StagedQueueBusyError string
  | ActivationPolicyError string
  | ValueErr string
  | OSErr string
  | PyExc string

type_synonym 'a res = "error + 'a"

definition rbind :: "'a res \<Rightarrow> ('a \<Rightarrow> 'b res) \<Rightarrow> 'b res" where
  "rbind m f = (case m of Inl e \<Rightarrow> Inl e | Inr x \<Rightarrow> f x)"

definition rguard :: "bool \<Rightarrow> error \<Rightarrow> unit res" where
  "rguard b e = (if b then Inr () else Inl e)"

text \<open>A comprehension whose body may raise: the first exception wins.\<close>

fun rmap :: "('a \<Rightarrow> 'b res) \<Rightarrow> 'a list \<Rightarrow> 'b list res" where
  "rmap f [] = Inr []"
| "rmap f (x # xs) = rbind (f x) (\<lambda>y. rbind (rmap f xs) (\<lambda>ys. Inr (y # ys)))"

text \<open>The same over \<^verbatim>\<open>enumerate\<close>: the body also sees the index.\<close>

fun rmapi :: "nat \<Rightarrow> (nat \<Rightarrow> 'a \<Rightarrow> 'b res) \<Rightarrow> 'a list \<Rightarrow> 'b list res" where
  "rmapi i f [] = Inr []"
| "rmapi i f (x # xs) = rbind (f i x) (\<lambda>y. rbind (rmapi (Suc i) f xs) (\<lambda>ys. Inr (y # ys)))"

subsection \<open>Parsed values and dicts\<close>

datatype pyval =
    VNone
  | VBool bool
  | VInt int
  | VFloat real
  | VStr string
  | VList "pyval list"
  | VDict "(string \<times> pyval) list"
  | VOther string

type_synonym 'v dict = "(string \<times> 'v) list"

abbreviation dget :: "'v dict \<Rightarrow> string \<Rightarrow> 'v option" where
  "dget d k \<equiv> map_of d k"

abbreviation dset :: "string \<Rightarrow> 'v \<Rightarrow> 'v dict \<Rightarrow> 'v dict" where
  "dset k v d \<equiv> AList.update k v d"

abbreviation dpop :: "string \<Rightarrow> 'v dict \<Rightarrow> 'v dict" where
  "dpop k d \<equiv> AList.delete k d"

abbreviation dkeys :: "'v dict \<Rightarrow> string list" where
  "dkeys d \<equiv> map fst d"

definition has_key :: "'v dict \<Rightarrow> string \<Rightarrow> bool" where
  "has_key d k = (dget d k \<noteq> None)"

text \<open>\<^verbatim>\<open>d.get(k, default)\<close> with a value default, and \<^verbatim>\<open>d.get(k)\<close>.\<close>

definition get_or :: "pyval \<Rightarrow> pyval dict \<Rightarrow> string \<Rightarrow> pyval" where
  "get_or dflt d k = (case dget d k of None \<Rightarrow> dflt | Some v \<Rightarrow> v)"

abbreviation get_val :: "pyval dict \<Rightarrow> string \<Rightarrow> pyval" where
  "get_val d k \<equiv> get_or VNone d k"

text \<open>
  \<^verbatim>\<open>value == n\<close> for an \<^verbatim>\<open>int\<close> \<open>n\<close>: a float or a bool with that
  value is equal too.
\<close>

fun py_eq_int :: "pyval \<Rightarrow> int \<Rightarrow> bool" where
  "py_eq_int (VInt i) n = (i = n)"
| "py_eq_int (VFloat r) n = (r = of_int n)"
| "py_eq_int (VBool b) n = ((if b then 1 else 0) = n)"
| "py_eq_int v n = False"

text \<open>
  \<^verbatim>\<open>a == b\<close> on parsed values: numbers compare by value across
  \<^verbatim>\<open>bool\<close>, \<^verbatim>\<open>int\<close> and \<^verbatim>\<open>float\<close>, dicts without order.
\<close>

fun py_num :: "pyval \<Rightarrow> real option" where
  "py_num (VInt i) = Some (of_int i)"
| "py_num (VFloat r) = Some r"
| "py_num (VBool b) = Some (if b then 1 else 0)"
| "py_num v = None"

fun py_truthy :: "pyval \<Rightarrow> bool" where
  "py_truthy VNone = False"
| "py_truthy (VBool b) = b"
| "py_truthy (VInt i) = (i \<noteq> 0)"
| "py_truthy (VFloat r) = (r \<noteq> 0)"
| "py_truthy (VStr s) = (s \<noteq> [])"
| "py_truthy (VList xs) = (xs \<noteq> [])"
| "py_truthy (VDict d) = (d \<noteq> [])"
| "py_truthy (VOther s) = True"

text \<open>A JSON input file: absent, unreadable, not JSON, or the parsed value.\<close>

datatype json_file = Absent | Unreadable | NotJson | Json pyval

subsection \<open>Strings\<close>

definition cp :: "char \<Rightarrow> nat" where
  "cp c = of_char c"

definition is_space :: "char \<Rightarrow> bool" where
  "is_space c = (let n = cp c in (9 \<le> n \<and> n \<le> 13) \<or> (28 \<le> n \<and> n \<le> 32) \<or> n = 133 \<or> n = 160)"

definition is_control :: "char \<Rightarrow> bool" where
  "is_control c = (cp c < 32 \<or> cp c = 127)"

definition is_ascii_digit :: "char \<Rightarrow> bool" where
  "is_ascii_digit c = (48 \<le> cp c \<and> cp c \<le> 57)"

definition is_ascii_lower :: "char \<Rightarrow> bool" where
  "is_ascii_lower c = (97 \<le> cp c \<and> cp c \<le> 122)"

definition is_ascii_upper :: "char \<Rightarrow> bool" where
  "is_ascii_upper c = (65 \<le> cp c \<and> cp c \<le> 90)"

definition is_ascii_alnum :: "char \<Rightarrow> bool" where
  "is_ascii_alnum c = (is_ascii_digit c \<or> is_ascii_lower c \<or> is_ascii_upper c)"

definition is_alnum :: "char \<Rightarrow> bool" where
  "is_alnum c = (is_ascii_alnum c \<or>
     (let n = cp c in n \<in> {170, 178, 179, 181, 185, 186, 188, 189, 190} \<or>
        (192 \<le> n \<and> n \<noteq> 215 \<and> n \<noteq> 247)))"

definition lower_char :: "char \<Rightarrow> char" where
  "lower_char c = (if is_ascii_upper c \<or> (192 \<le> cp c \<and> cp c \<le> 222 \<and> cp c \<noteq> 215)
     then char_of (cp c + 32) else c)"

definition lower :: "string \<Rightarrow> string" where
  "lower s = map lower_char s"

definition lstrip :: "(char \<Rightarrow> bool) \<Rightarrow> string \<Rightarrow> string" where
  "lstrip p s = dropWhile p s"

definition rstrip :: "(char \<Rightarrow> bool) \<Rightarrow> string \<Rightarrow> string" where
  "rstrip p s = rev (dropWhile p (rev s))"

definition strip :: "string \<Rightarrow> string" where
  "strip s = rstrip is_space (lstrip is_space s)"

definition starts_with :: "string \<Rightarrow> string \<Rightarrow> bool" where
  "starts_with p s = (take (length p) s = p)"

definition ends_with :: "string \<Rightarrow> string \<Rightarrow> bool" where
  "ends_with p s = (length p \<le> length s \<and> drop (length s - length p) s = p)"

definition remove_suffix :: "string \<Rightarrow> string \<Rightarrow> string" where
  "remove_suffix p s = (if ends_with p s then take (length s - length p) s else s)"

definition remove_prefix :: "string \<Rightarrow> string \<Rightarrow> string" where
  "remove_prefix p s = (if starts_with p s then drop (length p) s else s)"

text \<open>\<^verbatim>\<open>s.split(c)\<close> for one separator character: never empty.\<close>

fun split_on :: "char \<Rightarrow> string \<Rightarrow> string list" where
  "split_on c [] = [[]]"
| "split_on c (x # xs) =
     (if x = c then [] # split_on c xs
      else (case split_on c xs of [] \<Rightarrow> [[x]] | w # ws \<Rightarrow> (x # w) # ws))"

fun join :: "string \<Rightarrow> string list \<Rightarrow> string" where
  "join sep [] = []"
| "join sep [w] = w"
| "join sep (w # v # ws) = w @ sep @ join sep (v # ws)"

text \<open>\<^verbatim>\<open>s.split()\<close>: maximal runs without white space.\<close>

fun split_ws_aux :: "string \<Rightarrow> string \<Rightarrow> string list" where
  "split_ws_aux acc [] = (if acc = [] then [] else [rev acc])"
| "split_ws_aux acc (x # xs) =
     (if is_space x then (if acc = [] then split_ws_aux [] xs else rev acc # split_ws_aux [] xs)
      else split_ws_aux (x # acc) xs)"

definition split_ws :: "string \<Rightarrow> string list" where
  "split_ws s = split_ws_aux [] s"

text \<open>\<^verbatim>\<open>s.partition(c)\<close>: what precedes the first separator, and the rest after it if any.\<close>

definition partition_on :: "char \<Rightarrow> string \<Rightarrow> string \<times> string option" where
  "partition_on c s = (takeWhile (\<lambda>x. x \<noteq> c) s,
     (case dropWhile (\<lambda>x. x \<noteq> c) s of [] \<Rightarrow> None | _ # r \<Rightarrow> Some r))"

definition contains :: "string \<Rightarrow> string \<Rightarrow> bool" where
  "contains p s = (\<exists>i \<in> set [0 ..< Suc (length s)]. starts_with p (drop i s))"

text \<open>\<^verbatim>\<open>s.replace(p, q)\<close> for a non-empty \<open>p\<close>: left to right, without overlaps.\<close>

function replace :: "string \<Rightarrow> string \<Rightarrow> string \<Rightarrow> string" where
  "replace p q [] = []"
| "replace p q (x # xs) =
     (if p \<noteq> [] \<and> starts_with p (x # xs) then q @ replace p q (drop (length p) (x # xs))
      else x # replace p q xs)"
  by pat_completeness auto
termination
  by (relation "measure (\<lambda>(p, q, s). length s)") auto

text \<open>\<^verbatim>\<open>str.splitlines\<close> on code points below 256.\<close>

definition is_linebreak :: "char \<Rightarrow> bool" where
  "is_linebreak c = (let n = cp c in (10 \<le> n \<and> n \<le> 13) \<or> (28 \<le> n \<and> n \<le> 30) \<or> n = 133)"

definition skip_lf :: "char \<Rightarrow> string \<Rightarrow> string" where
  "skip_lf c s = (if c = CHR 0x0D \<and> s \<noteq> [] \<and> hd s = CHR 0x0A then tl s else s)"

function splitlines_aux :: "string \<Rightarrow> string \<Rightarrow> string list" where
  "splitlines_aux acc [] = (if acc = [] then [] else [rev acc])"
| "splitlines_aux acc (c # cs) =
     (if is_linebreak c then rev acc # splitlines_aux [] (skip_lf c cs) else splitlines_aux (c # acc) cs)"
  by pat_completeness auto
termination
  by (relation "measure (\<lambda>(acc, s). length s)") (auto simp: skip_lf_def)

definition splitlines :: "string \<Rightarrow> string list" where
  "splitlines s = splitlines_aux [] s"

subsection \<open>Decimal numerals\<close>

definition digit_char :: "nat \<Rightarrow> char" where
  "digit_char d = char_of (48 + d)"

fun string_of_nat :: "nat \<Rightarrow> string" where
  "string_of_nat n = (if n < 10 then [digit_char n] else string_of_nat (n div 10) @ [digit_char (n mod 10)])"

declare string_of_nat.simps [simp del]

definition string_of_int :: "int \<Rightarrow> string" where
  "string_of_int i = (if i < 0 then ''-'' @ string_of_nat (nat (- i)) else string_of_nat (nat i))"

definition nat_of_digits :: "string \<Rightarrow> nat" where
  "nat_of_digits s = foldl (\<lambda>n c. 10 * n + (cp c - 48)) 0 s"

subsection \<open>JSON string literals\<close>

text \<open>
  The code points of a JSON string literal's body, escapes resolved; a surrogate pair stays two units, which are
  no printable ASCII, the only characters a rule comment has.
\<close>

fun json_hex :: "char \<Rightarrow> nat option" where
  "json_hex c = (let n = cp c in
     if 48 \<le> n \<and> n \<le> 57 then Some (n - 48)
     else if 97 \<le> n \<and> n \<le> 102 then Some (n - 87)
     else if 65 \<le> n \<and> n \<le> 70 then Some (n - 55) else None)"

definition json_hex4 :: "char \<Rightarrow> char \<Rightarrow> char \<Rightarrow> char \<Rightarrow> nat option" where
  "json_hex4 a b c d = (case (json_hex a, json_hex b, json_hex c, json_hex d) of
     (Some p, Some q, Some r, Some s) \<Rightarrow> Some (4096 * p + 256 * q + 16 * r + s)
   | _ \<Rightarrow> None)"

definition json_escape :: "char \<Rightarrow> nat option" where
  "json_escape c =
     (if c \<in> {CHR 0x22, CHR 0x5C, CHR ''/''} then Some (cp c)
      else if c = CHR ''b'' then Some 8 else if c = CHR ''f'' then Some 12 else if c = CHR ''n'' then Some 10
      else if c = CHR ''r'' then Some 13 else if c = CHR ''t'' then Some 9 else None)"

fun json_unescape :: "string \<Rightarrow> nat list option" where
  "json_unescape [] = Some []"
| "json_unescape (x # xs) =
     (if x = CHR 0x5C then
        (case xs of
           [] \<Rightarrow> None
         | e # ys \<Rightarrow>
             (if e = CHR ''u'' then
                (case ys of
                   a # b # c # d # zs \<Rightarrow>
                     (case (json_hex4 a b c d, json_unescape zs) of (Some n, Some ns) \<Rightarrow> Some (n # ns) | _ \<Rightarrow> None)
                 | _ \<Rightarrow> None)
              else (case (json_escape e, json_unescape ys) of (Some n, Some ns) \<Rightarrow> Some (n # ns) | _ \<Rightarrow> None)))
      else if cp x < 32 \<or> x = CHR 0x22 then None
      else map_option ((#) (cp x)) (json_unescape xs))"

section \<open>Shared lemmas\<close>

named_theorems res_simps "inversion of results"

text \<open>Evaluation goes under a continuation only once its argument is known.\<close>

declare rbind_def [code_unfold]

lemma rbind_Inr [simp]: "rbind (Inr x) f = f x"
  by (simp add: rbind_def)

lemma rbind_Inl [simp]: "rbind (Inl e) f = Inl e"
  by (simp add: rbind_def)

lemma rbind_eq_Inr [res_simps]: "rbind m f = Inr y \<longleftrightarrow> (\<exists>x. m = Inr x \<and> f x = Inr y)"
  by (cases m) auto

lemma rbind_eq_Inl [res_simps]:
  "rbind m f = Inl e \<longleftrightarrow> m = Inl e \<or> (\<exists>x. m = Inr x \<and> f x = Inl e)"
  by (cases m) auto

lemma rguard_eq_Inr [res_simps]: "rguard b e = Inr u \<longleftrightarrow> b"
  by (simp add: rguard_def)

lemma rguard_eq_Inl [res_simps]: "rguard b e = Inl e' \<longleftrightarrow> \<not> b \<and> e' = e"
  by (auto simp: rguard_def)

lemma rguard_True [simp]: "rguard True e = Inr ()"
  by (simp add: rguard_def)

lemma rguard_False [simp]: "rguard False e = Inl e"
  by (simp add: rguard_def)

lemma rmap_cong [fundef_cong]: "xs = ys \<Longrightarrow> (\<And>x. x \<in> set ys \<Longrightarrow> f x = g x) \<Longrightarrow> rmap f xs = rmap g ys"
  by (induction xs arbitrary: ys) auto

lemma rmap_eq_Inr: "rmap f xs = Inr ys \<longleftrightarrow> list_all2 (\<lambda>x y. f x = Inr y) xs ys"
  by (induction xs arbitrary: ys) (auto simp: res_simps list_all2_Cons1)

lemma rmap_total: "(\<And>x. x \<in> set xs \<Longrightarrow> f x = Inr (g x)) \<Longrightarrow> rmap f xs = Inr (map g xs)"
  by (induction xs) auto

lemma rmap_length: "rmap f xs = Inr ys \<Longrightarrow> length ys = length xs"
  by (auto simp: rmap_eq_Inr dest: list_all2_lengthD)

lemma rmapi_eq_Inr:
  "rmapi i f xs = Inr ys \<longleftrightarrow>
     length ys = length xs \<and> (\<forall>k < length xs. f (i + k) (xs ! k) = Inr (ys ! k))"
proof (induction xs arbitrary: i ys)
  case Nil
  then show ?case by auto
next
  case (Cons x xs)
  show ?case
    by (cases ys)
      (auto simp: res_simps Cons.IH less_Suc_eq_0_disj nth_Cons' add.commute)
qed

lemma has_key_update [simp]: "has_key (dset k v d) k' \<longleftrightarrow> k' = k \<or> has_key d k'"
  by (auto simp: has_key_def update_conv')

lemma dget_update [simp]: "dget (dset k v d) k' = (if k' = k then Some v else dget d k')"
  by (simp add: update_conv')

lemma dget_delete [simp]: "dget (dpop k d) k' = (if k' = k then None else dget d k')"
  by (simp add: delete_conv')

lemma distinct_dset [simp]: "distinct (dkeys (dset k v d)) \<longleftrightarrow> distinct (dkeys d)"
  by (simp add: AList.update_keys)

lemma distinct_dpop: "distinct (dkeys d) \<Longrightarrow> distinct (dkeys (dpop k d))"
  by (rule AList.distinct_delete)

lemma set_dset: "set (dset k v d) \<subseteq> insert (k, v) (set d)"
  by (induction d) (auto split: prod.splits)

lemma size_list_sort_key [simp]: "size_list g (sort_key f xs) = size_list g xs"
proof -
  have "size_list g (insort_key f x ys) = Suc (g x + size_list g ys)" for x ys
    by (induction ys) auto
  then show ?thesis by (induction xs) auto
qed

lemma ends_with_append [simp]: "ends_with p (s @ p)"
  by (simp add: ends_with_def)

lemma contains_Cons: "contains p (x # xs) \<longleftrightarrow> starts_with p (x # xs) \<or> contains p xs"
proof -
  have "contains p s \<longleftrightarrow> (\<exists>i \<le> length s. starts_with p (drop i s))" for s
    unfolding contains_def by (auto simp: less_Suc_eq_le simp del: upt_Suc)
  moreover have "(\<exists>i \<le> length (x # xs). starts_with p (drop i (x # xs))) \<longleftrightarrow>
      starts_with p (x # xs) \<or> (\<exists>i \<le> length xs. starts_with p (drop i xs))"
    by (metis (no_types) Suc_le_mono drop0 drop_Suc_Cons length_Cons not0_implies_Suc zero_le)
  ultimately show ?thesis by simp
qed

lemma split_on_not_Nil [simp]: "split_on c s \<noteq> []"
  by (induction s) (auto split: list.splits)

lemma split_on_no_sep: "c \<notin> set s \<Longrightarrow> split_on c s = [s]"
  by (induction s) auto

lemma split_on_append: "c \<notin> set s \<Longrightarrow> split_on c (s @ c # t) = s # split_on c t"
  by (induction s) auto

lemma split_on_pieces: "w \<in> set (split_on c s) \<Longrightarrow> c \<notin> set w"
  by (induction s arbitrary: w) (auto split: list.splits if_splits)

lemma join_split_on: "join [c] (split_on c s) = s"
proof (induction s)
  case Nil
  then show ?case by simp
next
  case (Cons x s)
  obtain w ws where w: "split_on c s = w # ws"
    by (cases "split_on c s") auto
  then show ?case
    using Cons.IH by (cases ws) auto
qed

lemma split_on_join:
  "ws \<noteq> [] \<Longrightarrow> (\<And>w. w \<in> set ws \<Longrightarrow> c \<notin> set w) \<Longrightarrow> split_on c (join [c] ws) = ws"
proof (induction "[c]" ws rule: join.induct)
  case (3 w v ws)
  then show ?case by (simp add: split_on_append)
qed (auto simp: split_on_no_sep)

lemma splitlines_aux_line:
  "list_all (\<lambda>c. \<not> is_linebreak c) l \<Longrightarrow> splitlines_aux acc (l @ [CHR 0x0A] @ t) = (rev acc @ l) # splitlines_aux [] t"
  by (induction l arbitrary: acc) (auto simp: is_linebreak_def cp_def skip_lf_def)

lemma splitlines_join:
  "ls \<noteq> [] \<Longrightarrow> (\<And>l. l \<in> set ls \<Longrightarrow> list_all (\<lambda>c. \<not> is_linebreak c) l) \<Longrightarrow> splitlines (join [CHR 0x0A] ls @ [CHR 0x0A]) = ls"
  unfolding splitlines_def
proof (induction "[CHR 0x0A]" ls rule: join.induct)
  case (2 w)
  then show ?case using splitlines_aux_line [of w "[]" "[]"] by simp
next
  case (3 w v ws)
  then show ?case using splitlines_aux_line [of w "[]" "join [CHR 0x0A] (v # ws) @ [CHR 0x0A]"] by simp
qed simp

lemma cp_digit_char: "d < 10 \<Longrightarrow> cp (digit_char d) = 48 + d"
  by (simp add: cp_def digit_char_def)

lemma digit_char_is_digit: "d < 10 \<Longrightarrow> is_ascii_digit (digit_char d)"
  by (simp add: is_ascii_digit_def cp_digit_char)

lemma string_of_nat_digits: "c \<in> set (string_of_nat n) \<Longrightarrow> is_ascii_digit c"
proof (induction n rule: string_of_nat.induct)
  case (1 n)
  then show ?case
    by (cases "n < 10") (auto simp: string_of_nat.simps [of n] digit_char_is_digit)
qed

lemma string_of_nat_not_Nil [simp]: "string_of_nat n \<noteq> []"
  by (subst string_of_nat.simps) simp

lemma nat_of_digits_snoc: "nat_of_digits (s @ [c]) = 10 * nat_of_digits s + (cp c - 48)"
  by (simp add: nat_of_digits_def)

lemma nat_of_digits_string_of_nat [simp]: "nat_of_digits (string_of_nat n) = n"
proof (induction n rule: string_of_nat.induct)
  case (1 n)
  show ?case
  proof (cases "n < 10")
    case True
    then show ?thesis
      by (simp add: string_of_nat.simps [of n] nat_of_digits_def cp_digit_char)
  next
    case False
    with "1.IH" show ?thesis
      by (simp add: string_of_nat.simps [of n] nat_of_digits_snoc cp_digit_char)
  qed
qed

lemma string_of_nat_inj: "string_of_nat m = string_of_nat n \<Longrightarrow> m = n"
  by (metis nat_of_digits_string_of_nat)

lemma hd_string_of_nat_zero: "hd (string_of_nat n) = digit_char 0 \<Longrightarrow> n = 0"
proof (induction n rule: string_of_nat.induct)
  case (1 n)
  show ?case
  proof (cases "n < 10")
    case True
    with "1.prems" have "cp (digit_char n) = cp (digit_char 0)"
      by (simp add: string_of_nat.simps [of n])
    with True show ?thesis by (simp add: cp_digit_char)
  next
    case False
    with "1.prems" have "hd (string_of_nat (n div 10)) = digit_char 0"
      by (simp add: string_of_nat.simps [of n])
    with "1.IH" False have "n div 10 = 0" by blast
    with False show ?thesis by simp
  qed
qed

lemma length_string_of_nat_le: "n < 10 ^ k \<Longrightarrow> 0 < k \<Longrightarrow> length (string_of_nat n) \<le> k"
proof (induction n arbitrary: k rule: string_of_nat.induct)
  case (1 n)
  show ?case
  proof (cases "n < 10")
    case True
    with "1.prems" show ?thesis by (simp add: string_of_nat.simps [of n])
  next
    case False
    from "1.prems" obtain j where k: "k = Suc j" by (cases k) auto
    with "1.prems" False have "0 < j" by (cases j) auto
    with k have j: "k = Suc j" "0 < j" by auto
    with "1.prems" have "n div 10 < 10 ^ j"
      by (simp add: less_mult_imp_div_less mult.commute)
    with "1.IH" False j have "length (string_of_nat (n div 10)) \<le> j" by blast
    with False j show ?thesis by (simp add: string_of_nat.simps [of n])
  qed
qed

end
