(* ===== verification/Config_Root.thy ===== *)
theory Config_Root
  imports Py_Base
begin

text \<open>
  Promotion, rollback and crash recovery of the configuration root, from
  \<^verbatim>\<open>activation.py\<close> of \<^verbatim>\<open>atomixos_provision\<close>.

  The durable state is the parent directory of the configuration root: the active root, its
  \<^verbatim>\<open>-candidate\<close> and \<^verbatim>\<open>-rollback\<close> siblings, and the two pending markers.
  Every function of the module is an \<open>io\<close> program: from a state it gives the filesystem
  operations it performs, in order, the state it leaves, and its result or exception. A crash
  leaves the state after some prefix of those operations, or part of the way through one that is
  not atomic (\<open>crash\<close>). Directory fsyncs order the operations and are not represented; file
  modes are kept on files because the receipt reader checks them; the service-group grants are not.

  Running the activation hook and the service checks is the parameter \<open>act\<close>: the failures it
  reports for a root, and the managed-user record \<^verbatim>\<open>apply-users\<close> leaves in it.
\<close>

section \<open>Definitions\<close>

subsection \<open>Files, roots and markers\<close>

datatype content = Json pyval | Raw string

datatype fnode = FReg nat content | FDir "(string \<times> fnode) list"

type_synonym tree = "(string \<times> fnode) list"

datatype root = Cfg | Cand | Rb

datatype mark = Promo | RbAct

record cfs =
  cfg :: "tree option"
  cand :: "tree option"
  rb :: "tree option"
  promo :: bool
  rbact :: bool

fun get_root :: "root \<Rightarrow> cfs \<Rightarrow> tree option" where
  "get_root Cfg s = cfg s"
| "get_root Cand s = cand s"
| "get_root Rb s = rb s"

fun set_root :: "root \<Rightarrow> tree option \<Rightarrow> cfs \<Rightarrow> cfs" where
  "set_root Cfg t s = s\<lparr>cfg := t\<rparr>"
| "set_root Cand t s = s\<lparr>cand := t\<rparr>"
| "set_root Rb t s = s\<lparr>rb := t\<rparr>"

fun set_mark :: "mark \<Rightarrow> bool \<Rightarrow> cfs \<Rightarrow> cfs" where
  "set_mark Promo b s = s\<lparr>promo := b\<rparr>"
| "set_mark RbAct b s = s\<lparr>rbact := b\<rparr>"

definition entry :: "tree option \<Rightarrow> string \<Rightarrow> fnode option" where
  "entry t n = (case t of None \<Rightarrow> None | Some es \<Rightarrow> map_of es n)"

definition is_regular :: "fnode option \<Rightarrow> bool" where
  "is_regular f = (case f of Some (FReg m c) \<Rightarrow> True | _ \<Rightarrow> False)"

definition config_toml :: string where "config_toml = ''config.toml''"
definition first_config :: string where "first_config = ''.first-config''"
definition managed_users :: string where "managed_users = ''managed-users.json''"
definition apply_receipt :: string where "apply_receipt = ''.atomixos-apply-receipt.json''"

definition is_provisioned_config_root :: "tree option \<Rightarrow> bool" where
  "is_provisioned_config_root t =
     (is_regular (entry t first_config) \<or> is_regular (entry t config_toml))"

subsection \<open>Filesystem operations and crashes\<close>

datatype fsop =
    RmTree root
  | Rename root root
  | Mkdir root
  | CopyTree root tree
  | PutFile root string fnode
  | PutAtomic root string fnode
  | RmEntry root string
  | WriteMark mark
  | UnlinkMark mark

fun exec :: "fsop \<Rightarrow> cfs \<Rightarrow> cfs res" where
  "exec (RmTree r) s =
     (case get_root r s of None \<Rightarrow> Inl (OSErr ''ENOENT'') | Some t \<Rightarrow> Inr (set_root r None s))"
| "exec (Rename a b) s =
     (case get_root a s of
        None \<Rightarrow> Inl (OSErr ''ENOENT'')
      | Some t \<Rightarrow>
          (if get_root b s = None \<or> get_root b s = Some []
           then Inr (set_root b (Some t) (set_root a None s))
           else Inl (OSErr ''ENOTEMPTY'')))"
| "exec (Mkdir r) s =
     (case get_root r s of None \<Rightarrow> Inr (set_root r (Some []) s) | Some t \<Rightarrow> Inr s)"
| "exec (CopyTree r t) s =
     (case get_root r s of None \<Rightarrow> Inr (set_root r (Some t) s) | Some t' \<Rightarrow> Inl (OSErr ''EEXIST''))"
| "exec (PutFile r n f) s =
     (case get_root r s of None \<Rightarrow> Inl (OSErr ''ENOENT'')
      | Some t \<Rightarrow> Inr (set_root r (Some (dset n f t)) s))"
| "exec (PutAtomic r n f) s =
     (case get_root r s of None \<Rightarrow> Inl (OSErr ''ENOENT'')
      | Some t \<Rightarrow> Inr (set_root r (Some (dset n f t)) s))"
| "exec (RmEntry r n) s =
     (case get_root r s of None \<Rightarrow> Inl (OSErr ''ENOENT'')
      | Some t \<Rightarrow> Inr (set_root r (Some (dpop n t)) s))"
| "exec (WriteMark m) s = Inr (set_mark m True s)"
| "exec (UnlinkMark m) s = Inr (set_mark m False s)"

text \<open>What an interrupted \<^verbatim>\<open>rmtree\<close> may leave of a directory: some entries, with subdirectories
  themselves partly removed.\<close>

inductive remnant :: "tree \<Rightarrow> tree \<Rightarrow> bool" where
  remnant_nil: "remnant [] []"
| remnant_drop: "remnant t u \<Longrightarrow> remnant (e # t) u"
| remnant_keep: "remnant t u \<Longrightarrow> remnant (e # t) (e # u)"
| remnant_sub: "remnant t u \<Longrightarrow> remnant d d' \<Longrightarrow> remnant ((n, FDir d) # t) ((n, FDir d') # u)"

text \<open>A temporary name: hidden, and none of the names the code gives a meaning.\<close>

definition temp_name :: "string \<Rightarrow> bool" where
  "temp_name n = (starts_with ''.'' n \<and> n \<noteq> first_config \<and> n \<noteq> apply_receipt)"

text \<open>The states in which an operation that is not atomic can be interrupted. A file being written
  has any content; a tree being copied is any tree; an atomic write leaves a stray temporary file.\<close>

inductive midway :: "fsop \<Rightarrow> cfs \<Rightarrow> cfs \<Rightarrow> bool" where
  mid_rmtree: "get_root r s = Some t \<Longrightarrow> remnant t u \<Longrightarrow> midway (RmTree r) s (set_root r (Some u) s)"
| mid_copy: "get_root r s = None \<Longrightarrow> midway (CopyTree r t) s (set_root r (Some u) s)"
| mid_put: "get_root r s = Some t \<Longrightarrow>
     midway (PutFile r n f) s (set_root r (Some (dset n (FReg m c) t)) s)"
| mid_atomic: "get_root r s = Some t \<Longrightarrow> temp_name k \<Longrightarrow>
     midway (PutAtomic r n f) s (set_root r (Some (dset k f' t)) s)"
| mid_rmentry: "get_root r s = Some t \<Longrightarrow> map_of t n = Some (FDir d) \<Longrightarrow> remnant d d' \<Longrightarrow>
     midway (RmEntry r n) s (set_root r (Some (dset n (FDir d') t)) s)"

inductive crash :: "fsop list \<Rightarrow> cfs \<Rightarrow> cfs \<Rightarrow> bool" where
  crash_here: "crash ops s s"
| crash_mid: "midway op s u \<Longrightarrow> crash (op # ops) s u"
| crash_next: "exec op s = Inr s1 \<Longrightarrow> crash ops s1 u \<Longrightarrow> crash (op # ops) s u"

fun exec_all :: "fsop list \<Rightarrow> cfs \<Rightarrow> cfs res" where
  "exec_all [] s = Inr s"
| "exec_all (op # ops) s = rbind (exec op s) (exec_all ops)"

subsection \<open>Programs over the filesystem\<close>

type_synonym 'a io = "cfs \<Rightarrow> fsop list \<times> cfs \<times> 'a res"

definition io_ret :: "'a \<Rightarrow> 'a io" where
  "io_ret x s = ([], s, Inr x)"

definition io_raise :: "error \<Rightarrow> 'a io" where
  "io_raise e s = ([], s, Inl e)"

definition io_op :: "fsop \<Rightarrow> unit io" where
  "io_op op s = (case exec op s of Inl e \<Rightarrow> ([], s, Inl e) | Inr s1 \<Rightarrow> ([op], s1, Inr ()))"

definition io_bind :: "'a io \<Rightarrow> ('a \<Rightarrow> 'b io) \<Rightarrow> 'b io" where
  "io_bind m f s = (case m s of (ops, s1, r) \<Rightarrow>
     (case r of Inl e \<Rightarrow> (ops, s1, Inl e)
      | Inr x \<Rightarrow> (case f x s1 of (ops2, s2, r2) \<Rightarrow> (ops @ ops2, s2, r2))))"

definition io_then :: "'a io \<Rightarrow> 'b io \<Rightarrow> 'b io" where
  "io_then m k = io_bind m (\<lambda>_. k)"

definition io_when :: "bool \<Rightarrow> unit io \<Rightarrow> unit io" where
  "io_when b m = (if b then m else io_ret ())"

fun io_each :: "('a \<Rightarrow> unit io) \<Rightarrow> 'a list \<Rightarrow> unit io" where
  "io_each f [] = io_ret ()"
| "io_each f (x # xs) = io_then (f x) (io_each f xs)"

definition io_res :: "'a res \<Rightarrow> 'a io" where
  "io_res r s = ([], s, r)"

definition ops_of :: "'a io \<Rightarrow> cfs \<Rightarrow> fsop list" where
  "ops_of m s = fst (m s)"

definition final :: "'a io \<Rightarrow> cfs \<Rightarrow> cfs" where
  "final m s = fst (snd (m s))"

definition outcome :: "'a io \<Rightarrow> cfs \<Rightarrow> 'a res" where
  "outcome m s = snd (snd (m s))"

text \<open>\<^verbatim>\<open>if r.exists(): shutil.rmtree(r)\<close>\<close>

definition rm_if_exists :: "root \<Rightarrow> unit io" where
  "rm_if_exists r s = io_when (get_root r s \<noteq> None) (io_op (RmTree r)) s"

subsection \<open>Managed-user record\<close>

fun str_items :: "pyval list \<Rightarrow> string list" where
  "str_items [] = []"
| "str_items (VStr x # vs) = x # str_items vs"
| "str_items (v # vs) = str_items vs"

definition read_managed_state :: "tree option \<Rightarrow> string set" where
  "read_managed_state t =
     (case entry t managed_users of
        Some (FReg m (Json (VList vs))) \<Rightarrow> set (str_items vs)
      | _ \<Rightarrow> {})"

definition managed_record :: "string set \<Rightarrow> fnode" where
  "managed_record names = FReg 384 (Json (VList (map VStr (sorted_list_of_set names))))"

definition write_managed_state :: "root \<Rightarrow> string set \<Rightarrow> unit io" where
  "write_managed_state r names = io_op (PutAtomic r managed_users (managed_record names))"

definition carry_forward_managed_state :: "root \<Rightarrow> root \<Rightarrow> unit io" where
  "carry_forward_managed_state prev target s =
     (case entry (get_root prev s) managed_users of
        None \<Rightarrow> io_ret () s
      | Some (FDir d) \<Rightarrow> io_raise (OSErr ''EISDIR'') s
      | Some (FReg m c) \<Rightarrow> io_op (PutFile target managed_users (FReg 384 c)) s)"

subsection \<open>Promotion and rollback\<close>

definition atomic_promote :: "unit io" where
  "atomic_promote =
     io_then (rm_if_exists Rb)
     (io_then (io_op (WriteMark Promo))
     (io_then (io_op (Rename Cfg Rb))
       (io_op (Rename Cand Cfg))))"

definition atomic_promote_initial :: "unit io" where
  "atomic_promote_initial =
     io_then (rm_if_exists Rb)
     (io_then (io_op (WriteMark Promo))
     (io_then (rm_if_exists Cfg)
       (io_op (Rename Cand Cfg))))"

definition cleanup_rollback :: "unit io" where
  "cleanup_rollback = io_then (rm_if_exists Rb) (io_op (UnlinkMark Promo))"

definition prune_to_managed_state :: "unit io" where
  "prune_to_managed_state s =
     (let names = dkeys (case cfg s of None \<Rightarrow> [] | Some t \<Rightarrow> t);
          is_marker = (\<lambda>n. n = first_config \<or> n = config_toml);
          entries = filter is_marker names @ filter (\<lambda>n. \<not> is_marker n) names
      in io_each (\<lambda>n. io_op (RmEntry Cfg n)) (filter (\<lambda>n. n \<noteq> managed_users) entries) s)"

definition discard_initial_config :: "unit io" where
  "discard_initial_config s =
     (let managed = read_managed_state (cfg s) \<union> read_managed_state (cand s) in
      io_then (io_when (cfg s \<noteq> None)
                (if managed \<noteq> {} then prune_to_managed_state else io_op (RmTree Cfg)))
      (io_then (io_when (managed \<noteq> {})
                 (io_then (io_op (Mkdir Cfg)) (write_managed_state Cfg managed)))
      (io_then (rm_if_exists Cand)
      (io_then (rm_if_exists Rb)
        (io_op (UnlinkMark Promo))))) s)"

definition restore_rollback :: "bool io" where
  "restore_rollback s =
     (if rb s = None then io_then (io_op (UnlinkMark Promo)) (io_ret False) s
      else
        (let failed_managed = read_managed_state (cfg s);
             rollback_managed = read_managed_state (rb s);
             merged_managed = rollback_managed \<union> failed_managed
         in io_then (rm_if_exists Cfg)
            (io_then (io_op (Rename Rb Cfg))
            (io_then (io_when (merged_managed \<noteq> {}) (write_managed_state Cfg merged_managed))
            (io_then (io_op (UnlinkMark Promo))
              (io_ret True)))) s))"

definition begin_rollback_activation :: "unit io" where
  "begin_rollback_activation = io_op (WriteMark RbAct)"

text \<open>Leave one complete configuration root after an interrupted promotion.\<close>

definition recover_config_root :: "unit io" where
  "recover_config_root s =
     (if promo s \<and> rb s \<noteq> None then
        io_then restore_rollback (rm_if_exists Cand) s
      else if promo s \<and> rb s = None then
        (if cfg s \<noteq> None \<and> entry (cfg s) config_toml \<noteq> None
         then io_then (rm_if_exists Cand) (io_op (UnlinkMark Promo)) s
         else discard_initial_config s)
      else if entry (cfg s) config_toml \<noteq> None then rm_if_exists Cand s
      else if cand s \<noteq> None then io_op (RmTree Cand) s
      else if rb s \<noteq> None then io_op (Rename Rb Cfg) s
      else io_ret () s)"

subsection \<open>Activation of a promoted root\<close>

text \<open>
  \<open>act\<close> stands for \<^verbatim>\<open>run_activation_sequence\<close>: the failures for a root, and the
  managed-user record the activation leaves in it, if it writes one.
\<close>

type_synonym activation = "tree option \<Rightarrow> string list \<times> string set option"

definition run_activation :: "activation \<Rightarrow> string list io" where
  "run_activation act s =
     (case act (cfg s) of (failures, upd) \<Rightarrow>
        (case upd of None \<Rightarrow> io_ret failures s
         | Some names \<Rightarrow> io_then (write_managed_state Cfg names) (io_ret failures) s))"

definition run_rollback_activation :: "activation \<Rightarrow> string list io" where
  "run_rollback_activation act =
     io_bind (run_activation act) (\<lambda>failures.
       io_then (io_op (UnlinkMark RbAct)) (io_ret failures))"

text \<open>\<^verbatim>\<open>if rollback_root.exists(): begin_rollback_activation(config_root)\<close>\<close>

definition mark_rollback_activation :: "unit io" where
  "mark_rollback_activation s = io_when (rb s \<noteq> None) begin_rollback_activation s"

definition complete_reapply ::
  "activation \<Rightarrow> unit io \<Rightarrow> (bool \<times> string list \<times> string) io" where
  "complete_reapply act before_commit =
     io_bind (run_activation act) (\<lambda>failures.
       if failures \<noteq> [] then
         io_then mark_rollback_activation
         (io_bind restore_rollback (\<lambda>restored.
            if restored then
              io_bind (run_rollback_activation act) (\<lambda>rollback_failures.
                if rollback_failures \<noteq> [] then
                  io_ret (False,
                    failures @ map (\<lambda>f. ''rollback activation/health failed: '' @ f) rollback_failures,
                    ''failed'')
                else io_ret (False, failures, ''completed''))
            else io_ret (False, failures, ''skipped'')))
       else
         io_then before_commit
         (io_then cleanup_rollback
           (io_ret (True, [], ''skipped''))))"

text \<open>The root after its activation: the managed-user record replaced, if the activation wrote one.\<close>

definition recorded :: "activation \<Rightarrow> tree option \<Rightarrow> tree option" where
  "recorded act t = (case (snd (act t), t) of
     (Some names, Some es) \<Rightarrow> Some (dset managed_users (managed_record names) es) | _ \<Rightarrow> t)"

text \<open>The restored rollback root: the managed names of the failed root are added to its record.\<close>

definition merged :: "tree \<Rightarrow> tree \<Rightarrow> tree" where
  "merged old new = (let m = read_managed_state (Some old) \<union> read_managed_state (Some new) in
     if m = {} then old else dset managed_users (managed_record m) old)"

subsection \<open>What recovery must keep\<close>

text \<open>
  \<open>keeps c t\<close>: the root \<open>t\<close> is the configuration \<open>c\<close> up to the managed-user record, which may
  have gained names, and stray temporary files.
\<close>

definition keeps :: "tree \<Rightarrow> tree option \<Rightarrow> bool" where
  "keeps c t = (t \<noteq> None \<and>
     (\<forall>n. n \<noteq> managed_users \<and> \<not> temp_name n \<longrightarrow> entry t n = map_of c n) \<and>
     read_managed_state (Some c) \<subseteq> read_managed_state t)"

text \<open>
  \<open>rollback_safe c s\<close>: the configuration \<open>c\<close> is still the one that recovery brings back, either
  because it is in the rollback root under a pending marker or because it is the active root and no
  rollback root can replace it.
\<close>

definition rollback_safe :: "tree \<Rightarrow> cfs \<Rightarrow> bool" where
  "rollback_safe c s =
     (map_of c config_toml \<noteq> None \<and>
      ((promo s \<and> keeps c (rb s)) \<or> (keeps c (cfg s) \<and> (promo s \<longrightarrow> rb s = None))))"

text \<open>Any number of interrupted runs of a recovery procedure.\<close>

inductive interrupted :: "'a io \<Rightarrow> cfs \<Rightarrow> cfs \<Rightarrow> bool" for recover :: "'a io" where
  interrupted_refl: "interrupted recover s s"
| interrupted_step: "interrupted recover s t \<Longrightarrow> crash (ops_of recover t) t u \<Longrightarrow>
    interrupted recover s u"

text \<open>A program is well formed when the operations it lists lead to the state it leaves.\<close>

definition io_wf :: "'a io \<Rightarrow> bool" where
  "io_wf m = (\<forall>s. exec_all (ops_of m s) s = Inr (final m s))"

text \<open>A provisioned root with a candidate beside it, for the concrete instances below.\<close>

definition sample_root :: "string \<Rightarrow> string \<Rightarrow> tree" where
  "sample_root body user =
     [(config_toml, FReg 384 (Raw body)), (managed_users, FReg 384 (Json (VList [VStr user])))]"

definition sample_state :: cfs where
  "sample_state = \<lparr>cfg = Some (sample_root ''old'' ''alice''), cand = Some (sample_root ''new'' ''bob''),
     rb = None, promo = False, rbact = False\<rparr>"

definition sample_activation :: activation where
  "sample_activation t =
     (if entry t config_toml = Some (FReg 384 (Raw ''old'')) then [] else [''app.service''], None)"

text \<open>An initial configuration whose activation failed before any account was created.\<close>

definition failed_initial :: cfs where
  "failed_initial = \<lparr>cfg = Some [(''lan-settings.json'', FReg 416 (Raw ''{}'')),
       (config_toml, FReg 384 (Raw ''new''))], cand = None, rb = None, promo = True, rbact = False\<rparr>"

section \<open>Theorems\<close>

subsection \<open>Programs and crashes\<close>

named_theorems io_simps "evaluation of filesystem programs"

lemmas io_evals [io_simps] =
  io_ret_def io_raise_def io_op_def io_bind_def io_then_def io_when_def io_res_def
  ops_of_def final_def outcome_def rm_if_exists_def

inductive_simps crash_Nil [simp]: "crash [] s u"
inductive_simps crash_Cons: "crash (op # ops) s u"

inductive_simps midway_RmTree [simp]: "midway (RmTree r) s u"
inductive_simps midway_Rename [simp]: "midway (Rename a b) s u"
inductive_simps midway_Mkdir [simp]: "midway (Mkdir r) s u"
inductive_simps midway_CopyTree [simp]: "midway (CopyTree r t) s u"
inductive_simps midway_PutFile [simp]: "midway (PutFile r n f) s u"
inductive_simps midway_PutAtomic [simp]: "midway (PutAtomic r n f) s u"
inductive_simps midway_RmEntry [simp]: "midway (RmEntry r n) s u"
inductive_simps midway_WriteMark [simp]: "midway (WriteMark m) s u"
inductive_simps midway_UnlinkMark [simp]: "midway (UnlinkMark m) s u"

lemma crash_ConsE:
  assumes "crash (op # ops) s u"
  obtains (here) "u = s" | (mid) "midway op s u" | (step) s1 where "exec op s = Inr s1" "crash ops s1 u"
  using assms by (auto simp: crash_Cons)

lemma crash_append:
  "crash (xs @ ys) s u \<longleftrightarrow> crash xs s u \<or> (\<exists>s1. exec_all xs s = Inr s1 \<and> crash ys s1 u)"
proof (induction xs arbitrary: s)
  case Nil
  then show ?case by (auto intro: crash_here)
next
  case (Cons op xs)
  show ?case
    by (auto simp: crash_Cons Cons.IH res_simps)
qed

lemma exec_all_append: "exec_all (xs @ ys) s = rbind (exec_all xs s) (exec_all ys)"
proof (induction xs arbitrary: s)
  case (Cons x xs)
  then show ?case by (cases "exec x s") auto
qed simp

lemma io_wf_ret [intro, simp]: "io_wf (io_ret x)"
  by (simp add: io_wf_def io_simps)

lemma io_wf_raise [intro, simp]: "io_wf (io_raise e)"
  by (simp add: io_wf_def io_simps)

lemma io_wf_res [intro, simp]: "io_wf (io_res r)"
  by (simp add: io_wf_def io_simps)

lemma io_wf_op [intro, simp]: "io_wf (io_op op)"
  by (auto simp: io_wf_def io_simps split: sum.splits)

lemma io_wf_bind [intro!]:
  assumes "io_wf m" and "\<And>x. io_wf (f x)"
  shows "io_wf (io_bind m f)"
  unfolding io_wf_def
proof
  fix s
  obtain ops s1 r where m: "m s = (ops, s1, r)" by (cases "m s") auto
  with assms(1) have ops: "exec_all ops s = Inr s1"
    by (auto simp: io_wf_def ops_of_def final_def dest: spec [of _ s])
  show "exec_all (ops_of (io_bind m f) s) s = Inr (final (io_bind m f) s)"
  proof (cases r)
    case (Inl e)
    with m ops show ?thesis by (simp add: io_bind_def ops_of_def final_def)
  next
    case (Inr x)
    have "exec_all (ops_of (f x) s1) s1 = Inr (final (f x) s1)"
      using assms(2) by (simp add: io_wf_def)
    with m ops Inr show ?thesis
      by (cases "f x s1") (simp add: io_bind_def ops_of_def final_def exec_all_append)
  qed
qed

lemma io_wf_then [intro!]: "io_wf m \<Longrightarrow> io_wf k \<Longrightarrow> io_wf (io_then m k)"
  by (auto simp: io_then_def)

lemma io_wf_when [intro!]: "io_wf m \<Longrightarrow> io_wf (io_when b m)"
  by (auto simp: io_when_def)

lemma io_wf_dep: "(\<And>t. io_wf (f t)) \<Longrightarrow> io_wf (\<lambda>s. f s s)"
  by (simp add: io_wf_def ops_of_def final_def)

lemma io_wf_each: "(\<And>x. io_wf (f x)) \<Longrightarrow> io_wf (io_each f xs)"
  by (induction xs) auto

lemma crash_bind:
  assumes "io_wf m"
  shows "crash (ops_of (io_bind m f) s) s u \<longleftrightarrow>
    crash (ops_of m s) s u \<or>
    (\<exists>x. outcome m s = Inr x \<and> crash (ops_of (f x) (final m s)) (final m s) u)"
proof (cases "m s")
  case (fields ops s1 r)
  with assms have "exec_all ops s = Inr s1"
    by (auto simp: io_wf_def ops_of_def final_def dest: spec [of _ s])
  with fields show ?thesis
    by (auto simp: io_bind_def ops_of_def outcome_def final_def crash_append
        split: sum.splits prod.splits)
qed

lemma crash_then:
  assumes "io_wf m"
  shows "crash (ops_of (io_then m k) s) s u \<longleftrightarrow>
    crash (ops_of m s) s u \<or>
    ((\<exists>x. outcome m s = Inr x) \<and> crash (ops_of k (final m s)) (final m s) u)"
  using crash_bind [OF assms] by (auto simp: io_then_def)

lemma io_then_ret [simp]: "io_then (io_ret x) k = k"
  by (rule ext) (simp add: io_then_def io_bind_def io_ret_def split: prod.split)

lemma ops_of_then:
  "m s = (ops, s1, Inr x) \<Longrightarrow> ops_of (io_then m k) s = ops @ ops_of k s1"
  by (simp add: io_then_def io_bind_def ops_of_def split: prod.split)

lemma ops_of_cong: "m s = k s \<Longrightarrow> ops_of m s = ops_of k s"
  by (simp add: ops_of_def)

lemma io_wf_rm [intro, simp]: "io_wf (rm_if_exists r)"
  by (auto simp: io_wf_def io_simps split: option.splits)

lemma io_wf_restore [intro, simp]: "io_wf restore_rollback"
proof -
  have "io_wf (if rb t = None then io_then (io_op (UnlinkMark Promo)) (io_ret False)
      else io_then (rm_if_exists Cfg)
        (io_then (io_op (Rename Rb Cfg))
        (io_then (io_when (read_managed_state (rb t) \<union> read_managed_state (cfg t) \<noteq> {})
            (write_managed_state Cfg (read_managed_state (rb t) \<union> read_managed_state (cfg t))))
        (io_then (io_op (UnlinkMark Promo)) (io_ret True)))))" for t
    by (auto simp: write_managed_state_def)
  from io_wf_dep [OF this] show ?thesis
    by (simp add: restore_rollback_def [abs_def] Let_def if_distrib [of "\<lambda>f. f _"] cong: if_cong)
qed

lemma io_wf_read: "(\<And>s. m s = f s s) \<Longrightarrow> (\<And>s. io_wf (f s)) \<Longrightarrow> io_wf m"
  using io_wf_dep [of f] by (metis ext)

lemma io_wf_prune [intro, simp]: "io_wf prune_to_managed_state"
  by (rule io_wf_read, unfold prune_to_managed_state_def Let_def, rule refl) (simp add: io_wf_each)

lemma io_wf_discard [intro, simp]: "io_wf discard_initial_config"
  by (rule io_wf_read, unfold discard_initial_config_def Let_def, rule refl)
    (auto simp: write_managed_state_def)

lemma io_wf_recover [intro, simp]: "io_wf recover_config_root"
proof -
  let ?f = "\<lambda>s. if promo s \<and> rb s \<noteq> None then io_then restore_rollback (rm_if_exists Cand)
      else if promo s \<and> rb s = None then
        (if cfg s \<noteq> None \<and> entry (cfg s) config_toml \<noteq> None
         then io_then (rm_if_exists Cand) (io_op (UnlinkMark Promo))
         else discard_initial_config)
      else if entry (cfg s) config_toml \<noteq> None then rm_if_exists Cand
      else if cand s \<noteq> None then io_op (RmTree Cand)
      else if rb s \<noteq> None then io_op (Rename Rb Cfg)
      else io_ret ()"
  have "recover_config_root s = ?f s s" for s
    by (cases "promo s"; cases "rb s"; cases "cfg s") (simp_all add: recover_config_root_def)
  moreover have "io_wf (?f s)" for s by auto
  ultimately show ?thesis by (rule io_wf_read [where f = ?f])
qed

subsection \<open>Roots and records\<close>

lemma entry_None [simp]: "entry None n = None"
  by (simp add: entry_def)

lemma entry_Some [simp]: "entry (Some t) n = map_of t n"
  by (simp add: entry_def)

lemma names_distinct [simp]:
  "config_toml \<noteq> managed_users" "managed_users \<noteq> config_toml"
  "first_config \<noteq> managed_users" "managed_users \<noteq> first_config"
  "apply_receipt \<noteq> managed_users" "managed_users \<noteq> apply_receipt"
  "apply_receipt \<noteq> config_toml" "config_toml \<noteq> apply_receipt"
  "apply_receipt \<noteq> first_config" "first_config \<noteq> apply_receipt"
  "first_config \<noteq> config_toml" "config_toml \<noteq> first_config"
  by (simp_all add: config_toml_def managed_users_def first_config_def apply_receipt_def)

lemma temp_name_known [simp]:
  "\<not> temp_name config_toml" "\<not> temp_name managed_users"
  "\<not> temp_name first_config" "\<not> temp_name apply_receipt"
  by (simp_all add: temp_name_def starts_with_def config_toml_def managed_users_def)

lemma str_items_VStr [simp]: "str_items (map VStr xs) = xs"
  by (induction xs) auto

lemma finite_read_managed [simp]: "finite (read_managed_state t)"
  by (simp add: read_managed_state_def split: option.split fnode.split content.split pyval.split)

lemma read_managed_None [simp]: "read_managed_state None = {}"
  by (simp add: read_managed_state_def)

lemma read_managed_record [simp]:
  "finite S \<Longrightarrow> read_managed_state (Some (dset managed_users (managed_record S) t)) = S"
  by (simp add: read_managed_state_def managed_record_def)

lemma read_managed_record_only [simp]:
  "finite S \<Longrightarrow> read_managed_state (Some [(managed_users, managed_record S)]) = S"
  by (simp add: read_managed_state_def managed_record_def)

lemma read_managed_other [simp]:
  "n \<noteq> managed_users \<Longrightarrow> read_managed_state (Some (dset n f t)) = read_managed_state (Some t)"
  by (simp add: read_managed_state_def)

lemma read_managed_delete [simp]:
  "n \<noteq> managed_users \<Longrightarrow> read_managed_state (Some (dpop n t)) = read_managed_state (Some t)"
  by (simp add: read_managed_state_def)

lemma temp_not_managed: "temp_name k \<Longrightarrow> k \<noteq> managed_users"
  by (auto simp: temp_name_def starts_with_def managed_users_def)

lemma read_managed_temp [simp]:
  "temp_name k \<Longrightarrow> read_managed_state (Some (dset k f t)) = read_managed_state (Some t)"
  using temp_not_managed [of k] by simp

lemma keeps_refl [simp, intro]: "keeps c (Some c)"
  by (simp add: keeps_def)

lemma keeps_None [simp]: "\<not> keeps c None"
  by (simp add: keeps_def)

lemma keeps_record:
  "keeps c (Some t) \<Longrightarrow> read_managed_state (Some t) \<subseteq> S \<Longrightarrow> finite S \<Longrightarrow>
   keeps c (Some (dset managed_users (managed_record S) t))"
  by (auto simp: keeps_def)

lemma keeps_temp: "keeps c (Some t) \<Longrightarrow> temp_name k \<Longrightarrow> keeps c (Some (dset k f t))"
  using temp_not_managed [of k] by (auto simp: keeps_def)

lemma keeps_config_toml: "keeps c t \<Longrightarrow> map_of c config_toml \<noteq> None \<Longrightarrow> entry t config_toml \<noteq> None"
  by (auto simp: keeps_def)

subsection \<open>Recovery keeps a rollback-safe configuration\<close>

lemmas promotion_defs =
  restore_rollback_def write_managed_state_def cleanup_rollback_def atomic_promote_def
  atomic_promote_initial_def begin_rollback_activation_def

lemma rollback_safeE:
  assumes "rollback_safe c s"
  obtains (pending) t where "promo s" "rb s = Some t" "keeps c (Some t)"
    | (marked) t where "promo s" "rb s = None" "cfg s = Some t" "keeps c (Some t)"
    | (settled) t where "\<not> promo s" "cfg s = Some t" "keeps c (Some t)"
  using assms by (cases "promo s"; cases "cfg s"; cases "rb s") (auto simp: rollback_safe_def)

lemma recover_rollback_safe:
  assumes "rollback_safe c s"
  shows "outcome recover_config_root s = Inr ()"
    and "keeps c (cfg (final recover_config_root s))"
    and "cand (final recover_config_root s) = None"
    and "\<not> promo (final recover_config_root s)"
    and "rbact (final recover_config_root s) = rbact s"
proof -
  have toml: "map_of c config_toml \<noteq> None"
    using assms by (simp add: rollback_safe_def)
  have "outcome recover_config_root s = Inr () \<and> keeps c (cfg (final recover_config_root s)) \<and>
    cand (final recover_config_root s) = None \<and> \<not> promo (final recover_config_root s) \<and>
    rbact (final recover_config_root s) = rbact s"
    using assms
  proof (cases rule: rollback_safeE)
    case (pending t)
    then show ?thesis
      by (cases "cfg s"; cases "cand s")
        (auto simp: recover_config_root_def promotion_defs io_simps Let_def intro!: keeps_record)
  next
    case (marked t)
    then have "entry (Some t) config_toml \<noteq> None"
      using toml by (metis keeps_config_toml)
    with marked show ?thesis
      by (cases "cand s") (auto simp: recover_config_root_def io_simps)
  next
    case (settled t)
    then have "entry (Some t) config_toml \<noteq> None"
      using toml by (metis keeps_config_toml)
    with settled show ?thesis
      by (cases "cand s") (auto simp: recover_config_root_def io_simps)
  qed
  then show "outcome recover_config_root s = Inr ()"
    and "keeps c (cfg (final recover_config_root s))"
    and "cand (final recover_config_root s) = None"
    and "\<not> promo (final recover_config_root s)"
    and "rbact (final recover_config_root s) = rbact s"
    by auto
qed

text \<open>
  An interrupted recovery leaves a rollback-safe state again: the rollback root is renamed into
  place before the marker is removed, and the record is replaced atomically.
\<close>

lemma rm_if_exists_eval [simp]:
  "rm_if_exists r s = (if get_root r s = None then ([], s, Inr ()) else ([RmTree r], set_root r None s, Inr ()))"
  by (cases r) (auto simp: io_simps)

lemma restore_rollback_eval:
  assumes "rb s = Some t"
  defines "m \<equiv> read_managed_state (Some t) \<union> read_managed_state (cfg s)"
  shows "restore_rollback s =
    ((if cfg s = None then [] else [RmTree Cfg]) @ [Rename Rb Cfg] @
     (if m = {} then [] else [PutAtomic Cfg managed_users (managed_record m)]) @ [UnlinkMark Promo],
     s\<lparr>rb := None, promo := False,
        cfg := Some (if m = {} then t else dset managed_users (managed_record m) t)\<rparr>,
     Inr True)"
  using assms(1) unfolding m_def
  by (cases "cfg s") (auto simp: promotion_defs io_simps Let_def)

lemma restored_keeps:
  assumes "rb s = Some t" "keeps c (Some t)"
  shows "keeps c (cfg (final restore_rollback s))"
  using assms by (auto simp: final_def restore_rollback_eval intro: keeps_record)

lemma restored_fields:
  assumes "rb s = Some t"
  shows "rb (final restore_rollback s) = None" "\<not> promo (final restore_rollback s)"
    "cand (final restore_rollback s) = cand s" "rbact (final restore_rollback s) = rbact s"
    "outcome restore_rollback s = Inr True"
  using assms by (simp_all add: final_def outcome_def restore_rollback_eval)

lemma restore_crash_rollback_safe:
  assumes "promo s" "rb s = Some t" "keeps c (Some t)" "map_of c config_toml \<noteq> None"
    and "crash (ops_of restore_rollback s) s u"
  shows "rollback_safe c u"
proof -
  define m where "m = read_managed_state (Some t) \<union> read_managed_state (cfg s)"
  let ?w = "if m = {} then [] else [PutAtomic Cfg managed_users (managed_record m)]"
  let ?r = "s\<lparr>rb := None, cfg := Some t\<rparr>"
  have fin: "finite m" and sub: "read_managed_state (Some t) \<subseteq> m" by (auto simp: m_def)
  have tail: "rollback_safe c u" if "crash (?w @ [UnlinkMark Promo]) ?r u"
    using that assms(3,4) keeps_record [OF assms(3) sub fin]
    by (cases "m = {}") (auto simp: crash_Cons rollback_safe_def keeps_temp)
  have mid: "rollback_safe c u" if "crash (Rename Rb Cfg # ?w @ [UnlinkMark Promo]) (s\<lparr>cfg := None\<rparr>) u"
    using that assms(1-4) tail
    by (auto simp: crash_Cons [of "Rename Rb Cfg"] rollback_safe_def)
  have ops: "ops_of restore_rollback s =
      (if cfg s = None then [] else [RmTree Cfg]) @ Rename Rb Cfg # ?w @ [UnlinkMark Promo]"
    by (simp add: ops_of_def restore_rollback_eval [OF assms(2)] m_def)
  show ?thesis
  proof (cases "cfg s")
    case None
    then have eq: "s\<lparr>cfg := None\<rparr> = s" by simp
    from None show ?thesis
      using assms(5) mid [unfolded eq] by (simp add: ops)
  next
    case (Some x)
    then show ?thesis
      using assms mid by (auto simp: ops crash_Cons [of "RmTree Cfg"] rollback_safe_def)
  qed
qed

lemma recover_crash_rollback_safe:
  assumes "rollback_safe c s" and "crash (ops_of recover_config_root s) s u"
  shows "rollback_safe c u"
proof -
  have toml: "map_of c config_toml \<noteq> None"
    using assms by (simp add: rollback_safe_def)
  from assms(1) show ?thesis
  proof (cases rule: rollback_safeE)
    case (pending t)
    then have split: "crash (ops_of restore_rollback s) s u \<or>
        crash (ops_of (rm_if_exists Cand) (final restore_rollback s)) (final restore_rollback s) u"
      using assms(2) crash_then [OF io_wf_restore, of "rm_if_exists Cand" s u]
      by (auto simp: recover_config_root_def ops_of_def)
    from split show ?thesis
    proof
      assume "crash (ops_of restore_rollback s) s u"
      with pending toml show ?thesis by (blast intro: restore_crash_rollback_safe)
    next
      assume "crash (ops_of (rm_if_exists Cand) (final restore_rollback s)) (final restore_rollback s) u"
      then show ?thesis
        using toml restored_keeps [OF pending(2,3)] restored_fields [OF pending(2)]
        by (cases "cand s") (auto simp: ops_of_def crash_Cons rollback_safe_def)
    qed
  next
    case (marked t)
    then have "entry (Some t) config_toml \<noteq> None"
      using toml by (metis keeps_config_toml)
    with marked show ?thesis
      using assms(2) toml
      by (cases "cand s")
        (auto simp: recover_config_root_def io_simps crash_Cons rollback_safe_def)
  next
    case (settled t)
    then have "entry (Some t) config_toml \<noteq> None"
      using toml by (metis keeps_config_toml)
    with settled show ?thesis
      using assms(2) toml
      by (cases "cand s")
        (auto simp: recover_config_root_def io_simps crash_Cons rollback_safe_def)
  qed
qed

subsection \<open>Recovery as an interface\<close>

text \<open>
  What a client of a recovery procedure relies on: a recovery started in a safe state leaves a safe
  state wherever it is interrupted, and reaches a good state when it is not.
\<close>

locale crash_recovery =
  fixes recover :: "'a io"
    and safe :: "cfs \<Rightarrow> bool"
    and good :: "'a \<Rightarrow> cfs \<Rightarrow> bool"
  assumes recover_crash: "safe s \<Longrightarrow> crash (ops_of recover s) s u \<Longrightarrow> safe u"
    and recover_done: "safe s \<Longrightarrow> \<exists>x. outcome recover s = Inr x \<and> good x (final recover s)"
begin

lemma interrupted_safe: "interrupted recover s u \<Longrightarrow> safe s \<Longrightarrow> safe u"
  by (induction rule: interrupted.induct) (auto intro: recover_crash)

lemma program_recovers:
  assumes "\<And>t. crash ops s t \<Longrightarrow> safe t" and "crash ops s u" and "interrupted recover u v"
  shows "\<exists>x. outcome recover v = Inr x \<and> good x (final recover v)"
  using assms interrupted_safe recover_done by blast

end

interpretation rollback: crash_recovery recover_config_root "rollback_safe c"
    "\<lambda>_ s. keeps c (cfg s) \<and> cand s = None \<and> \<not> promo s"
  for c
  using recover_crash_rollback_safe [of c] recover_rollback_safe [of c] by unfold_locales auto

lemma promote_crash_rollback_safe:
  assumes "cfg s = Some c" "cand s = Some d" "map_of c config_toml \<noteq> None" "\<not> promo s"
    and "crash (ops_of atomic_promote s) s u"
  shows "rollback_safe c u"
  using assms
  by (cases "rb s") (auto simp: promotion_defs io_simps crash_Cons rollback_safe_def)

text \<open>
  C2: a re-apply promotion is crash safe. Interrupt \<^verbatim>\<open>atomic_promote\<close> anywhere, also inside a
  directory removal, then interrupt recovery any number of times: the next recovery that completes
  leaves the previous configuration active (up to added managed-user names), with no candidate and
  no pending marker.
\<close>

theorem promote_crash_recovers_previous:
  assumes "cfg s = Some c" and "cand s = Some d" and "map_of c config_toml \<noteq> None" and "\<not> promo s"
    and "crash (ops_of atomic_promote s) s u" and "interrupted recover_config_root u v"
  shows "outcome recover_config_root v = Inr () \<and>
    keeps c (cfg (final recover_config_root v)) \<and>
    cand (final recover_config_root v) = None \<and> \<not> promo (final recover_config_root v)"
  using rollback.program_recovers [OF promote_crash_rollback_safe [OF assms(1-4)] assms(5,6)]
  by simp

theorem promote_crash_recovers_previous_witness:
  "\<exists>u. crash (ops_of atomic_promote sample_state) sample_state u \<and> cfg u = None \<and>
     outcome recover_config_root u = Inr () \<and>
     keeps (sample_root ''old'' ''alice'') (cfg (final recover_config_root u))"
proof -
  let ?u = "sample_state\<lparr>cfg := None, rb := Some (sample_root ''old'' ''alice''), promo := True\<rparr>"
  have crash: "crash (ops_of atomic_promote sample_state) sample_state ?u"
    by (simp add: promotion_defs io_simps sample_state_def crash_Cons)
  have "outcome recover_config_root ?u = Inr () \<and>
      keeps (sample_root ''old'' ''alice'') (cfg (final recover_config_root ?u)) \<and>
      cand (final recover_config_root ?u) = None \<and> \<not> promo (final recover_config_root ?u)"
    by (rule promote_crash_recovers_previous [OF _ _ _ _ crash interrupted_refl,
          where d = "sample_root ''new'' ''bob''"])
      (simp_all add: sample_state_def sample_root_def)
  with crash show ?thesis by (auto simp: sample_state_def)
qed

subsection \<open>The managed-user record of a discarded initial configuration\<close>

lemma prune_names:
  "n \<in> set (filter (\<lambda>n. n \<noteq> managed_users) xs) \<Longrightarrow> n \<noteq> managed_users"
  by simp

lemma rm_entries_eval:
  "cfg s = Some t \<Longrightarrow>
   io_each (\<lambda>n. io_op (RmEntry Cfg n)) ns s =
     (map (RmEntry Cfg) ns, s\<lparr>cfg := Some (fold dpop ns t)\<rparr>, Inr ())"
  by (induction ns arbitrary: s t) (auto simp: io_simps)

lemma rm_entries_run:
  "cfg s = Some t \<Longrightarrow>
   exec_all (map (RmEntry Cfg) ns) s = Inr (s\<lparr>cfg := Some (fold dpop ns t)\<rparr>)"
  by (induction ns arbitrary: s t) auto

lemma rm_entries_crash:
  assumes "crash (map (RmEntry Cfg) ns) s u" "cfg s = Some t" "managed_users \<notin> set ns"
  shows "read_managed_state (cfg u) = read_managed_state (cfg s) \<and> cand u = cand s"
  using assms
proof (induction ns arbitrary: s t)
  case Nil
  then show ?case by simp
next
  case (Cons n ns)
  from Cons.prems(1) have "crash (RmEntry Cfg n # map (RmEntry Cfg) ns) s u" by simp
  then show ?case
  proof (cases rule: crash_ConsE)
    case here
    then show ?thesis by simp
  next
    case mid
    then show ?thesis using Cons.prems by auto
  next
    case (step s1)
    with Cons.prems(2) have s1: "cfg s1 = Some (dpop n t)" "cand s1 = cand s" by auto
    have "n \<noteq> managed_users" using Cons.prems(3) by auto
    then show ?thesis
      using Cons.IH [OF step(2) s1(1)] Cons.prems(2,3) s1 by simp
  qed
qed

lemma fold_dpop_managed:
  "managed_users \<notin> set ns \<Longrightarrow> read_managed_state (Some (fold dpop ns t)) = read_managed_state (Some t)"
  by (induction ns arbitrary: t) auto

lemma prune_eval:
  assumes "cfg s = Some t"
  obtains ns where "managed_users \<notin> set ns"
    and "prune_to_managed_state s = (map (RmEntry Cfg) ns, s\<lparr>cfg := Some (fold dpop ns t)\<rparr>, Inr ())"
proof
  let ?m = "\<lambda>n. n = first_config \<or> n = config_toml"
  let ?ns = "filter (\<lambda>n. n \<noteq> managed_users)
     (filter ?m (dkeys t) @ filter (\<lambda>n. \<not> ?m n) (dkeys t))"
  show "managed_users \<notin> set ?ns" by auto
  show "prune_to_managed_state s = (map (RmEntry Cfg) ?ns, s\<lparr>cfg := Some (fold dpop ?ns t)\<rparr>, Inr ())"
    using assms by (simp add: prune_to_managed_state_def Let_def rm_entries_eval [OF assms])
qed

text \<open>The end of a discard: the merged record is stored, then the other roots are dropped.\<close>

definition store_managed :: "string set \<Rightarrow> unit io" where
  "store_managed m = io_then (io_op (Mkdir Cfg)) (write_managed_state Cfg m)"

definition drop_candidates :: "unit io" where
  "drop_candidates = io_then (rm_if_exists Cand) (io_then (rm_if_exists Rb) (io_op (UnlinkMark Promo)))"

lemma store_then_drop_keeps:
  assumes "finite m" and w: "m \<subseteq> read_managed_state (cfg w) \<union> read_managed_state (cand w)"
    and cr: "crash (ops_of (io_then (store_managed m) drop_candidates) w) w v"
  shows "m \<subseteq> read_managed_state (cfg v) \<union> read_managed_state (cand v)"
proof -
  have tail: "read_managed_state (cfg v) = read_managed_state (cfg u)"
    if "crash (ops_of drop_candidates u) u v" for u
    using that by (cases "cand u"; cases "rb u") (auto simp: drop_candidates_def io_simps crash_Cons)
  have "crash (ops_of (store_managed m) w) w v
      \<or> crash (ops_of drop_candidates (final (store_managed m) w)) (final (store_managed m) w) v"
    using cr crash_then [of "store_managed m" drop_candidates w v] by (auto simp: store_managed_def write_managed_state_def)
  moreover have "read_managed_state (cfg (final (store_managed m) w)) = m"
    using assms(1) by (cases "cfg w") (auto simp: store_managed_def io_simps write_managed_state_def)
  moreover have "m \<subseteq> read_managed_state (cfg v) \<union> read_managed_state (cand v)"
    if "crash (ops_of (store_managed m) w) w v"
    using that w assms(1) by (cases "cfg w") (auto simp: store_managed_def io_simps write_managed_state_def crash_Cons)
  ultimately show ?thesis using tail by blast
qed

text \<open>
  C4: what the comment of \<^verbatim>\<open>discard_initial_config\<close> promises. At every point where discarding a
  failed initial configuration can be interrupted, each managed user recorded before in the active
  root or in the candidate is still recorded in one of the two, so that recovery can repeat it.
\<close>

theorem discard_keeps_managed_record:
  assumes "crash (ops_of discard_initial_config s) s u"
  shows "read_managed_state (cfg s) \<union> read_managed_state (cand s)
    \<subseteq> read_managed_state (cfg u) \<union> read_managed_state (cand u)"
proof -
  define m where "m = read_managed_state (cfg s) \<union> read_managed_state (cand s)"
  let ?rest = "io_then (store_managed m) drop_candidates"
  have body: "m \<subseteq> read_managed_state (cfg v) \<union> read_managed_state (cand v)"
    if "m \<subseteq> read_managed_state (cfg w) \<union> read_managed_state (cand w)" "crash (ops_of ?rest w) w v" for v w
    using store_then_drop_keeps [OF _ that] by (simp add: m_def)
  have unfold: "discard_initial_config s =
      io_then (io_when (cfg s \<noteq> None) (if m \<noteq> {} then prune_to_managed_state else io_op (RmTree Cfg)))
        (io_then (io_when (m \<noteq> {}) (store_managed m)) drop_candidates) s"
    unfolding discard_initial_config_def Let_def m_def store_managed_def drop_candidates_def ..
  show ?thesis
  proof (cases "m = {}")
    case False
    show ?thesis
    proof (cases "cfg s")
      case None
      have "ops_of discard_initial_config s = ops_of ?rest s"
        using None False by (intro ops_of_cong) (simp add: unfold io_when_def)
      then show ?thesis using assms body [of s u] by (simp add: m_def)
    next
      case (Some t)
      obtain ns where ns: "managed_users \<notin> set ns"
        and prune: "prune_to_managed_state s = (map (RmEntry Cfg) ns, s\<lparr>cfg := Some (fold dpop ns t)\<rparr>, Inr ())"
        using prune_eval [OF Some] .
      let ?w = "s\<lparr>cfg := Some (fold dpop ns t)\<rparr>"
      have "ops_of discard_initial_config s = map (RmEntry Cfg) ns @ ops_of ?rest ?w"
        using Some False ops_of_then [of prune_to_managed_state s, OF prune]
        by (subst ops_of_cong [of _ s "io_then prune_to_managed_state ?rest"]) (simp_all add: unfold io_when_def)
      then have "crash (map (RmEntry Cfg) ns) s u \<or> crash (ops_of ?rest ?w) ?w u"
        using assms rm_entries_run [OF Some] by (auto simp: crash_append)
      then show ?thesis
        using rm_entries_crash [OF _ Some ns, of u] body [of ?w u] fold_dpop_managed [OF ns] Some by (auto simp: m_def)
    qed
  qed (simp add: m_def)
qed

theorem discard_keeps_managed_record_witness:
  "crash (ops_of discard_initial_config sample_state) sample_state
      (sample_state\<lparr>cfg := Some (dpop config_toml (sample_root ''old'' ''alice''))\<rparr>) \<and>
   {''alice'', ''bob''} \<subseteq>
      read_managed_state (Some (dpop config_toml (sample_root ''old'' ''alice''))) \<union>
      read_managed_state (Some (sample_root ''new'' ''bob''))"
proof -
  let ?u = "sample_state\<lparr>cfg := Some (dpop config_toml (sample_root ''old'' ''alice''))\<rparr>"
  have managed: "read_managed_state (Some (sample_root b x)) = {x}" for b x
    by (simp add: read_managed_state_def sample_root_def)
  have crash: "crash (ops_of discard_initial_config sample_state) sample_state ?u"
    by (simp add: discard_initial_config_def prune_to_managed_state_def Let_def managed ops_of_def
        sample_state_def)
      (simp add: sample_root_def prune_to_managed_state_def io_simps write_managed_state_def crash_Cons)
  then show ?thesis
    using discard_keeps_managed_record [OF crash] by (simp add: sample_state_def managed)
qed

subsection \<open>Completing a re-apply\<close>

text \<open>The record an activation leaves in a root.\<close>

lemma run_activation_eval:
  assumes "cfg s = Some t" "act (Some t) = (failures, upd)"
  shows "run_activation act s =
    (case upd of None \<Rightarrow> ([], s, Inr failures)
     | Some names \<Rightarrow> ([PutAtomic Cfg managed_users (managed_record names)],
         s\<lparr>cfg := Some (dset managed_users (managed_record names) t)\<rparr>, Inr failures))"
  using assms by (simp add: run_activation_def io_simps write_managed_state_def split: option.split)

lemma run_activation_recorded:
  assumes "cfg s = Some t"
  shows "run_activation act s = (ops_of (run_activation act) s, s\<lparr>cfg := recorded act (Some t)\<rparr>,
    Inr (fst (act (Some t))))"
  using assms
  by (cases "act (Some t)") (simp add: run_activation_eval ops_of_def recorded_def split: option.split)

lemma entry_recorded [simp]: "n \<noteq> managed_users \<Longrightarrow> entry (recorded act t) n = entry t n"
  by (cases t) (auto simp: recorded_def split: option.split)

lemma recorded_Some: "\<exists>u. recorded act (Some t) = Some u"
  by (auto simp: recorded_def split: option.split)

named_theorems io_run "results and final states of programs"

lemma io_run_bind [io_run]:
  "outcome m s = Inr x \<Longrightarrow> final (io_bind m f) s = final (f x) (final m s)"
  "outcome m s = Inr x \<Longrightarrow> outcome (io_bind m f) s = outcome (f x) (final m s)"
  by (auto simp: io_bind_def final_def outcome_def split: prod.split)

lemma io_run_then [io_run]:
  "outcome m s = Inr x \<Longrightarrow> final (io_then m k) s = final k (final m s)"
  "outcome m s = Inr x \<Longrightarrow> outcome (io_then m k) s = outcome k (final m s)"
  by (simp_all add: io_then_def io_run_bind)

lemma io_run_ret [io_run]: "final (io_ret x) s = s" "outcome (io_ret x) s = Inr x"
  by (simp_all add: io_ret_def final_def outcome_def)

lemma io_run_op [io_run]:
  "exec op s = Inr s1 \<Longrightarrow> final (io_op op) s = s1" "exec op s = Inr s1 \<Longrightarrow> outcome (io_op op) s = Inr ()"
  by (simp_all add: io_op_def final_def outcome_def)

lemma io_run_activation [io_run]:
  assumes "cfg s = Some t"
  shows "final (run_activation act) s = s\<lparr>cfg := recorded act (Some t)\<rparr>"
    and "outcome (run_activation act) s = Inr (fst (act (Some t)))"
  using assms
  by (cases "act (Some t)"; simp add: run_activation_eval recorded_def final_def outcome_def split: option.split)+

lemma io_run_rollback_activation [io_run]:
  assumes "cfg s = Some t"
  shows "final (run_rollback_activation act) s = s\<lparr>cfg := recorded act (Some t), rbact := False\<rparr>"
    and "outcome (run_rollback_activation act) s = Inr (fst (act (Some t)))"
  using assms by (simp_all add: run_rollback_activation_def io_run)

lemma io_run_restore [io_run]:
  assumes "rb s = Some old" and "cfg s = Some new"
  shows "final restore_rollback s = s\<lparr>rb := None, promo := False, cfg := Some (merged old new)\<rparr>"
    and "outcome restore_rollback s = Inr True"
  using assms by (simp_all add: final_def outcome_def restore_rollback_eval merged_def)

lemma io_run_mark [io_run]:
  assumes "rb s = Some old"
  shows "final mark_rollback_activation s = s\<lparr>rbact := True\<rparr>"
    and "outcome mark_rollback_activation s = Inr ()"
  using assms
  by (simp_all add: mark_rollback_activation_def begin_rollback_activation_def io_when_def io_op_def
      final_def outcome_def)

lemma merged_keeps: "keeps old (Some (merged old new))"
  and read_merged: "read_managed_state (Some (merged old new)) =
    read_managed_state (Some old) \<union> read_managed_state (Some new)"
  by (auto simp: merged_def Let_def intro: keeps_record)

text \<open>
  C3: a failed activation brings the previous configuration back. When activation of the promoted
  root reports a failure, \<^verbatim>\<open>complete_reapply\<close> restores every file of the rollback root, hands its
  reactivation a managed-user record with the names of both roots, removes the rollback root and
  both markers, and reports \<^verbatim>\<open>completed\<close> exactly when the reactivation has no failure.
\<close>

theorem complete_reapply_restores:
  assumes "cfg s = Some new" and "rb s = Some old" and "fst (act (Some new)) \<noteq> []"
  shows "\<exists>restored failures status.
    outcome (complete_reapply act before_commit) s = Inr (False, failures, status) \<and>
    (status = ''completed'' \<longleftrightarrow> fst (act (Some restored)) = []) \<and>
    (status = ''failed'' \<longleftrightarrow> fst (act (Some restored)) \<noteq> []) \<and>
    keeps old (Some restored) \<and>
    read_managed_state (Some restored) =
      read_managed_state (Some old) \<union> read_managed_state (recorded act (Some new)) \<and>
    final (complete_reapply act before_commit) s =
      s\<lparr>cfg := recorded act (Some restored), rb := None, promo := False, rbact := False\<rparr>"
proof -
  obtain t1 where t1: "recorded act (Some new) = Some t1" using recorded_Some by blast
  let ?t = "merged old t1"
  have run: "final (complete_reapply act before_commit) s =
      s\<lparr>cfg := recorded act (Some ?t), rb := None, promo := False, rbact := False\<rparr>"
    "\<exists>failures. outcome (complete_reapply act before_commit) s =
      Inr (False, failures, if fst (act (Some ?t)) = [] then ''completed'' else ''failed'')"
    using assms by (simp_all add: complete_reapply_def io_run t1)
  then obtain failures where "outcome (complete_reapply act before_commit) s =
      Inr (False, failures, if fst (act (Some ?t)) = [] then ''completed'' else ''failed'')"
    by blast
  then show ?thesis
    using run(1) merged_keeps [of old t1] read_merged [of old t1] t1
    by (intro exI [of _ ?t] exI [of _ failures]
        exI [of _ "if fst (act (Some ?t)) = [] then ''completed'' else ''failed''"]) auto
qed

text \<open>An activation that fails on the new root of the sample and succeeds on the old one.\<close>

theorem complete_reapply_restores_witness:
  "\<exists>restored failures status.
    outcome (complete_reapply sample_activation (io_ret ())) (final atomic_promote sample_state)
      = Inr (False, failures, status) \<and>
    status = ''completed'' \<and> keeps (sample_root ''old'' ''alice'') (Some restored)"
proof -
  let ?s = "final atomic_promote sample_state"
  have s: "cfg ?s = Some (sample_root ''new'' ''bob'')" "rb ?s = Some (sample_root ''old'' ''alice'')"
    by (simp_all add: promotion_defs io_simps sample_state_def)
  have act: "fst (sample_activation (Some (sample_root ''new'' ''bob''))) \<noteq> []"
    by (simp add: sample_activation_def sample_root_def)
  have ok: "keeps (sample_root ''old'' ''alice'') (Some r) \<Longrightarrow> fst (sample_activation (Some r)) = []" for r
    by (auto simp: sample_activation_def sample_root_def keeps_def)
  show ?thesis
    using complete_reapply_restores [of ?s _ _ sample_activation "io_ret ()", OF s act] ok by metis
qed

subsection \<open>Interruptions that recovery does not repair\<close>

text \<open>
  \<^verbatim>\<open>cleanup_rollback\<close> removes the rollback tree before the marker. Interrupted inside that removal, a
  root without a committed receipt (the direct path) is replaced by what is left of the rollback
  tree: here a root without \<^verbatim>\<open>config.toml\<close>.
\<close>

theorem cleanup_interrupted_restores_remnant:
  "\<exists>u. crash (ops_of cleanup_rollback (final atomic_promote sample_state)) (final atomic_promote sample_state) u \<and>
    entry (cfg u) config_toml \<noteq> None \<and>
    outcome recover_config_root u = Inr () \<and>
    entry (cfg (final recover_config_root u)) config_toml = None"
proof -
  let ?s = "final atomic_promote sample_state"
  let ?u = "?s\<lparr>rb := Some [(managed_users, FReg 384 (Json (VList [VStr ''alice''])))]\<rparr>"
  have "remnant (sample_root ''old'' ''alice'') [(managed_users, FReg 384 (Json (VList [VStr ''alice''])))]"
    unfolding sample_root_def by (rule remnant.intros)+
  then have "crash (ops_of cleanup_rollback ?s) ?s ?u"
    by (simp add: promotion_defs io_simps sample_state_def crash_Cons)
  moreover have "entry (cfg ?u) config_toml \<noteq> None"
    by (simp add: promotion_defs io_simps sample_state_def sample_root_def)
  moreover have "outcome recover_config_root ?u = Inr () \<and>
      entry (cfg (final recover_config_root ?u)) config_toml = None"
    by (simp add: recover_config_root_def promotion_defs io_simps sample_state_def Let_def
        read_managed_state_def)
  ultimately show ?thesis by blast
qed

text \<open>
  \<^verbatim>\<open>discard_initial_config\<close> removes the provisioning markers first only when there is a managed-user
  record to keep; without one it calls \<^verbatim>\<open>rmtree\<close>. Interrupted there, a root may keep
  \<^verbatim>\<open>config.toml\<close> after its other files are gone, and recovery then takes it for a complete one.
\<close>

theorem discard_interrupted_looks_provisioned:
  "\<exists>u. crash (ops_of discard_initial_config failed_initial) failed_initial u \<and>
    outcome recover_config_root u = Inr () \<and>
    is_provisioned_config_root (cfg (final recover_config_root u)) \<and>
    entry (cfg (final recover_config_root u)) ''lan-settings.json'' = None"
proof -
  let ?u = "failed_initial\<lparr>cfg := Some [(config_toml, FReg 384 (Raw ''new''))]\<rparr>"
  have "remnant [(''lan-settings.json'', FReg 416 (Raw ''{}'')), (config_toml, FReg 384 (Raw ''new''))]
      [(config_toml, FReg 384 (Raw ''new''))]"
    by (rule remnant.intros)+
  then have "crash (ops_of discard_initial_config failed_initial) failed_initial ?u"
    by (simp add: discard_initial_config_def failed_initial_def io_simps read_managed_state_def
        managed_users_def config_toml_def crash_Cons)
  moreover have "outcome recover_config_root ?u = Inr () \<and>
      is_provisioned_config_root (cfg (final recover_config_root ?u)) \<and>
      entry (cfg (final recover_config_root ?u)) ''lan-settings.json'' = None"
    by (simp add: recover_config_root_def failed_initial_def io_simps is_provisioned_config_root_def
        is_regular_def config_toml_def first_config_def)
  ultimately show ?thesis by blast
qed

text \<open>
  \<^verbatim>\<open>restore_rollback\<close> holds the failed root's managed-user record only in memory while it removes that
  root. Interrupted there, the accounts the failed apply created are in no record after recovery.
\<close>

theorem restore_interrupted_drops_record:
  "\<exists>u. crash (ops_of restore_rollback (final atomic_promote sample_state)) (final atomic_promote sample_state) u \<and>
    ''bob'' \<in> read_managed_state (cfg (final atomic_promote sample_state)) \<and>
    outcome recover_config_root u = Inr () \<and>
    ''bob'' \<notin> read_managed_state (cfg (final recover_config_root u))"
proof -
  let ?s = "final atomic_promote sample_state"
  let ?u = "?s\<lparr>cfg := Some []\<rparr>"
  have "remnant (sample_root ''new'' ''bob'') []"
    unfolding sample_root_def by (rule remnant.intros)+
  then have "crash (ops_of restore_rollback ?s) ?s ?u"
    by (simp add: promotion_defs io_simps sample_state_def Let_def crash_Cons)
  moreover have "''bob'' \<in> read_managed_state (cfg ?s)"
    by (simp add: promotion_defs io_simps sample_state_def sample_root_def read_managed_state_def)
  moreover have "outcome recover_config_root ?u = Inr () \<and>
      ''bob'' \<notin> read_managed_state (cfg (final recover_config_root ?u))"
    by (simp add: recover_config_root_def promotion_defs io_simps sample_state_def Let_def
        sample_root_def read_managed_state_def managed_record_def)
  ultimately show ?thesis by blast
qed

end
