(* ===== verification/Auth.thy ===== *)
theory Auth
  imports Config_Root
begin

text \<open>
  Nonces and SSH-signature authentication, from \<^verbatim>\<open>auth.py\<close>, and the consumed-nonce directory of
  \<^verbatim>\<open>staging.py\<close>.

  Clock readings, random tokens and the boot id are arguments. Base64 decoding, SHA-256 and
  \<^verbatim>\<open>ssh-keygen -Y verify\<close> are the parameters \<open>b64\<close>, \<open>sha\<close> and \<open>verify\<close>.
\<close>

section \<open>Definitions\<close>

subsection \<open>The nonce store\<close>

type_synonym nonces = "(real \<times> string) dict"

record nonce_store =
  ttl :: real
  max_outstanding :: int
  per_client_max :: int
  nonces :: nonces

definition nonce_store_init :: "real \<Rightarrow> int \<Rightarrow> int \<Rightarrow> nonce_store" where
  "nonce_store_init t m pc = \<lparr>ttl = t, max_outstanding = max 1 m, per_client_max = pc, nonces = []\<rparr>"

definition prune :: "real \<Rightarrow> nonce_store \<Rightarrow> nonce_store" where
  "prune now st = st\<lparr>nonces := filter (\<lambda>(n, (t, c)). \<not> now - t \<ge> ttl st) (nonces st)\<rparr>"

definition per_client_limit :: "nonce_store \<Rightarrow> int" where
  "per_client_limit st = max 1 (min (per_client_max st) (max_outstanding st))"

definition client_nonces :: "string \<Rightarrow> nonces \<Rightarrow> (string \<times> real) list" where
  "client_nonces client ns = map (\<lambda>(n, (t, c)). (n, t)) (filter (\<lambda>(n, (t, c)). c = client) ns)"

fun evict_client_loop :: "int \<Rightarrow> (string \<times> real) list \<Rightarrow> nonces \<Rightarrow> nonces" where
  "evict_client_loop limit [] ns = ns"
| "evict_client_loop limit ((n, t) # cs) ns =
     (if int (length ((n, t) # cs)) \<ge> limit then evict_client_loop limit cs (dpop n ns) else ns)"

definition evict_client_over_limit :: "string \<Rightarrow> nonce_store \<Rightarrow> nonce_store" where
  "evict_client_over_limit client st = st\<lparr>nonces :=
     evict_client_loop (per_client_limit st) (sort_key snd (client_nonces client (nonces st))) (nonces st)\<rparr>"

text \<open>\<^verbatim>\<open>min(d, key=...)\<close>: the first key with the least issue time.\<close>

fun oldest :: "string \<times> real \<Rightarrow> nonces \<Rightarrow> string" where
  "oldest (n, t) [] = n"
| "oldest (n, t) ((m, (u, c)) # ns) = (if u < t then oldest (m, u) ns else oldest (n, t) ns)"

fun oldest_nonce :: "nonces \<Rightarrow> string" where
  "oldest_nonce [] = []"
| "oldest_nonce ((n, (t, c)) # ns) = oldest (n, t) ns"

lemma oldest_in: "oldest (n, t) ns = n \<or> oldest (n, t) ns \<in> fst ` set ns"
  by (induction "(n, t)" ns arbitrary: n t rule: oldest.induct) (auto split: if_splits)

lemma oldest_nonce_in: "ns \<noteq> [] \<Longrightarrow> oldest_nonce ns \<in> fst ` set ns"
  using oldest_in by (cases ns rule: oldest_nonce.cases) auto

lemma length_dpop_less: "k \<in> fst ` set d \<Longrightarrow> length (dpop k d) < length d"
  by (auto simp: AList.delete_eq intro!: length_filter_less)

function evict_loop :: "int \<Rightarrow> nonces \<Rightarrow> nonces" where
  "evict_loop limit ns =
     (if int (length ns) \<ge> limit \<and> ns \<noteq> [] then evict_loop limit (dpop (oldest_nonce ns) ns) else ns)"
  by pat_completeness auto
termination
  by (relation "measure (\<lambda>(l, ns). length ns)") (auto intro: length_dpop_less oldest_nonce_in)

declare evict_loop.simps [simp del]

definition evict_over_limit :: "nonce_store \<Rightarrow> nonce_store" where
  "evict_over_limit st = st\<lparr>nonces := evict_loop (max_outstanding st) (nonces st)\<rparr>"

text \<open>\<open>now\<close> is the clock at pruning and \<open>later\<close> the reading stored with the nonce.\<close>

definition issue :: "real \<Rightarrow> real \<Rightarrow> string \<Rightarrow> string \<Rightarrow> string \<Rightarrow> nonce_store \<Rightarrow> string \<times> nonce_store" where
  "issue now later boot token client st =
     (let st1 = evict_over_limit (evict_client_over_limit client (prune now st));
          nonce = boot @ '':'' @ token
      in (nonce, st1\<lparr>nonces := dset nonce (later, client) (nonces st1)\<rparr>))"

definition consume :: "real \<Rightarrow> real \<Rightarrow> string \<Rightarrow> nonce_store \<Rightarrow> bool \<times> nonce_store" where
  "consume now later nonce st =
     (let st1 = prune now st in
      case dget (nonces st1) nonce of
        None \<Rightarrow> (False, st1)
      | Some (issued_at, client) \<Rightarrow>
          (later - issued_at < ttl st1, st1\<lparr>nonces := dpop nonce (nonces st1)\<rparr>))"

subsection \<open>Nonces of the current boot and their consumption on disk\<close>

definition nonce_matches_boot :: "string \<Rightarrow> string \<Rightarrow> bool" where
  "nonce_matches_boot boot nonce = (case partition_on (CHR '':'') nonce of
     (boot_id, Some token) \<Rightarrow> token \<noteq> [] \<and> boot_id = boot
   | (boot_id, None) \<Rightarrow> False)"

text \<open>The marker files of \<^verbatim>\<open>used-nonces\<close>, by name.\<close>

definition consume_authorization_nonce ::
  "(string \<Rightarrow> string) \<Rightarrow> string \<Rightarrow> string \<Rightarrow> string list \<Rightarrow> string list res" where
  "consume_authorization_nonce sha boot nonce used =
     (if \<not> nonce_matches_boot boot nonce
      then Inl (ProvisionError ''staged authorization nonce is not valid for this boot'')
      else if sha nonce \<in> set used
      then Inl (ProvisionError ''staged authorization nonce was already consumed'')
      else Inr (sha nonce # used))"

subsection \<open>The signed message and the guards\<close>

definition upper_char :: "char \<Rightarrow> char" where
  "upper_char c = (if is_ascii_lower c then char_of (cp c - 32) else c)"

abbreviation nl :: char where "nl \<equiv> CHR 0x0A"

definition reapply_signature_message ::
  "(string \<Rightarrow> string) \<Rightarrow> string \<Rightarrow> string \<Rightarrow> string \<Rightarrow> string \<Rightarrow> string" where
  "reapply_signature_message sha nonce method path payload =
     ''atomixos-reapply-v2'' @ [nl] @
     ''nonce:'' @ nonce @ [nl] @
     ''method:'' @ map upper_char method @ [nl] @
     ''path:'' @ path @ [nl] @
     ''sha256:'' @ sha payload @ [nl]"

record request =
  req_nonce :: string
  req_signature :: string
  req_method :: string
  req_path :: string
  req_body :: string

text \<open>
  \<open>signers\<close> is the allowed-signers file \<^verbatim>\<open>build_allowed_signers\<close> wrote. The result is the
  authorization evidence put in the request scope; the store is returned also on failure.
\<close>

definition verify_ssh_auth ::
  "(string \<Rightarrow> string) \<Rightarrow> (string \<Rightarrow> string option) \<Rightarrow> (string \<Rightarrow> string \<Rightarrow> string list \<Rightarrow> bool) \<Rightarrow>
   real \<Rightarrow> real \<Rightarrow> request \<Rightarrow> string list \<Rightarrow> nonce_store \<Rightarrow> (string dict) res \<times> nonce_store" where
  "verify_ssh_auth sha b64 verify now later req signers st =
     (if req_nonce req = [] \<or> req_signature req = []
      then (Inl (PyExc ''NotAuthorized: authentication required''), st)
      else case consume now later (req_nonce req) st of (ok, st1) \<Rightarrow>
        if \<not> ok then (Inl (PyExc ''NotAuthorized: invalid or expired nonce''), st1)
        else
          (let method = map upper_char (req_method req);
               message = reapply_signature_message sha (req_nonce req) method (req_path req) (req_body req)
           in case b64 (req_signature req) of
                None \<Rightarrow> (Inl (PyExc ''NotAuthorized: invalid signature encoding''), st1)
              | Some blob \<Rightarrow>
                  if verify message blob signers
                  then (Inr [(''nonce'', req_nonce req), (''signature'', req_signature req),
                             (''method'', method), (''path'', req_path req)], st1)
                  else (Inl (PyExc ''NotAuthorized: signature verification failed''), st1)))"

text \<open>\<open>admin_signers\<close> is the text of the file \<^verbatim>\<open>admin-signers\<close>, if it exists.\<close>

definition build_allowed_signers :: "string option \<Rightarrow> string list option" where
  "build_allowed_signers admin_signers = (case admin_signers of
     None \<Rightarrow> None
   | Some text \<Rightarrow>
       (let keys = filter (\<lambda>l. l \<noteq> []) (map strip (splitlines text)) in
        if keys = [] then None else Some (map (\<lambda>k. ''atomixos-reapply '' @ k) keys)))"

datatype guard = Bypassed | Authenticated "string dict" | Rejected error

definition ssh_auth_guard ::
  "(string \<Rightarrow> string) \<Rightarrow> (string \<Rightarrow> string option) \<Rightarrow> (string \<Rightarrow> string \<Rightarrow> string list \<Rightarrow> bool) \<Rightarrow>
   tree option \<Rightarrow> string option \<Rightarrow> real \<Rightarrow> real \<Rightarrow> request \<Rightarrow> bool \<Rightarrow> nonce_store \<Rightarrow> guard \<times> bool \<times> nonce_store" where
  "ssh_auth_guard sha b64 verify config_root admin_signers now later req initialized st =
     (if \<not> is_provisioned_config_root config_root then (Bypassed, initialized, st)
      else case build_allowed_signers admin_signers of
        None \<Rightarrow>
          (if initialized \<or> is_provisioned_config_root config_root
           then (Rejected (PyExc ''NotAuthorized: admin signers temporarily unavailable''), initialized, st)
           else (Bypassed, initialized, st))
      | Some signers \<Rightarrow>
          (case verify_ssh_auth sha b64 verify now later req signers st of
             (Inl e, st1) \<Rightarrow> (Rejected e, True, st1)
           | (Inr ev, st1) \<Rightarrow> (Authenticated ev, True, st1)))"

definition ssh_auth_required_guard ::
  "(string \<Rightarrow> string) \<Rightarrow> (string \<Rightarrow> string option) \<Rightarrow> (string \<Rightarrow> string \<Rightarrow> string list \<Rightarrow> bool) \<Rightarrow>
   string option \<Rightarrow> real \<Rightarrow> real \<Rightarrow> request \<Rightarrow> nonce_store \<Rightarrow> guard \<times> nonce_store" where
  "ssh_auth_required_guard sha b64 verify admin_signers now later req st =
     (case build_allowed_signers admin_signers of
        None \<Rightarrow> (Rejected (PyExc ''NotAuthorized: authentication required''), st)
      | Some signers \<Rightarrow>
          (case verify_ssh_auth sha b64 verify now later req signers st of
             (Inl e, st1) \<Rightarrow> (Rejected e, st1)
           | (Inr ev, st1) \<Rightarrow> (Authenticated ev, st1)))"

subsection \<open>Runs of a token store\<close>

text \<open>A run interleaves additions and uses of tokens; \<open>'x\<close> is the context of each call.\<close>

datatype ('n, 'x) token_event = Add 'x 'n | Use 'x 'n

fun accepted ::
  "('x \<Rightarrow> 'n \<Rightarrow> 's \<Rightarrow> 's) \<Rightarrow> ('x \<Rightarrow> 'n \<Rightarrow> 's \<Rightarrow> bool \<times> 's) \<Rightarrow> ('n, 'x) token_event list \<Rightarrow> 's \<Rightarrow> 'n list" where
  "accepted add use [] s = []"
| "accepted add use (Add x n # evs) s = accepted add use evs (add x n s)"
| "accepted add use (Use x n # evs) s = (case use x n s of (ok, s1) \<Rightarrow>
     (if ok then [n] else []) @ accepted add use evs s1)"

fun added :: "('n, 'x) token_event list \<Rightarrow> 'n list" where
  "added [] = []"
| "added (Add x n # evs) = n # added evs"
| "added (Use x n # evs) = added evs"

text \<open>The store of \<^verbatim>\<open>auth.py\<close> as such a store: the context has the clock readings and the client.\<close>

definition add_nonce :: "real \<times> real \<times> string \<Rightarrow> string \<Rightarrow> nonce_store \<Rightarrow> nonce_store" where
  "add_nonce x n st = (case x of (now, later, client) \<Rightarrow>
     (let st1 = evict_over_limit (evict_client_over_limit client (prune now st))
      in st1\<lparr>nonces := dset n (later, client) (nonces st1)\<rparr>))"

definition use_nonce :: "real \<times> real \<times> string \<Rightarrow> string \<Rightarrow> nonce_store \<Rightarrow> bool \<times> nonce_store" where
  "use_nonce x n st = (case x of (now, later, client) \<Rightarrow> consume now later n st)"

text \<open>The consumed-nonce directory: nothing is added, a use succeeds when the worker accepts it.\<close>

definition use_marker ::
  "(string \<Rightarrow> string) \<Rightarrow> string \<Rightarrow> string \<Rightarrow> string list \<Rightarrow> bool \<times> string list" where
  "use_marker sha boot n used = (case consume_authorization_nonce sha boot n used of
     Inl e \<Rightarrow> (False, used) | Inr used1 \<Rightarrow> (True, used1))"

subsection \<open>The bounds of the store\<close>

definition client_count :: "string \<Rightarrow> nonces \<Rightarrow> nat" where
  "client_count client ns = length (filter (\<lambda>(n, (t, c)). c = client) ns)"

definition nonce_ok :: "nonce_store \<Rightarrow> bool" where
  "nonce_ok st = (1 \<le> max_outstanding st \<and> distinct (dkeys (nonces st)) \<and>
     int (length (nonces st)) \<le> max_outstanding st \<and>
     (\<forall>client. int (client_count client (nonces st)) \<le> per_client_limit st))"

inductive nonce_reachable :: "real \<Rightarrow> int \<Rightarrow> int \<Rightarrow> nonce_store \<Rightarrow> bool" for t m pc where
  nonce_start: "nonce_reachable t m pc (nonce_store_init t m pc)"
| nonce_issue: "nonce_reachable t m pc st \<Longrightarrow>
    nonce_reachable t m pc (snd (issue now later boot token client st))"
| nonce_consume: "nonce_reachable t m pc st \<Longrightarrow> nonce_reachable t m pc (snd (consume now later n st))"

section \<open>Theorems\<close>

subsection \<open>Bounds\<close>

lemma per_client_limit_update [simp]: "per_client_limit (st\<lparr>nonces := ns\<rparr>) = per_client_limit st"
  by (simp add: per_client_limit_def)

lemma prune_fields [simp]:
  "ttl (prune now st) = ttl st" "max_outstanding (prune now st) = max_outstanding st"
  "per_client_limit (prune now st) = per_client_limit st" "per_client_max (prune now st) = per_client_max st"
  by (simp_all add: prune_def)

lemma client_count_filter: "client_count client (filter p ns) \<le> client_count client ns"
  by (induction ns) (auto simp: client_count_def)

lemma client_count_dpop: "client_count client (dpop n ns) \<le> client_count client ns"
  unfolding AList.delete_eq by (rule client_count_filter)

lemma length_dpop_le: "length (dpop n ns) \<le> length ns"
  by (rule AList.length_delete_le)

lemma evict_client_sub:
  "distinct (dkeys ns) \<Longrightarrow> distinct (dkeys (evict_client_loop l cs ns)) \<and>
     length (evict_client_loop l cs ns) \<le> length ns \<and>
     client_count client (evict_client_loop l cs ns) \<le> client_count client ns \<and>
     set (evict_client_loop l cs ns) \<subseteq> set ns"
proof (induction l cs ns rule: evict_client_loop.induct)
  case (2 l n t cs ns)
  have le: "length (dpop n ns) \<le> length ns" "client_count client (dpop n ns) \<le> client_count client ns"
    "set (dpop n ns) \<subseteq> set ns" "distinct (dkeys (dpop n ns))"
    using 2(2) length_dpop_le client_count_dpop by (auto simp: AList.delete_eq distinct_map_filter)
  show ?case using 2(1) [OF _ le(4)] le 2(2) by (auto intro: order_trans)
qed simp

lemma client_count_dpop_less:
  assumes "distinct (dkeys ns)" "(n, (t, client)) \<in> set ns"
  shows "Suc (client_count client (dpop n ns)) = client_count client ns"
  using assms
proof (induction ns)
  case (Cons x ns)
  obtain m u c where x: "x = (m, (u, c))" by (cases x) auto
  show ?case
  proof (cases "m = n")
    case True
    then have "dpop n ns = ns" using Cons.prems(1) x by (auto simp: AList.delete_eq filter_id_conv rev_image_eqI)
    moreover have "c = client" using True Cons.prems x by (force dest: image_eqI [where f = fst])
    ultimately show ?thesis using True x by (simp add: client_count_def)
  next
    case False
    then show ?thesis using Cons x by (auto simp: client_count_def)
  qed
qed simp

lemma evict_client_bound:
  assumes "distinct (dkeys ns)" "distinct (map fst cs)" "1 \<le> l" "length cs = client_count client ns"
    and "\<And>n. n \<in> fst ` set cs \<Longrightarrow> \<exists>t. (n, (t, client)) \<in> set ns"
  shows "int (client_count client (evict_client_loop l cs ns)) < l"
  using assms
proof (induction l cs ns rule: evict_client_loop.induct)
  case (2 l n t cs ns)
  show ?case
  proof (cases "int (length ((n, t) # cs)) \<ge> l")
    case True
    obtain u where u: "(n, (u, client)) \<in> set ns" using 2(6) by force
    have len: "length cs = client_count client (dpop n ns)"
      using client_count_dpop_less [OF 2(2) u] 2(5) by simp
    have "\<exists>t. (m, (t, client)) \<in> set (dpop n ns)" if "m \<in> fst ` set cs" for m
      using 2(6) [of m] that 2(3) by (auto simp: AList.delete_eq)
    then show ?thesis
      using True 2(1) [OF True distinct_dpop [OF 2(2)] _ 2(4) len] 2(3) by auto
  qed (use 2 in simp)
qed simp

lemma evict_loop_props:
  "distinct (dkeys ns) \<Longrightarrow> 1 \<le> l \<Longrightarrow>
     distinct (dkeys (evict_loop l ns)) \<and> int (length (evict_loop l ns)) < l \<and>
     client_count client (evict_loop l ns) \<le> client_count client ns \<and> set (evict_loop l ns) \<subseteq> set ns"
proof (induction l ns rule: evict_loop.induct)
  case (1 l ns)
  show ?case
  proof (cases "int (length ns) \<ge> l \<and> ns \<noteq> []")
    case True
    have "set (dpop (oldest_nonce ns) ns) \<subseteq> set ns" by (auto simp: AList.delete_eq)
    then show ?thesis
      using 1(1) [OF True distinct_dpop [OF 1(2)] 1(3)] True client_count_dpop [of client "oldest_nonce ns" ns]
      by (auto simp: evict_loop.simps [of l ns] intro: order_trans)
  next
    case False
    have "evict_loop l ns = ns" by (subst evict_loop.simps) (rule if_not_P [OF False])
    then show ?thesis using 1 False by (cases "ns = []") auto
  qed
qed

text \<open>The store after making room for a nonce of \<open>client\<close>.\<close>

lemma make_room:
  fixes client :: string and now :: real
  assumes "nonce_ok st"
  defines "st1 \<equiv> evict_over_limit (evict_client_over_limit client (prune now st))"
  shows "max_outstanding st1 = max_outstanding st" "per_client_limit st1 = per_client_limit st" "ttl st1 = ttl st"
    "distinct (dkeys (nonces st1))" "int (length (nonces st1)) < max_outstanding st"
    "int (client_count client (nonces st1)) < per_client_limit st"
    "\<And>c. int (client_count c (nonces st1)) \<le> per_client_limit st" "set (nonces st1) \<subseteq> set (nonces st)"
proof -
  let ?p = "nonces (prune now st)"
  let ?cs = "sort_key snd (client_nonces client ?p)"
  let ?l = "per_client_limit st"
  let ?e = "evict_client_loop ?l ?cs ?p"
  have st1: "nonces st1 = evict_loop (max_outstanding st) ?e"
    by (simp add: st1_def evict_over_limit_def evict_client_over_limit_def)
  show "max_outstanding st1 = max_outstanding st" "per_client_limit st1 = per_client_limit st" "ttl st1 = ttl st"
    by (simp_all add: st1_def evict_over_limit_def evict_client_over_limit_def per_client_limit_def)
  have dist: "distinct (dkeys ?p)" and sub: "set ?p \<subseteq> set (nonces st)" and one: "1 \<le> max_outstanding st"
    using assms(1) by (auto simp: nonce_ok_def prune_def distinct_map_filter)
  have cnt: "client_count c ?p \<le> client_count c (nonces st)" for c
    by (simp add: prune_def client_count_filter)
  have "distinct (map fst (client_nonces client ?p))"
    using dist by (simp add: client_nonces_def comp_def case_prod_beta distinct_map_filter)
  then have cs: "distinct (map fst ?cs)" by (simp add: distinct_map)
  have len: "length ?cs = client_count client ?p"
    by (simp add: client_nonces_def client_count_def)
  have bound: "int (client_count client ?e) < ?l"
    by (rule evict_client_bound [OF dist cs _ len]) (force simp: per_client_limit_def client_nonces_def)+
  note e = evict_client_sub [OF dist, where l = ?l and cs = ?cs]
  note f = evict_loop_props [OF conjunct1 [OF e] one]
  show "distinct (dkeys (nonces st1))" "int (length (nonces st1)) < max_outstanding st"
    using f unfolding st1 by blast+
  show "set (nonces st1) \<subseteq> set (nonces st)"
    using f e sub unfolding st1 by (meson order_trans)
  have "client_count client (nonces st1) \<le> client_count client ?e"
    using f [of client] unfolding st1 by blast
  with bound show "int (client_count client (nonces st1)) < per_client_limit st" by linarith
  have "client_count c (nonces st1) \<le> client_count c (nonces st)" for c
    using f [of c] e [of c] cnt [of c] unfolding st1 by linarith
  then show "int (client_count c (nonces st1)) \<le> per_client_limit st" for c
    using assms(1) unfolding nonce_ok_def by (meson of_nat_mono order_trans)
qed

lemma client_count_dset:
  "distinct (dkeys ns) \<Longrightarrow> client_count c (dset n (t, client) ns) \<le> client_count c ns + (if c = client then 1 else 0)"
  by (induction ns) (auto simp: client_count_def split: if_splits)

lemma length_dset_le: "length (dset n v ns) \<le> Suc (length ns)"
  by (induction ns) auto

lemma add_nonce_ok:
  assumes "nonce_ok st"
  shows "nonce_ok (add_nonce x n st)"
proof -
  obtain now later client where x: "x = (now, later, client)" by (cases x)
  let ?st1 = "evict_over_limit (evict_client_over_limit client (prune now st))"
  note room = make_room [OF assms, where client = client and now = now]
  have "int (client_count c (dset n (later, client) (nonces ?st1))) \<le> per_client_limit st" for c
    using client_count_dset [OF room(4), of c n later client] room(6) room(7) [of c] by (auto split: if_splits)
  moreover have "int (length (dset n (later, client) (nonces ?st1))) \<le> max_outstanding st"
    using length_dset_le [of n "(later, client)" "nonces ?st1"] room(5) by linarith
  ultimately show ?thesis
    using room assms by (simp add: x add_nonce_def nonce_ok_def Let_def)
qed

lemma issue_add: "issue now later boot token client st =
    (boot @ '':'' @ token, add_nonce (now, later, client) (boot @ '':'' @ token) st)"
  by (simp add: issue_def add_nonce_def Let_def)

lemma nonce_ok_sub:
  assumes "nonce_ok st" "distinct (dkeys ns)" "length ns \<le> length (nonces st)"
    "\<And>c. client_count c ns \<le> client_count c (nonces st)"
  shows "nonce_ok (st\<lparr>nonces := ns\<rparr>)"
proof -
  have "int (client_count c ns) \<le> per_client_limit st" for c
    using assms(1) assms(4) [of c] unfolding nonce_ok_def by (meson of_nat_mono order_trans)
  then show ?thesis using assms(1-3) by (simp add: nonce_ok_def)
qed

lemma prune_ok: "nonce_ok st \<Longrightarrow> nonce_ok (prune now st)"
  unfolding prune_def
  by (rule nonce_ok_sub) (auto simp: nonce_ok_def distinct_map_filter client_count_filter)

lemma dpop_ok: "nonce_ok st \<Longrightarrow> nonce_ok (st\<lparr>nonces := dpop n (nonces st)\<rparr>)"
  by (rule nonce_ok_sub) (auto simp: nonce_ok_def client_count_dpop length_dpop_le intro: distinct_dpop)

lemma consume_ok: "nonce_ok st \<Longrightarrow> nonce_ok (snd (consume now later n st))"
  using prune_ok [of st now] dpop_ok [of "prune now st" n] by (simp add: consume_def Let_def split: option.split)

text \<open>
  C25: the nonce store stays within its limits. In every state reachable from an empty store by
  issuing and consuming nonces, whatever the clock, at most \<^verbatim>\<open>max_outstanding\<close> nonces are
  outstanding, and at most the per-client limit for each client.
\<close>

theorem nonce_store_bounded:
  assumes "nonce_reachable t m pc st"
  shows "int (length (nonces st)) \<le> max 1 m \<and>
    (\<forall>client. int (client_count client (nonces st)) \<le> max 1 (min pc (max 1 m)))"
proof -
  have "nonce_ok st \<and> max_outstanding st = max 1 m \<and> per_client_max st = pc"
    using assms
  proof (induction rule: nonce_reachable.induct)
    case nonce_start
    then show ?case by (auto simp: nonce_ok_def nonce_store_init_def client_count_def per_client_limit_def)
  next
    case (nonce_issue st now later boot token client)
    then show ?case using add_nonce_ok
      by (simp add: issue_add) (simp add: add_nonce_def Let_def evict_over_limit_def evict_client_over_limit_def)
  next
    case (nonce_consume st now later n)
    then show ?case using consume_ok by (auto simp: consume_def Let_def split: option.split)
  qed
  then show ?thesis unfolding nonce_ok_def per_client_limit_def by metis
qed

theorem nonce_store_bounded_witness:
  "int (length (nonces (snd (issue 0 0 ''b'' ''t2'' ''c'' (snd (issue 0 0 ''b'' ''t1'' ''c''
      (nonce_store_init 300 1 16))))))) \<le> 1"
  using nonce_store_bounded
    [OF nonce_issue [OF nonce_issue [OF nonce_start [of 300 1 16], of 0 0 "''b''" "''t1''" "''c''"],
        of 0 0 "''b''" "''t2''" "''c''"]]
  by simp

subsection \<open>Single use\<close>

text \<open>
  What a client relies on: a use succeeds only on a token the store holds, and the store does not hold
  it afterwards; no call makes the store hold a token other than the one it adds.
\<close>

locale single_use =
  fixes add :: "'x \<Rightarrow> 'n \<Rightarrow> 's \<Rightarrow> 's"
    and use :: "'x \<Rightarrow> 'n \<Rightarrow> 's \<Rightarrow> bool \<times> 's"
    and holds :: "'s \<Rightarrow> 'n \<Rightarrow> bool"
  assumes add_holds: "holds (add x n s) m \<Longrightarrow> m = n \<or> holds s m"
    and use_held: "fst (use x n s) \<Longrightarrow> holds s n"
    and use_spends: "fst (use x n s) \<Longrightarrow> \<not> holds (snd (use x n s)) n"
    and use_keeps: "holds (snd (use x n s)) m \<Longrightarrow> holds s m"
begin

lemma accepted_at_most_added:
  "count_list (accepted add use evs s) n \<le> count_list (added evs) n + (if holds s n then 1 else 0)"
proof (induction evs arbitrary: s)
  case (Cons ev evs)
  show ?case
  proof (cases ev)
    case (Add x m)
    then show ?thesis
      using Cons.IH [of "add x m s"] add_holds [of x m s n] by (auto split: if_splits)
  next
    case (Use x m)
    obtain ok s1 where use: "use x m s = (ok, s1)" by fastforce
    show ?thesis
      using Cons.IH [of s1] use_held [of x m s] use_spends [of x m s] use_keeps [of x m s n]
      by (auto simp: Use use split: if_splits)
  qed
qed simp

end

lemma dpop_set: "set (dpop n ns) \<subseteq> set ns"
  by (auto simp: AList.delete_eq)

lemma evict_client_set: "set (evict_client_loop l cs ns) \<subseteq> set ns"
  by (induction l cs ns rule: evict_client_loop.induct) (use dpop_set in auto)

lemma evict_loop_set: "set (evict_loop l ns) \<subseteq> set ns"
proof (induction l ns rule: evict_loop.induct)
  case (1 l ns)
  then show ?case
    by (subst evict_loop.simps) (use dpop_set in \<open>auto split: if_splits\<close>)
qed

lemma has_key_sub: "set d \<subseteq> set e \<Longrightarrow> has_key d n \<Longrightarrow> has_key e n"
  by (force simp: has_key_def map_of_eq_None_iff)

lemma add_nonce_holds: "has_key (nonces (add_nonce x n st)) m \<Longrightarrow> m = n \<or> has_key (nonces st) m"
proof -
  obtain now later client where x: "x = (now, later, client)" by (cases x)
  have "set (nonces (evict_over_limit (evict_client_over_limit client (prune now st)))) \<subseteq> set (nonces st)"
    using evict_loop_set evict_client_set
    by (fastforce simp: evict_over_limit_def evict_client_over_limit_def prune_def)
  then show "has_key (nonces (add_nonce x n st)) m \<Longrightarrow> m = n \<or> has_key (nonces st) m"
    by (auto simp: x add_nonce_def Let_def dest: has_key_sub)
qed

lemma prune_holds: "has_key (nonces (prune now st)) n \<Longrightarrow> has_key (nonces st) n"
  by (rule has_key_sub [of "nonces (prune now st)"]) (auto simp: prune_def)

lemma consume_holds:
  "fst (consume now later n st) \<Longrightarrow> has_key (nonces st) n"
  "fst (consume now later n st) \<Longrightarrow> \<not> has_key (nonces (snd (consume now later n st))) n"
  "has_key (nonces (snd (consume now later n st))) m \<Longrightarrow> has_key (nonces st) m"
  using prune_holds [of now st n] prune_holds [of now st m]
  by (auto simp: consume_def Let_def has_key_def split: option.splits if_splits)

interpretation issued: single_use add_nonce use_nonce "\<lambda>st. has_key (nonces st)"
  using add_nonce_holds consume_holds
  by unfold_locales (auto simp: use_nonce_def)

interpretation marked: single_use "\<lambda>x n used. used" "use_marker sha" "\<lambda>used n. sha n \<notin> set used" for sha
  by unfold_locales (auto simp: use_marker_def consume_authorization_nonce_def split: if_splits)

text \<open>
  C24: a nonce is used at most once. In any interleaving of issuing and consuming, starting from an
  empty store, a nonce is accepted at most as often as it was issued, so a nonce issued once (they
  are random) is accepted at most once.
\<close>

theorem nonce_single_use:
  "count_list (accepted add_nonce use_nonce evs (nonce_store_init t m pc)) n \<le> count_list (added evs) n"
  using issued.accepted_at_most_added [of evs "nonce_store_init t m pc" n]
  by (simp add: nonce_store_init_def has_key_def)

text \<open>
  C27: replay protection by the privileged worker. Whatever the sequence of consumption attempts
  (each with the boot id it is compared with), a nonce is accepted at
  most once, and never when its marker already exists.
\<close>

theorem worker_nonce_single_use:
  "count_list (accepted (\<lambda>x n used. used) (use_marker sha) (map (\<lambda>(b, n). Use b n) attempts) used) n
     \<le> (if sha n \<in> set used then 0 else 1)"
proof -
  have "added (map (\<lambda>(b, n). Use b n) attempts) = []"
    by (induction attempts) auto
  then show ?thesis
    using marked.accepted_at_most_added [of sha "map (\<lambda>(b, n). Use b n) attempts" used n]
    by (auto split: if_splits)
qed

text \<open>
  Exactly the fresh nonces are accepted. A nonce is accepted if and only if the store holds it and
  its age is below the lifetime at both clock readings; and a nonce just issued is held, with its issue
  time and its boot id in front.
\<close>

theorem consume_accepts_fresh:
  "(fst (consume now later n st) \<longleftrightarrow>
      (\<exists>t c. dget (filter (\<lambda>(m, (u, c)). now - u < ttl st) (nonces st)) n = Some (t, c) \<and> later - t < ttl st)) \<and>
   (case issue begun issued_at boot token client st of (nonce, st1) \<Rightarrow>
      dget (nonces st1) nonce = Some (issued_at, client) \<and> ttl st1 = ttl st \<and>
      (token \<noteq> [] \<and> CHR '':'' \<notin> set boot \<longrightarrow> nonce_matches_boot boot nonce))"
proof -
  have "takeWhile (\<lambda>x. x \<noteq> CHR '':'') (boot @ CHR '':'' # token) = boot"
    "dropWhile (\<lambda>x. x \<noteq> CHR '':'') (boot @ CHR '':'' # token) = CHR '':'' # token" if "CHR '':'' \<notin> set boot"
    using that by (induction boot) auto
  then have "nonce_matches_boot boot (boot @ '':'' @ token)" if "token \<noteq> [] \<and> CHR '':'' \<notin> set boot"
    using that by (simp add: nonce_matches_boot_def partition_on_def)
  then show ?thesis
    by (auto simp: issue_def consume_def prune_def Let_def not_le evict_over_limit_def evict_client_over_limit_def
        split: option.splits)
qed

theorem consume_accepts_fresh_witness:
  "(case issue 0 0 ''b'' ''t'' ''c'' (nonce_store_init 300 8 4) of (nonce, st1) \<Rightarrow>
      dget (nonces st1) nonce = Some (0, ''c'') \<and> ttl st1 = 300) \<and> nonce_matches_boot ''b'' ''b:t''"
proof -
  have "issue 0 0 ''b'' ''t'' ''c'' (nonce_store_init 300 8 4) =
      (''b:t'', snd (issue 0 0 ''b'' ''t'' ''c'' (nonce_store_init 300 8 4)))"
    by (simp add: issue_def Let_def)
  then show ?thesis
    using conjunct2 [OF consume_accepts_fresh [where now = 0 and later = 0 and n = "[]" and begun = 0 and issued_at = 0
        and boot = "''b''" and token = "''t''" and client = "''c''" and st = "nonce_store_init 300 8 4"]]
    by (auto simp: nonce_store_init_def split: prod.splits)
qed

subsection \<open>Signed messages and guards\<close>

lemma line_inj:
  "nl \<notin> set a \<Longrightarrow> nl \<notin> set b \<Longrightarrow> a @ nl # x = b @ nl # y \<Longrightarrow> a = b \<and> x = y"
proof (induction a arbitrary: b)
  case (Cons c a)
  then show ?case by (cases b) auto
qed (auto simp: Cons_eq_append_conv)

text \<open>
  a signature covers one request. When no field has a line break, which holds of HTTP header
  values, methods and URL paths, two requests have the same signed message only if they agree on the
  nonce, the method up to case, the path and the body digest.
\<close>

theorem signature_message_binds_request:
  assumes "reapply_signature_message sha n m p b = reapply_signature_message sha n' m' p' b'"
    and "nl \<notin> set n \<union> set n' \<union> set (map upper_char m) \<union> set (map upper_char m') \<union> set p \<union> set p'"
  shows "n = n' \<and> map upper_char m = map upper_char m' \<and> p = p' \<and> sha b = sha b'"
proof -
  have "n @ nl # ''method:'' @ map upper_char m @ nl # ''path:'' @ p @ nl # ''sha256:'' @ sha b @ [nl] =
        n' @ nl # ''method:'' @ map upper_char m' @ nl # ''path:'' @ p' @ nl # ''sha256:'' @ sha b' @ [nl]"
    using assms(1) by (simp add: reapply_signature_message_def)
  from line_inj [OF _ _ this] assms(2) have n: "n = n'"
    and m: "map upper_char m @ nl # ''path:'' @ p @ nl # ''sha256:'' @ sha b @ [nl] =
      map upper_char m' @ nl # ''path:'' @ p' @ nl # ''sha256:'' @ sha b' @ [nl]" by auto
  from line_inj [OF _ _ m] assms(2) have me: "map upper_char m = map upper_char m'"
    and p: "p @ nl # ''sha256:'' @ sha b @ [nl] = p' @ nl # ''sha256:'' @ sha b' @ [nl]" by auto
  from line_inj [OF _ _ p] assms(2) have "p = p'" "sha b = sha b'" by auto
  with n me show ?thesis by blast
qed

theorem signature_message_binds_request_witness:
  "reapply_signature_message (\<lambda>b. b) ''b:t'' ''post'' ''/api/config'' ''x'' =
     reapply_signature_message (\<lambda>b. b) ''b:t'' ''POST'' ''/api/config'' ''x'' \<and>
   map upper_char ''post'' = map upper_char ''POST''"
proof -
  have eq: "reapply_signature_message (\<lambda>b. b) ''b:t'' ''post'' ''/api/config'' ''x'' =
     reapply_signature_message (\<lambda>b. b) ''b:t'' ''POST'' ''/api/config'' ''x''" by code_simp
  have "nl \<notin> set ''b:t'' \<union> set ''b:t'' \<union> set (map upper_char ''post'') \<union> set (map upper_char ''POST'') \<union>
      set ''/api/config'' \<union> set ''/api/config''" by code_simp
  from signature_message_binds_request [OF eq this] eq show ?thesis by blast
qed

lemma verify_ssh_auth_Inr:
  assumes "verify_ssh_auth sha b64 verify now later req signers st = (Inr ev, st1)"
  shows "fst (consume now later (req_nonce req) st)" "st1 = snd (consume now later (req_nonce req) st)"
    "\<exists>blob. b64 (req_signature req) = Some blob \<and>
       verify (reapply_signature_message sha (req_nonce req) (map upper_char (req_method req))
         (req_path req) (req_body req)) blob signers"
    "dget ev ''nonce'' = Some (req_nonce req)" "dget ev ''path'' = Some (req_path req)"
  using assms
  by (auto simp: verify_ssh_auth_def Let_def split: if_splits prod.splits option.splits)

lemma verify_ssh_auth_spends:
  assumes "req_nonce req \<noteq> []" "req_signature req \<noteq> []"
  shows "snd (verify_ssh_auth sha b64 verify now later req signers st) = snd (consume now later (req_nonce req) st)"
  using assms by (auto simp: verify_ssh_auth_def Let_def split: prod.splits option.splits)

text \<open>
  C10: a provisioned device fails closed. The guard never lets a request bypass authentication on a
  provisioned root, whatever the signer file holds; it authenticates only a request whose nonce the
  store held and whose signature over that nonce, method, path and body verifies against a
  non-empty signer list; and the nonce is spent whether or not the signature verifies.
\<close>

theorem auth_guard_fails_closed:
  assumes "is_provisioned_config_root root_dir"
    and "ssh_auth_guard sha b64 verify root_dir admin_signers now later req initialized st = (g, initialized', st1)"
  shows "g \<noteq> Bypassed \<and>
    (\<forall>ev. g = Authenticated ev \<longrightarrow>
       has_key (nonces st) (req_nonce req) \<and>
       (\<exists>signers blob. build_allowed_signers admin_signers = Some signers \<and> signers \<noteq> [] \<and>
          b64 (req_signature req) = Some blob \<and>
          verify (reapply_signature_message sha (req_nonce req) (map upper_char (req_method req))
            (req_path req) (req_body req)) blob signers)) \<and>
    (build_allowed_signers admin_signers \<noteq> None \<and> req_nonce req \<noteq> [] \<and> req_signature req \<noteq> [] \<longrightarrow>
       \<not> has_key (nonces st1) (req_nonce req))"
proof (cases "build_allowed_signers admin_signers")
  case None
  then show ?thesis using assms by (auto simp: ssh_auth_guard_def)
next
  case (Some signers)
  then have ne: "signers \<noteq> []"
    by (auto simp: build_allowed_signers_def Let_def split: option.splits if_splits)
  obtain r st2 where v: "verify_ssh_auth sha b64 verify now later req signers st = (r, st2)" by fastforce
  have g: "st1 = st2" "g = (case r of Inl e \<Rightarrow> Rejected e | Inr ev \<Rightarrow> Authenticated ev)"
    using assms Some v by (auto simp: ssh_auth_guard_def split: sum.splits)
  have spent: "\<not> has_key (nonces st1) (req_nonce req)" if "req_nonce req \<noteq> []" "req_signature req \<noteq> []"
    using verify_ssh_auth_spends [OF that, of sha b64 verify now later signers st] v g(1)
    by (auto simp: consume_def Let_def has_key_def split: option.splits)
  show ?thesis
  proof (cases r)
    case (Inr ev)
    note ok = verify_ssh_auth_Inr [OF v [unfolded Inr]]
    show ?thesis using ok(3) consume_holds(1) [OF ok(1)] Some ne spent Inr g(2) by auto
  qed (use spent g(2) in auto)
qed

theorem auth_guard_fails_closed_witness:
  "\<exists>g i st1. ssh_auth_guard id Some (\<lambda>m b s. True) (Some (sample_root ''x'' ''y'')) None 0 0
      \<lparr>req_nonce = ''b:t'', req_signature = ''s'', req_method = ''POST'', req_path = ''/'', req_body = []\<rparr>
      False (nonce_store_init 300 8 4) = (g, i, st1) \<and> g \<noteq> Bypassed"
proof -
  have prov: "is_provisioned_config_root (Some (sample_root ''x'' ''y''))"
    by (simp add: is_provisioned_config_root_def is_regular_def sample_root_def)
  obtain g i st1 where run: "ssh_auth_guard id Some (\<lambda>m b s. True) (Some (sample_root ''x'' ''y'')) None 0 0
      \<lparr>req_nonce = ''b:t'', req_signature = ''s'', req_method = ''POST'', req_path = ''/'', req_body = []\<rparr>
      False (nonce_store_init 300 8 4) = (g, i, st1)" by (rule prod_cases3)
  with auth_guard_fails_closed [OF prov run] show ?thesis by blast
qed

end
