(* ===== verification/Staging_Manifest.thy ===== *)
theory Staging_Manifest
  imports Py_Base
begin

text \<open>
  Staged-job manifests and their verification by the privileged worker, from
  \<^verbatim>\<open>staging.py\<close>: job ids, relative paths, the manifest of a directory tree, and the checks of
  ownership, modes, sizes and digests made before a staged job is trusted.

  A staged directory is an \<open>snode\<close>: regular files, directories, symbolic links and other nodes, each
  with the metadata \<^verbatim>\<open>lstat\<close> gives. SHA-256 is the parameter \<open>sha\<close>.
\<close>

section \<open>Definitions\<close>

subsection \<open>Job ids and paths\<close>

definition job_id_char :: "char \<Rightarrow> bool" where
  "job_id_char c = (is_ascii_alnum c \<or> c \<in> set ''_.-'')"

text \<open>\<^verbatim>\<open>^[A-Za-z0-9][A-Za-z0-9_.-]{0,127}$\<close>; the \<^verbatim>\<open>$\<close> also matches before a final newline.\<close>

definition job_id_body :: "string \<Rightarrow> bool" where
  "job_id_body s = (s \<noteq> [] \<and> length s \<le> 128 \<and> is_ascii_alnum (hd s) \<and> list_all job_id_char s)"

definition job_id_re :: "string \<Rightarrow> bool" where
  "job_id_re s = (job_id_body s \<or> (s \<noteq> [] \<and> last s = CHR 0x0A \<and> job_id_body (butlast s)))"

definition validate_job_id :: "pyval \<Rightarrow> string res" where
  "validate_job_id v = (case v of
     VStr s \<Rightarrow>
       (if \<not> job_id_re s then Inl (ProvisionError ''invalid staged job id'')
        else if CHR ''/'' \<in> set s \<or> s = ''.'' \<or> s = ''..''
        then Inl (ProvisionError ''invalid staged job id'')
        else if ends_with ''.ready'' s \<or> ends_with ''.reserve'' s
        then Inl (ProvisionError ''staged job id uses reserved suffix'')
        else Inr s)
   | _ \<Rightarrow> Inl (ProvisionError ''invalid staged job id''))"

text \<open>The parts of a \<^verbatim>\<open>PurePosixPath\<close>: empty and \<^verbatim>\<open>.\<close> components are dropped.\<close>

definition path_parts :: "string \<Rightarrow> string list" where
  "path_parts s = filter (\<lambda>w. w \<noteq> [] \<and> w \<noteq> ''.'') (split_on (CHR ''/'') s)"

definition as_posix :: "string \<Rightarrow> string" where
  "as_posix s = (if path_parts s = [] then ''.'' else join ''/'' (path_parts s))"

definition validate_relative_path :: "pyval \<Rightarrow> string res" where
  "validate_relative_path v = (case v of
     VStr s \<Rightarrow>
       (if s = [] then Inl (ProvisionError ''staged manifest path must be a non-empty string'')
        else if starts_with ''/'' s \<or> ''..'' \<in> set (path_parts s) \<or> ''.'' \<in> set (path_parts s)
        then Inl (ProvisionError ''unsafe staged manifest path'')
        else if as_posix s \<noteq> s then Inl (ProvisionError ''non-normalized staged manifest path'')
        else Inr (as_posix s))
   | _ \<Rightarrow> Inl (ProvisionError ''staged manifest path must be a non-empty string''))"

subsection \<open>Manifest fields\<close>

definition is_hex64 :: "string \<Rightarrow> bool" where
  "is_hex64 s = (length s = 64 \<and> list_all (\<lambda>c. c \<in> set ''0123456789abcdef'') s)"

definition is_sha256 :: "pyval \<Rightarrow> bool" where
  "is_sha256 v = (case v of VStr s \<Rightarrow> is_hex64 s | _ \<Rightarrow> False)"

definition require_int :: "pyval dict \<Rightarrow> string \<Rightarrow> int res" where
  "require_int payload key = (case get_val payload key of
     VInt i \<Rightarrow> (if i < 0 then Inl (ProvisionError (''staged manifest '' @ key @ '' must be a non-negative integer''))
               else Inr i)
   | _ \<Rightarrow> Inl (ProvisionError (''staged manifest '' @ key @ '' must be a non-negative integer'')))"

type_synonym ekey = "string \<times> string"

definition entry_key :: "pyval \<Rightarrow> ekey res" where
  "entry_key e = (case e of
     VDict d \<Rightarrow>
       rbind (validate_relative_path (get_or (VStr []) d ''path'')) (\<lambda>path.
       rbind (case get_val d ''type'' of
                VStr t \<Rightarrow> (if t = ''dir'' \<or> t = ''file'' then Inr t
                          else Inl (ProvisionError ''invalid staged manifest entry type''))
              | VList x \<Rightarrow> Inl (PyExc ''TypeError: unhashable'')
              | VDict x \<Rightarrow> Inl (PyExc ''TypeError: unhashable'')
              | _ \<Rightarrow> Inl (ProvisionError ''invalid staged manifest entry type'')) (\<lambda>ty.
       rbind (case get_val d ''mode'' of
                VInt m \<Rightarrow> rguard (0 \<le> m \<and> m \<le> 4095) (ProvisionError ''invalid staged manifest mode'')
              | _ \<Rightarrow> Inl (ProvisionError ''invalid staged manifest mode'')) (\<lambda>_.
       if ty = ''file'' then
         rbind (case get_val d ''size'' of
                  VInt n \<Rightarrow> rguard (0 \<le> n) (ProvisionError ''invalid staged manifest size'')
                | _ \<Rightarrow> Inl (ProvisionError ''invalid staged manifest size'')) (\<lambda>_.
         rbind (rguard (is_sha256 (get_val d ''sha256'')) (ProvisionError ''invalid staged manifest hash''))
           (\<lambda>_. Inr (path, ty)))
       else Inr (path, ty))))
   | _ \<Rightarrow> Inl (ProvisionError ''staged manifest tree entry must be an object''))"

subsection \<open>Staged directories\<close>

record meta =
  mode :: nat
  uid :: int
  gid :: int

datatype snode = SFile meta string | SDir meta "(string \<times> snode) list" | SLink meta | SOther meta

fun smeta :: "snode \<Rightarrow> meta" where
  "smeta (SFile m b) = m"
| "smeta (SDir m es) = m"
| "smeta (SLink m) = m"
| "smeta (SOther m) = m"

text \<open>\<^verbatim>\<open>root.rglob("*")\<close>: every node below a directory, symbolic links not followed.\<close>

fun walk :: "string list \<Rightarrow> snode \<Rightarrow> (string list \<times> snode) list"
  and walks :: "string list \<Rightarrow> (string \<times> snode) list \<Rightarrow> (string list \<times> snode) list" where
  "walk p (SDir m es) = walks p es"
| "walk p n = []"
| "walks p [] = []"
| "walks p ((n, c) # es) = (p @ [n], c) # walk (p @ [n]) c @ walks p es"

text \<open>\<^verbatim>\<open>root / rel\<close> for a normalized relative path.\<close>

definition snode_at :: "snode \<Rightarrow> string \<Rightarrow> snode option" where
  "snode_at base rel =
     (if rel = ''.'' then Some base else map_of (walk [] base) (split_on (CHR ''/'') rel))"

definition manifest_entry :: "(string \<Rightarrow> string) \<Rightarrow> string list \<times> snode \<Rightarrow> pyval res" where
  "manifest_entry sha = (\<lambda>(p, n). case n of
     SLink m \<Rightarrow> Inl (ProvisionError ''staged path must not be a symlink'')
   | SDir m es \<Rightarrow> Inr (VDict [(''path'', VStr (join ''/'' p)), (''type'', VStr ''dir''),
       (''mode'', VInt (int (mode m)))])
   | SFile m b \<Rightarrow> Inr (VDict [(''path'', VStr (join ''/'' p)), (''type'', VStr ''file''),
       (''mode'', VInt (int (mode m))), (''size'', VInt (int (length b))), (''sha256'', VStr (sha b))])
   | SOther m \<Rightarrow> Inl (ProvisionError ''staged path must be a regular file or directory''))"

definition tree_manifest :: "(string \<Rightarrow> string) \<Rightarrow> snode option \<Rightarrow> pyval list res" where
  "tree_manifest sha base = (case base of
     None \<Rightarrow> Inr []
   | Some r \<Rightarrow> rmap (manifest_entry sha) (sort_key fst (walk [] r)))"

subsection \<open>Verification\<close>

text \<open>Group or world writable: the bits \<^verbatim>\<open>S_IWGRP | S_IWOTH\<close>.\<close>

definition group_world_writable :: "nat \<Rightarrow> bool" where
  "group_world_writable m = (m div 16 mod 2 = 1 \<or> m div 2 mod 2 = 1)"

definition verify_path_metadata :: "snode option \<Rightarrow> int \<Rightarrow> int \<Rightarrow> unit res" where
  "verify_path_metadata n expected_uid expected_gid = (case n of
     None \<Rightarrow> Inl (ProvisionError ''cannot stat staged path'')
   | Some (SLink m) \<Rightarrow> Inl (ProvisionError ''staged path must not be a symlink'')
   | Some node \<Rightarrow>
       (let m = smeta node in
        if uid m \<noteq> 0 \<and> uid m \<noteq> expected_uid then Inl (ProvisionError ''staged path has unexpected owner'')
        else if gid m \<noteq> 0 \<and> gid m \<noteq> expected_gid then Inl (ProvisionError ''staged path has unexpected group'')
        else if group_world_writable (mode m)
        then Inl (ProvisionError ''staged path must not be group/world writable'')
        else Inr ()))"

text \<open>\<^verbatim>\<open>{_entry_key(entry): entry for entry in entries}\<close>: a later entry replaces an earlier one.\<close>

definition keyed_entries :: "pyval list \<Rightarrow> (ekey \<times> pyval) list res" where
  "keyed_entries es = rbind (rmap (\<lambda>e. rbind (entry_key e) (\<lambda>k. Inr (k, e))) es)
     (\<lambda>kes. Inr (fold (\<lambda>(k, e). AList.update k e) kes []))"

definition field :: "pyval \<Rightarrow> string \<Rightarrow> pyval" where
  "field e k = (case e of VDict d \<Rightarrow> get_val d k | _ \<Rightarrow> VNone)"

definition verify_entry ::
  "snode \<Rightarrow> (ekey \<times> pyval) list \<Rightarrow> int \<Rightarrow> int \<Rightarrow> ekey \<times> pyval \<Rightarrow> unit res" where
  "verify_entry base actual expected_uid expected_gid = (\<lambda>(key, expected_entry).
     let rel_path = fst key; entry_type = snd key; actual_entry = the (map_of actual key) in
     rbind (verify_path_metadata (snode_at base rel_path) expected_uid expected_gid) (\<lambda>_.
     rbind (rguard (field actual_entry ''mode'' = field expected_entry ''mode'')
       (ProvisionError ''staged path mode changed'')) (\<lambda>_.
     if entry_type = ''file'' then
       rbind (rguard (field actual_entry ''size'' = field expected_entry ''size'')
         (ProvisionError ''staged file size changed'')) (\<lambda>_.
       rguard (field actual_entry ''sha256'' = field expected_entry ''sha256'')
         (ProvisionError ''staged file hash changed''))
     else Inr ())))"

definition verify_tree ::
  "(string \<Rightarrow> string) \<Rightarrow> snode option \<Rightarrow> pyval \<Rightarrow> int \<Rightarrow> int \<Rightarrow> unit res" where
  "verify_tree sha base expected_entries expected_uid expected_gid = (case expected_entries of
     VList es \<Rightarrow>
       rbind (keyed_entries es) (\<lambda>expected.
       rbind (verify_path_metadata base expected_uid expected_gid) (\<lambda>_.
       rbind (tree_manifest sha base) (\<lambda>actual_entries.
       rbind (keyed_entries actual_entries) (\<lambda>actual.
       if set (map fst actual) \<noteq> set (map fst expected)
       then Inl (ProvisionError ''staged tree does not match manifest'')
       else rbind (rmap (verify_entry (the base) actual expected_uid expected_gid) expected) (\<lambda>_. Inr ())))))
   | _ \<Rightarrow> Inl (ProvisionError ''staged manifest tree entries must be a list''))"

definition job_entry :: "snode \<Rightarrow> string \<Rightarrow> snode option" where
  "job_entry job n = (case job of SDir m es \<Rightarrow> map_of es n | _ \<Rightarrow> None)"

definition job_names :: "snode \<Rightarrow> string list" where
  "job_names job = (case job of SDir m es \<Rightarrow> map fst es | _ \<Rightarrow> [])"

definition is_dir :: "snode option \<Rightarrow> bool" where
  "is_dir n = (case n of Some (SDir m es) \<Rightarrow> True | _ \<Rightarrow> False)"

definition verify_job_top_level :: "snode \<Rightarrow> pyval dict \<Rightarrow> unit res" where
  "verify_job_top_level job manifest =
     (let allowed = [''manifest.json'', ''candidate'']
        @ (if py_truthy (get_val manifest ''bundle_files'') \<or> get_val manifest ''bundle_files_present'' = VBool True
           then [''bundle-files''] else [])
        @ (if get_val manifest ''request'' \<noteq> VNone then [''request.bin''] else []) in
      if \<not> set (job_names job) \<subseteq> set allowed
      then Inl (ProvisionError ''staged job contains unexpected top-level entries'')
      else
        rbind (require_int manifest ''service_uid'') (\<lambda>u.
        rbind (require_int manifest ''service_gid'') (\<lambda>g.
        rbind (verify_path_metadata (job_entry job ''candidate'') u g) (\<lambda>_.
        rguard (is_dir (job_entry job ''candidate''))
          (ProvisionError ''staged job missing candidate directory'')))))"

text \<open>\<open>limit\<close> is \<^verbatim>\<open>bundle.MAX_SOURCE_BYTES\<close>, which the environment may set.\<close>

definition verify_staged_request ::
  "nat \<Rightarrow> (string \<Rightarrow> string) \<Rightarrow> snode \<Rightarrow> pyval \<Rightarrow> int \<Rightarrow> int \<Rightarrow> unit res" where
  "verify_staged_request limit sha job request expected_uid expected_gid = (case request of
     VDict d \<Rightarrow>
       rbind (verify_path_metadata (job_entry job ''request.bin'') expected_uid expected_gid) (\<lambda>_.
       case job_entry job ''request.bin'' of
         Some (SFile m b) \<Rightarrow>
           (case get_val d ''size'' of
              VInt sz \<Rightarrow>
                if sz < 0 then Inl (ProvisionError ''staged request size must be a non-negative integer'')
                else if sz > int limit \<or> length b > limit
                then Inl (ProvisionError ''staged request exceeds byte limit'')
                else if int (length b) \<noteq> sz then Inl (ProvisionError ''staged request size changed'')
                else if \<not> is_sha256 (get_val d ''sha256'') then Inl (ProvisionError ''staged request hash is invalid'')
                else if VStr (sha b) \<noteq> get_val d ''sha256'' then Inl (ProvisionError ''staged request hash changed'')
                else Inr ()
            | _ \<Rightarrow> Inl (ProvisionError ''staged request size must be a non-negative integer''))
       | _ \<Rightarrow> Inl (ProvisionError ''staged request must be a regular file''))
   | _ \<Rightarrow> Inl (ProvisionError ''staged request metadata must be an object''))"

text \<open>
  \<^verbatim>\<open>verify_staged_job\<close> on the job directory and its parsed manifest; \<open>in_active\<close> says whether the
  resolved job path is below the active directory.
\<close>

definition verify_staged_job ::
  "nat \<Rightarrow> (string \<Rightarrow> string) \<Rightarrow> bool \<Rightarrow> bool \<Rightarrow> string \<Rightarrow> snode \<Rightarrow> pyval dict res \<Rightarrow> pyval dict res" where
  "verify_staged_job limit sha in_active require_active job_id job read_manifest =
     (if require_active \<and> \<not> in_active
      then Inl (ProvisionError ''staged job path escaped active directory'')
      else
        rbind read_manifest (\<lambda>manifest.
        rbind (rguard (py_eq_int (get_val manifest ''version'') 1)
          (ProvisionError ''unsupported staged manifest version'')) (\<lambda>_.
        rbind (rguard (get_val manifest ''job_id'' = VStr job_id)
          (ProvisionError ''staged manifest job id mismatch'')) (\<lambda>_.
        rbind (require_int manifest ''service_uid'') (\<lambda>u.
        rbind (require_int manifest ''service_gid'') (\<lambda>g.
        rbind (verify_job_top_level job manifest) (\<lambda>_.
        rbind (verify_tree sha (job_entry job ''candidate'') (get_or (VList []) manifest ''candidate'') u g) (\<lambda>_.
        rbind
          (let bundle_entries = get_or (VList []) manifest ''bundle_files'' in
           if py_truthy bundle_entries \<or> get_val manifest ''bundle_files_present'' = VBool True
           then verify_tree sha (job_entry job ''bundle-files'') bundle_entries u g
           else rguard (job_entry job ''bundle-files'' = None)
             (ProvisionError ''staged job has unexpected bundle-files directory'')) (\<lambda>_.
        rbind
          (if get_val manifest ''request'' \<noteq> VNone
           then verify_staged_request limit sha job (get_val manifest ''request'') u g else Inr ()) (\<lambda>_.
        Inr manifest))))))))))"

subsection \<open>Well-formed trees\<close>

text \<open>What a filesystem guarantees of a directory: entry names are distinct, not empty, have no slash
  and are neither \<^verbatim>\<open>.\<close> nor \<^verbatim>\<open>..\<close>.\<close>

definition name_ok :: "string \<Rightarrow> bool" where
  "name_ok n = (n \<noteq> [] \<and> n \<noteq> ''.'' \<and> n \<noteq> ''..'' \<and> CHR ''/'' \<notin> set n)"

fun wf_tree :: "snode \<Rightarrow> bool"
  and wf_trees :: "(string \<times> snode) list \<Rightarrow> bool" where
  "wf_tree (SDir m es) = (distinct (map fst es) \<and> wf_trees es)"
| "wf_tree n = True"
| "wf_trees [] = True"
| "wf_trees ((n, c) # es) = (name_ok n \<and> wf_tree c \<and> wf_trees es)"

text \<open>The manifest type of a node, and the ownership and mode a verified node must have.\<close>

fun type_name :: "snode \<Rightarrow> string" where
  "type_name (SDir m es) = ''dir''"
| "type_name n = ''file''"

definition plain :: "snode \<Rightarrow> bool" where
  "plain n = (case n of SFile m b \<Rightarrow> True | SDir m es \<Rightarrow> True | _ \<Rightarrow> False)"

definition owned :: "int \<Rightarrow> int \<Rightarrow> snode \<Rightarrow> bool" where
  "owned u g n = ((uid (smeta n) = 0 \<or> uid (smeta n) = u) \<and> (gid (smeta n) = 0 \<or> gid (smeta n) = g) \<and>
     \<not> group_world_writable (mode (smeta n)))"

text \<open>The manifest entries \<open>es\<close> describe the node \<open>n\<close> at path \<open>p\<close>.\<close>

definition described :: "(string \<Rightarrow> string) \<Rightarrow> pyval list \<Rightarrow> string list \<Rightarrow> snode \<Rightarrow> bool" where
  "described sha es p n = (\<exists>e \<in> set es. entry_key e = Inr (join ''/'' p, type_name n) \<and>
         field e ''mode'' = VInt (int (mode (smeta n))) \<and>
         (\<forall>m b. n = SFile m b \<longrightarrow> field e ''size'' = VInt (int (length b)) \<and> field e ''sha256'' = VStr (sha b)))"

definition sample_dir :: snode where
  "sample_dir = SDir \<lparr>mode = 488, uid = 7, gid = 7\<rparr>
     [(''config.toml'', SFile \<lparr>mode = 416, uid = 7, gid = 7\<rparr> ''version = 2''),
      (''files'', SDir \<lparr>mode = 488, uid = 0, gid = 7\<rparr>
         [(''a.txt'', SFile \<lparr>mode = 416, uid = 7, gid = 0\<rparr> ''x'')])]"

definition sample_sha :: "string \<Rightarrow> string" where
  "sample_sha b = replicate 64 (if b = ''x'' then CHR ''a'' else CHR ''b'')"

section \<open>Theorems\<close>

subsection \<open>Job ids and paths\<close>

lemma dot_not_alnum [simp]: "\<not> is_ascii_alnum CHR ''.''"
  by (auto simp: is_ascii_alnum_def is_ascii_digit_def is_ascii_lower_def is_ascii_upper_def cp_def)

lemma job_id_re_hd: "job_id_re s \<Longrightarrow> s \<noteq> [] \<and> is_ascii_alnum (hd s) \<and> length s \<le> 129"
  by (cases s) (auto simp: job_id_re_def job_id_body_def split: if_splits)

lemma validate_job_id_Inr:
  "validate_job_id v = Inr s \<longleftrightarrow> v = VStr s \<and> job_id_re s \<and> CHR ''/'' \<notin> set s \<and>
     \<not> ends_with ''.ready'' s \<and> \<not> ends_with ''.reserve'' s"
  using job_id_re_hd [of s]
  by (auto simp: validate_job_id_def split: pyval.splits if_splits)

text \<open>
  The names of the queue directory never collide. For validated job ids, a job directory, a ready
  marker and a reservation have different names, each name determines its job, and none is hidden
  (the sequence file and the staging directories are).
\<close>

theorem queue_names_disjoint:
  assumes "validate_job_id v = Inr s" and "validate_job_id w = Inr t"
  shows "s \<noteq> t @ ''.ready'' \<and> s \<noteq> t @ ''.reserve'' \<and> t @ ''.ready'' \<noteq> s @ ''.reserve'' \<and>
    (s @ ''.ready'' = t @ ''.ready'' \<longrightarrow> s = t) \<and> (s @ ''.reserve'' = t @ ''.reserve'' \<longrightarrow> s = t) \<and>
    CHR ''/'' \<notin> set s \<and> \<not> starts_with ''.'' s \<and> length s \<le> 129"
proof -
  have "t @ ''.ready'' \<noteq> s @ ''.reserve''"
  proof
    assume "t @ ''.ready'' = s @ ''.reserve''"
    then have "rev (t @ ''.ready'') = rev (s @ ''.reserve'')" by simp
    then show False by simp
  qed
  moreover have "\<not> starts_with ''.'' s"
    using assms(1) job_id_re_hd [of s]
    by (cases s) (auto simp: validate_job_id_Inr starts_with_def)
  ultimately show ?thesis
    using assms job_id_re_hd [of s] by (auto simp: validate_job_id_Inr)
qed

theorem queue_names_disjoint_witness:
  "validate_job_id (VStr ''job-1'') = Inr ''job-1'' \<and> validate_job_id (VStr ''job-2'') = Inr ''job-2'' \<and>
   ''job-1'' \<noteq> ''job-2'' @ ''.ready'' \<and> \<not> starts_with ''.'' ''job-1''"
proof -
  have v: "validate_job_id (VStr ''job-1'') = Inr ''job-1''" "validate_job_id (VStr ''job-2'') = Inr ''job-2''"
    by code_simp+
  show ?thesis using v queue_names_disjoint [OF v] by simp
qed

text \<open>The pattern accepts a job id that ends in a newline.\<close>

theorem job_id_trailing_newline: "validate_job_id (VStr (''job-1'' @ [CHR 0x0A])) = Inr (''job-1'' @ [CHR 0x0A])"
  by code_simp

lemma path_parts_ok: "w \<in> set (path_parts s) \<Longrightarrow> w \<noteq> [] \<and> w \<noteq> ''.'' \<and> CHR ''/'' \<notin> set w"
  by (auto simp: path_parts_def dest: split_on_pieces)

lemma validate_relative_path_Inr:
  "validate_relative_path v = Inr p \<longleftrightarrow>
     v = VStr p \<and> (p = ''.'' \<or> (\<forall>w \<in> set (split_on (CHR ''/'') p). name_ok w))"
proof
  assume ok: "validate_relative_path v = Inr p"
  then have v: "v = VStr p" and norm: "as_posix p = p" and up: "''..'' \<notin> set (path_parts p)"
    by (auto simp: validate_relative_path_def split: pyval.splits if_splits)
  have split: "split_on (CHR ''/'') p = path_parts p" if "path_parts p \<noteq> []"
  proof -
    have "p = join ''/'' (path_parts p)" using norm that by (simp add: as_posix_def)
    then have "split_on (CHR ''/'') p = split_on (CHR ''/'') (join ''/'' (path_parts p))" by simp
    also have "\<dots> = path_parts p" using that path_parts_ok by (blast intro: split_on_join)
    finally show ?thesis .
  qed
  show "v = VStr p \<and> (p = ''.'' \<or> (\<forall>w \<in> set (split_on (CHR ''/'') p). name_ok w))"
  proof (cases "path_parts p = []")
    case True
    with v norm show ?thesis by (simp add: as_posix_def)
  next
    case False
    with split have "split_on (CHR ''/'') p = path_parts p" by blast
    then show ?thesis using v up path_parts_ok [of _ p] by (simp add: name_ok_def) blast
  qed
next
  assume r: "v = VStr p \<and> (p = ''.'' \<or> (\<forall>w \<in> set (split_on (CHR ''/'') p). name_ok w))"
  show "validate_relative_path v = Inr p"
  proof (cases "p = ''.''")
    case True
    then have "validate_relative_path (VStr p) = Inr p" by simp code_simp
    with r show ?thesis by simp
  next
    case False
    with r have all: "\<forall>w \<in> set (split_on (CHR ''/'') p). name_ok w" by blast
    then have parts: "path_parts p = split_on (CHR ''/'') p"
      by (auto simp: path_parts_def name_ok_def intro!: filter_True)
    have "as_posix p = p" by (simp add: as_posix_def parts join_split_on)
    moreover have "p \<noteq> []"
    proof
      assume "p = []"
      with all show False by (simp add: name_ok_def)
    qed
    moreover have "\<not> starts_with ''/'' p"
    proof
      assume "starts_with ''/'' p"
      then obtain xs where "p = CHR ''/'' # xs" by (cases p) (auto simp: starts_with_def)
      with all show False by (simp add: name_ok_def)
    qed
    ultimately show ?thesis
      using r all by (auto simp: validate_relative_path_def parts name_ok_def)
  qed
qed

text \<open>
  A staged manifest path cannot leave the staged directory. An accepted path is returned unchanged
  and is \<^verbatim>\<open>.\<close> or a sequence of non-empty components none of which is \<^verbatim>\<open>.\<close> or \<^verbatim>\<open>..\<close>; and
  every such path is accepted.
\<close>

theorem relative_path_safe:
  "validate_relative_path (VStr p) = Inr q \<longleftrightarrow>
     q = p \<and> (p = ''.'' \<or> list_all name_ok (split_on (CHR ''/'') p))"
  using validate_relative_path_Inr [of "VStr p" q] by (auto simp: list_all_iff)

subsection \<open>Tree manifests\<close>

lemma walk_paths:
  "wf_tree t \<Longrightarrow> (q, n) \<in> set (walk p t) \<Longrightarrow> \<exists>r. r \<noteq> [] \<and> q = p @ r \<and> (\<forall>w \<in> set r. name_ok w)"
  "wf_trees es \<Longrightarrow> (q, n) \<in> set (walks p es) \<Longrightarrow>
     \<exists>r m. m \<in> fst ` set es \<and> q = p @ m # r \<and> (\<forall>w \<in> set (m # r). name_ok w)"
proof (induction p t and p es arbitrary: q n and q n rule: walk_walks.induct)
  case (1 p m es)
  from 1(1) [of q n] 1(2,3) show ?case by fastforce
next
  case (4 p m c es)
  from 4(4) consider "q = p @ [m]" | "(q, n) \<in> set (walk (p @ [m]) c)" | "(q, n) \<in> set (walks p es)"
    by auto
  then show ?case
  proof cases
    case 1
    with 4(3) show ?thesis by (intro exI [of _ "[]"] exI [of _ m]) simp
  next
    case 2
    have "wf_tree c" using 4(3) by simp
    from 4(1) [OF this 2] obtain r where "q = (p @ [m]) @ r" "\<forall>w \<in> set r. name_ok w" by blast
    with 4(3) show ?thesis by (intro exI [of _ r] exI [of _ m]) simp
  next
    case 3
    have "wf_trees es" using 4(3) by simp
    from 4(2) [OF this 3] obtain r k
      where "k \<in> fst ` set es" "q = p @ k # r" "\<forall>w \<in> set (k # r). name_ok w" by blast
    then show ?thesis by (intro exI [of _ r] exI [of _ k]) simp
  qed
qed auto

lemma walk_distinct:
  "wf_tree t \<Longrightarrow> distinct (map fst (walk p t))"
  "wf_trees es \<Longrightarrow> distinct (map fst es) \<Longrightarrow> distinct (map fst (walks p es))"
proof (induction p t and p es rule: walk_walks.induct)
  case (4 p m c es)
  then have m: "m \<notin> fst ` set es" and wf: "wf_tree c" "wf_trees es" by auto
  have "q \<noteq> p @ [m]" if "(q, n) \<in> set (walk (p @ [m]) c)" for q n
    using walk_paths(1) [OF wf(1) that] by auto
  moreover have "q \<noteq> p @ [m] @ r" if "(q, n) \<in> set (walks p es)" for q n r
    using walk_paths(2) [OF wf(2) that] m by auto
  moreover have "\<exists>r. q = p @ [m] @ r" if "(q, n) \<in> set (walk (p @ [m]) c)" for q n
    using walk_paths(1) [OF wf(1) that] by auto
  ultimately show ?case using 4 by (fastforce simp: image_iff)
qed auto

lemma map_of_fold_update:
  "map_of (fold (\<lambda>(k, e). AList.update k e) kes acc) k =
     (case map_of (rev kes) k of None \<Rightarrow> map_of acc k | Some e \<Rightarrow> Some e)"
  by (induction kes arbitrary: acc) (auto simp: update_conv' map_add_def split: option.splits)

lemma keys_fold_update:
  "distinct (map fst acc) \<Longrightarrow> distinct (map fst (fold (\<lambda>(k, e). AList.update k e) kes acc))"
  by (induction kes arbitrary: acc) (auto simp: distinct_update)

lemma keyed_entries_Inr:
  assumes "keyed_entries es = Inr d"
  shows keyed_in: "\<And>k e. (k, e) \<in> set d \<Longrightarrow> e \<in> set es \<and> entry_key e = Inr k"
    and keyed_dom: "\<And>e. e \<in> set es \<Longrightarrow> \<exists>k. entry_key e = Inr k \<and> k \<in> fst ` set d"
    and keyed_distinct: "distinct (map fst d)"
proof -
  obtain kes where m: "rmap (\<lambda>e. rbind (entry_key e) (\<lambda>k. Inr (k, e))) es = Inr kes"
    and d: "d = fold (\<lambda>(k, e). AList.update k e) kes []"
    using assms by (auto simp: keyed_entries_def res_simps)
  have "list_all2 (\<lambda>e (k, e'). e' = e \<and> entry_key e = Inr k) es kes"
    using m by (auto simp: rmap_eq_Inr res_simps elim: list_all2_mono)
  then have kes: "(k, e) \<in> set kes \<Longrightarrow> e \<in> set es \<and> entry_key e = Inr k"
    and es: "e \<in> set es \<Longrightarrow> \<exists>k. entry_key e = Inr k \<and> (k, e) \<in> set kes" for k e
    by (auto simp: list_all2_conv_all_nth in_set_conv_nth split: prod.splits) (metis prod.inject surj_pair)+
  show dist: "distinct (map fst d)"
    unfolding d by (rule keys_fold_update) simp
  show "(k, e) \<in> set d \<Longrightarrow> e \<in> set es \<and> entry_key e = Inr k" for k e
    using map_of_is_SomeI [OF dist, of k e] kes [of k e]
    by (auto simp: d map_of_fold_update split: option.splits dest!: map_of_SomeD)
  show "e \<in> set es \<Longrightarrow> \<exists>k. entry_key e = Inr k \<and> k \<in> fst ` set d" for e
  proof -
    assume "e \<in> set es"
    then obtain k where k: "entry_key e = Inr k" "(k, e) \<in> set kes" using es by blast
    from k(2) have "k \<in> fst ` set (rev kes)" by (auto intro: rev_image_eqI)
    then have "map_of (rev kes) k \<noteq> None" by (simp add: map_of_eq_None_iff)
    then have "map_of d k \<noteq> None" by (auto simp: d map_of_fold_update)
    then have "k \<in> fst ` set d" by (simp add: map_of_eq_None_iff)
    with k show ?thesis by blast
  qed
qed

lemma manifest_entry_Inr:
  assumes "manifest_entry sha (p, n) = Inr e" and "entry_key e = Inr k"
  shows "plain n" and "k = (join ''/'' p, type_name n)" and "field e ''mode'' = VInt (int (mode (smeta n)))"
    and "\<And>m b. n = SFile m b \<Longrightarrow> field e ''size'' = VInt (int (length b)) \<and> field e ''sha256'' = VStr (sha b)"
  using assms
  by (auto simp: manifest_entry_def plain_def entry_key_def get_or_def field_def res_simps
      validate_relative_path_Inr split: snode.splits if_splits)

lemma verify_path_metadata_Inr:
  "verify_path_metadata (Some n) u g = Inr () \<longleftrightarrow> (\<forall>m. n \<noteq> SLink m) \<and> owned u g n"
  by (cases n) (auto simp: verify_path_metadata_def owned_def Let_def split: if_splits)

lemma snode_at_walk:
  assumes "wf_tree base" "(p, n) \<in> set (walk [] base)"
  shows "snode_at base (join ''/'' p) = Some n"
proof -
  have p: "p \<noteq> []" "\<forall>w \<in> set p. name_ok w" using walk_paths(1) [OF assms] by auto
  then have split: "split_on (CHR ''/'') (join ''/'' p) = p"
    by (intro split_on_join) (auto simp: name_ok_def)
  moreover have "join ''/'' p \<noteq> ''.''"
  proof
    assume "join ''/'' p = ''.''"
    then have "split_on (CHR ''/'') ''.'' = p" using split by simp
    then have "p = [''.'']" by simp
    with p show False by (simp add: name_ok_def)
  qed
  moreover have "map_of (walk [] base) p = Some n"
    using assms walk_distinct(1) [of base "[]"] by (simp add: map_of_is_SomeI)
  ultimately show ?thesis by (simp add: snode_at_def)
qed

lemma tree_manifest_walk:
  assumes "tree_manifest sha (Some base) = Inr es"
  shows "(p, n) \<in> set (walk [] base) \<Longrightarrow> \<exists>e \<in> set es. manifest_entry sha (p, n) = Inr e"
    and "e \<in> set es \<Longrightarrow> \<exists>p n. (p, n) \<in> set (walk [] base) \<and> manifest_entry sha (p, n) = Inr e"
proof -
  let ?w = "sort_key fst (walk [] base)"
  have l: "list_all2 (\<lambda>x y. manifest_entry sha x = Inr y) ?w es"
    using assms by (simp add: tree_manifest_def rmap_eq_Inr)
  show "\<exists>e \<in> set es. manifest_entry sha (p, n) = Inr e" if "(p, n) \<in> set (walk [] base)"
  proof -
    from that have "(p, n) \<in> set ?w" by simp
    then obtain i where "i < length ?w" "?w ! i = (p, n)" unfolding in_set_conv_nth by blast
    then have "manifest_entry sha (p, n) = Inr (es ! i)" "i < length es"
      using list_all2_nthD [OF l, of i] list_all2_lengthD [OF l] by simp_all
    then show ?thesis by (intro bexI [of _ "es ! i"]) simp_all
  qed
  show "\<exists>p n. (p, n) \<in> set (walk [] base) \<and> manifest_entry sha (p, n) = Inr e" if "e \<in> set es"
  proof -
    from that obtain i where "i < length es" "es ! i = e" by (auto simp: in_set_conv_nth)
    then have i: "manifest_entry sha (?w ! i) = Inr e" "i < length ?w"
      using list_all2_nthD2 [OF l] list_all2_lengthD [OF l] by simp_all
    obtain p n where w: "?w ! i = (p, n)" by (cases "?w ! i")
    have "?w ! i \<in> set ?w" using i(2) by (rule nth_mem)
    with i(1) w show ?thesis by auto
  qed
qed

lemma verify_tree_Inr:
  assumes "verify_tree sha (Some base) (VList es) u g = Inr ()"
  obtains expected actual_entries actual where "keyed_entries es = Inr expected"
    "tree_manifest sha (Some base) = Inr actual_entries" "keyed_entries actual_entries = Inr actual"
    "fst ` set actual = fst ` set expected" "owned u g base"
    "\<And>k e. (k, e) \<in> set expected \<Longrightarrow> verify_entry base actual u g (k, e) = Inr ()"
proof -
  obtain expected actual_entries actual ys where e: "keyed_entries es = Inr expected"
    "tree_manifest sha (Some base) = Inr actual_entries" "keyed_entries actual_entries = Inr actual"
    "fst ` set actual = fst ` set expected" "verify_path_metadata (Some base) u g = Inr ()"
    "rmap (verify_entry base actual u g) expected = Inr ys"
    using assms by (auto simp: verify_tree_def res_simps split: if_splits)
  have "verify_entry base actual u g (k, x) = Inr ()" if "(k, x) \<in> set expected" for k x
    using e(6) that by (auto simp: rmap_eq_Inr list_all2_conv_all_nth in_set_conv_nth)
  with e show thesis by (intro that [of expected actual_entries actual]) (auto simp: verify_path_metadata_Inr)
qed

text \<open>
  C9: a staged tree that passes verification is exactly the tree its manifest describes. Every node
  below the root is a regular file or directory with a trusted owner and group, not group or world
  writable, and a manifest entry has its path, type and mode and, for a file, its size and digest;
  and every manifest entry names a node of the tree.
\<close>

theorem verified_tree_matches_manifest:
  assumes "verify_tree sha (Some base) (VList es) u g = Inr ()" and "wf_tree base"
  shows "list_all (\<lambda>(p, n). plain n \<and> owned u g n \<and> described sha es p n) (walk [] base) \<and>
    list_all (\<lambda>e. list_ex (\<lambda>(p, n). entry_key e = Inr (join ''/'' p, type_name n)) (walk [] base)) es"
  using assms(1)
proof (rule verify_tree_Inr)
  fix expected actual_entries actual
  assume expected: "keyed_entries es = Inr expected"
    and manifest: "tree_manifest sha (Some base) = Inr actual_entries"
    and actual: "keyed_entries actual_entries = Inr actual"
    and keys: "fst ` set actual = fst ` set expected"
    and checked: "\<And>k e. (k, e) \<in> set expected \<Longrightarrow> verify_entry base actual u g (k, e) = Inr ()"
  have node: "plain n \<and> owned u g n \<and> described sha es p n"
    if n: "(p, n) \<in> set (walk [] base)" for p n
  proof -
    obtain a where a: "a \<in> set actual_entries" "manifest_entry sha (p, n) = Inr a"
      using tree_manifest_walk(1) [OF manifest n] by blast
    obtain k where k: "entry_key a = Inr k" "k \<in> fst ` set actual"
      using keyed_dom [OF actual a(1)] by blast
    note entry = manifest_entry_Inr [OF a(2) k(1)]
    obtain e where e: "(k, e) \<in> set expected" using k(2) keys by force
    obtain a' where a': "(k, a') \<in> set actual" using k(2) by force
    then have at: "map_of actual k = Some a'" using keyed_distinct [OF actual] by simp
    obtain p' n' where n': "(p', n') \<in> set (walk [] base)" "manifest_entry sha (p', n') = Inr a'"
      using tree_manifest_walk(2) [OF manifest] keyed_in [OF actual a'] by blast
    have k': "entry_key a' = Inr k" using keyed_in [OF actual a'] by blast
    note entry' = manifest_entry_Inr [OF n'(2) k']
    have "n' = n"
      using snode_at_walk [OF assms(2) n] snode_at_walk [OF assms(2) n'(1)] entry(2) entry'(2) by auto
    then show ?thesis
      using checked [OF e] entry entry' at snode_at_walk [OF assms(2) n] keyed_in [OF expected e]
      by (auto simp: described_def verify_entry_def res_simps verify_path_metadata_Inr Let_def split: if_splits)
  qed
  moreover have "list_ex (\<lambda>(p, n). entry_key e = Inr (join ''/'' p, type_name n)) (walk [] base)"
    if "e \<in> set es" for e
  proof -
    obtain k where k: "entry_key e = Inr k" "k \<in> fst ` set actual" using keyed_dom [OF expected \<open>e \<in> set es\<close>] keys by auto
    then obtain a where a: "(k, a) \<in> set actual" by force
    obtain p n where "(p, n) \<in> set (walk [] base)" "manifest_entry sha (p, n) = Inr a"
      using tree_manifest_walk(2) [OF manifest] keyed_in [OF actual a] by blast
    moreover from this(2) have "k = (join ''/'' p, type_name n)"
      using manifest_entry_Inr(2) keyed_in [OF actual a] by blast
    ultimately show ?thesis using k(1) by (force simp: list_ex_iff)
  qed
  ultimately show ?thesis by (auto simp: list_all_iff)
qed

theorem verified_tree_matches_manifest_witness:
  "\<exists>es. tree_manifest sample_sha (Some sample_dir) = Inr es \<and>
     verify_tree sample_sha (Some sample_dir) (VList es) 7 7 = Inr () \<and>
     list_all (\<lambda>(p, n). plain n \<and> owned 7 7 n \<and> described sample_sha es p n) (walk [] sample_dir) \<and>
     length (walk [] sample_dir) = 3"
proof -
  let ?es = "case tree_manifest sample_sha (Some sample_dir) of Inr es \<Rightarrow> es | Inl e \<Rightarrow> []"
  have es: "tree_manifest sample_sha (Some sample_dir) = Inr ?es"
    by code_simp
  have ok: "verify_tree sample_sha (Some sample_dir) (VList ?es) 7 7 = Inr ()" by code_simp
  have wf: "wf_tree sample_dir" by code_simp
  have "length (walk [] sample_dir) = 3" by code_simp
  then show ?thesis using es ok verified_tree_matches_manifest [OF ok wf] by blast
qed

subsection \<open>A manifest verifies its own tree\<close>

lemma entry_key_manifest:
  assumes "manifest_entry sha (p, n) = Inr e" and "p \<noteq> []" and "\<forall>w \<in> set p. name_ok w"
    and "mode (smeta n) \<le> 4095" and "\<And>b. is_hex64 (sha b)"
  shows "entry_key e = Inr (join ''/'' p, type_name n)"
proof -
  have "split_on (CHR ''/'') (join ''/'' p) = p"
    using assms(2,3) by (intro split_on_join) (auto simp: name_ok_def)
  then have "validate_relative_path (VStr (join ''/'' p)) = Inr (join ''/'' p)"
    using assms(3) by (simp add: validate_relative_path_Inr)
  then show ?thesis
    using assms(1,4,5)
    by (cases n) (auto simp: manifest_entry_def entry_key_def get_or_def rguard_def is_sha256_def)
qed

lemma keyed_entries_total:
  assumes "\<And>e. e \<in> set es \<Longrightarrow> \<exists>k. entry_key e = Inr k"
  shows "\<exists>d. keyed_entries es = Inr d"
proof -
  define key where "key e = (case entry_key e of Inr k \<Rightarrow> k | Inl x \<Rightarrow> ([], []))" for e
  have "rmap (\<lambda>e. rbind (entry_key e) (\<lambda>k. Inr (k, e))) es = Inr (map (\<lambda>e. (key e, e)) es)"
    using assms by (intro rmap_total) (fastforce simp: key_def)
  then show ?thesis by (simp add: keyed_entries_def)
qed

text \<open>
  the manifest a job is staged with verifies the tree it was built from. For a tree whose nodes
  have trusted owners and are not group or world writable, \<^verbatim>\<open>_verify_tree\<close> accepts the entries of
  \<^verbatim>\<open>tree_manifest\<close>.
\<close>

theorem tree_manifest_verifies:
  assumes manifest: "tree_manifest sha (Some base) = Inr es" and wf: "wf_tree base"
    and root: "is_dir (Some base)" "owned u g base"
    and nodes: "\<And>p n. (p, n) \<in> set (walk [] base) \<Longrightarrow> owned u g n \<and> mode (smeta n) \<le> 4095"
    and sha: "\<And>b. is_hex64 (sha b)"
  shows "verify_tree sha (Some base) (VList es) u g = Inr ()"
proof -
  have keys: "entry_key e = Inr (join ''/'' p, type_name n)"
    if "(p, n) \<in> set (walk [] base)" "manifest_entry sha (p, n) = Inr e" for p n e
    using entry_key_manifest [OF that(2)] walk_paths(1) [OF wf that(1)] nodes [OF that(1)] sha by auto
  then have "\<exists>k. entry_key e = Inr k" if "e \<in> set es" for e
    using tree_manifest_walk(2) [OF manifest that] by blast
  then obtain d where d: "keyed_entries es = Inr d" using keyed_entries_total by blast
  have "verify_entry base d u g (k, e) = Inr ()" if ke: "(k, e) \<in> set d" for k e
  proof -
    obtain p n where n: "(p, n) \<in> set (walk [] base)" "manifest_entry sha (p, n) = Inr e"
      using tree_manifest_walk(2) [OF manifest] keyed_in [OF d ke] by blast
    have k: "k = (join ''/'' p, type_name n)" using keys [OF n] keyed_in [OF d ke] by simp
    have "verify_path_metadata (Some n) u g = Inr ()"
      using nodes [OF n(1)] n(2) by (cases n) (auto simp: verify_path_metadata_Inr manifest_entry_def)
    moreover have "map_of d k = Some e" using ke keyed_distinct [OF d] by simp
    ultimately show ?thesis
      using k snode_at_walk [OF wf n(1)] by (cases "type_name n = ''file''") (simp_all add: verify_entry_def Let_def)
  qed
  then have "rmap (verify_entry base d u g) d = Inr (map (\<lambda>_. ()) d)"
    by (intro rmap_total) auto
  moreover have "verify_path_metadata (Some base) u g = Inr ()"
    using root by (cases base) (auto simp: verify_path_metadata_Inr is_dir_def)
  ultimately show ?thesis using manifest d by (simp add: verify_tree_def)
qed

theorem tree_manifest_verifies_witness:
  "\<exists>es. tree_manifest sample_sha (Some sample_dir) = Inr es \<and>
     verify_tree sample_sha (Some sample_dir) (VList es) 7 7 = Inr ()"
proof -
  let ?es = "case tree_manifest sample_sha (Some sample_dir) of Inr es \<Rightarrow> es | Inl e \<Rightarrow> []"
  have es: "tree_manifest sample_sha (Some sample_dir) = Inr ?es" by code_simp
  have nodes: "list_all (\<lambda>(p, n). owned 7 7 n \<and> mode (smeta n) \<le> 4095) (walk [] sample_dir)" by code_simp
  have "is_hex64 (sample_sha b)" for b by (simp add: is_hex64_def sample_sha_def list_all_iff)
  moreover have "wf_tree sample_dir" "is_dir (Some sample_dir)" "owned 7 7 sample_dir" by code_simp+
  ultimately have "verify_tree sample_sha (Some sample_dir) (VList ?es) 7 7 = Inr ()"
    using nodes by (intro tree_manifest_verifies [OF es]) (auto simp: list_all_iff)
  with es show ?thesis by blast
qed

end
