(* ===== verification/Staging_Queue.thy ===== *)
theory Staging_Queue
  imports Staging_Manifest "HOL-Library.Product_Lexorder"
begin

text \<open>
  The staged-job queue of \<^verbatim>\<open>staging.py\<close>: bounded reservations, FIFO ready markers, and the
  single claim of the privileged worker.

  The queue and the active directory are lists of named nodes in directory order. Every public
  operation holds the queue lock, so it is one step on this state; the clock is an argument. The
  unprivileged service may be refused a listing of the active directory (\<open>active_readable\<close>);
  looking up one name there is assumed to be permitted. The lock file itself, fsync and the modes
  of the directories are not represented, nor is an I/O error while a node is looked up.
\<close>

section \<open>Definitions\<close>

subsection \<open>Directories\<close>

text \<open>A regular file has a modification time and its parsed JSON text, if it is JSON of at most 1 MiB.\<close>

datatype qnode = QFile real "pyval option" | QDir | QLink bool | QOther

record queue_state =
  queue :: "qnode dict"
  queue_sequence :: "string option"
  active :: "qnode dict option"
  active_readable :: bool

definition is_plain_directory :: "qnode option \<Rightarrow> bool" where
  "is_plain_directory n = (n = Some QDir)"

text \<open>\<^verbatim>\<open>Path.exists\<close> follows symbolic links.\<close>

definition node_exists :: "qnode option \<Rightarrow> bool" where
  "node_exists n = (case n of None \<Rightarrow> False | Some (QLink b) \<Rightarrow> b | Some m \<Rightarrow> True)"

abbreviation ready_name :: "string \<Rightarrow> string" where "ready_name j \<equiv> j @ ''.ready''"
abbreviation reserve_name :: "string \<Rightarrow> string" where "reserve_name j \<equiv> j @ ''.reserve''"

definition ready_names :: "qnode dict \<Rightarrow> string list" where
  "ready_names q = filter (ends_with ''.ready'') (dkeys q)"

definition reserve_names :: "qnode dict \<Rightarrow> string list" where
  "reserve_names q = filter (ends_with ''.reserve'') (dkeys q)"

definition valid_id :: "string \<Rightarrow> bool" where
  "valid_id j = (case validate_job_id (VStr j) of Inr x \<Rightarrow> True | Inl e \<Rightarrow> False)"

definition remove_staged_path :: "string \<Rightarrow> queue_state \<Rightarrow> queue_state" where
  "remove_staged_path n st = st\<lparr>queue := dpop n (queue st)\<rparr>"

definition active_node :: "queue_state \<Rightarrow> string \<Rightarrow> qnode option" where
  "active_node st n = (case active st of None \<Rightarrow> None | Some a \<Rightarrow> dget a n)"

text \<open>\<^verbatim>\<open>ensure_runtime_layout\<close>: the worker also creates the active directory.\<close>

definition ensure_runtime_layout :: "bool \<Rightarrow> queue_state \<Rightarrow> queue_state" where
  "ensure_runtime_layout for_worker st =
     (if for_worker \<and> active st = None then st\<lparr>active := Some []\<rparr> else st)"

subsection \<open>Control files\<close>

definition read_control :: "qnode option \<Rightarrow> pyval dict res" where
  "read_control n = (case n of
     Some (QFile t (Some (VDict d))) \<Rightarrow> Inr d
   | Some (QFile t (Some v)) \<Rightarrow> Inl (ProvisionError ''staged JSON must be an object'')
   | Some (QFile t None) \<Rightarrow> Inl (ProvisionError ''invalid staged JSON'')
   | Some (QLink b) \<Rightarrow> Inl (ProvisionError ''staged control file must not be a symlink'')
   | Some m \<Rightarrow> Inl (ProvisionError ''staged control file must be a regular file'')
   | None \<Rightarrow> Inl (ProvisionError ''invalid staged JSON''))"

definition control_sequence :: "qnode option \<Rightarrow> int res" where
  "control_sequence n = rbind (read_control n) (\<lambda>d. case get_val d ''sequence'' of
     VInt i \<Rightarrow> (if i \<le> 0 then Inl (ProvisionError ''staged control file missing valid sequence'') else Inr i)
   | _ \<Rightarrow> Inl (ProvisionError ''staged control file missing valid sequence''))"

text \<open>The creation time is kept if it is a number (a bool is an \<^verbatim>\<open>int\<close>), else it is the current time.\<close>

definition reservation_sort_key :: "real \<Rightarrow> qnode option \<Rightarrow> (int \<times> pyval) res" where
  "reservation_sort_key now n = rbind (control_sequence n) (\<lambda>i. rbind (read_control n) (\<lambda>d.
     Inr (i, case get_val d ''created_at'' of
       VInt c \<Rightarrow> VInt c | VFloat c \<Rightarrow> VFloat c | VBool c \<Rightarrow> VBool c | _ \<Rightarrow> VFloat now)))"

definition ready_marker_sort_key :: "string \<Rightarrow> qnode option \<Rightarrow> (int \<times> string) res" where
  "ready_marker_sort_key name n = rbind (control_sequence n) (\<lambda>i. Inr (i, name))"

definition control_file :: "string \<Rightarrow> int \<Rightarrow> pyval \<Rightarrow> pyval" where
  "control_file job_id s created_at =
     VDict [(''job_id'', VStr job_id), (''sequence'', VInt s), (''created_at'', created_at)]"

subsection \<open>Stale reservations\<close>

definition remove_unpublished_job :: "string \<Rightarrow> queue_state \<Rightarrow> queue_state" where
  "remove_unpublished_job j st =
     (if node_exists (dget (queue st) (ready_name j)) \<or> is_plain_directory (active_node st j) then st
      else let st1 = remove_staged_path j st in
        fold remove_staged_path (filter (starts_with (''.'' @ j @ ''.staging.'')) (dkeys (queue st1))) st1)"

definition cleanup_reservation :: "real \<Rightarrow> string \<Rightarrow> queue_state \<Rightarrow> queue_state" where
  "cleanup_reservation deadline n st =
     (let drop_it = (\<lambda>st. let st1 = remove_staged_path n st; j = remove_suffix ''.reserve'' n in
             if valid_id j then remove_unpublished_job j st1 else st1) in
      case dget (queue st) n of
        None \<Rightarrow> st
      | Some (QFile mtime c) \<Rightarrow> (if mtime < deadline then drop_it st else st)
      | Some m \<Rightarrow> drop_it st)"

definition reservation_ttl :: real where "reservation_ttl = 300"

definition cleanup_stale_reservations :: "real \<Rightarrow> queue_state \<Rightarrow> queue_state" where
  "cleanup_stale_reservations now st =
     fold (cleanup_reservation (now - reservation_ttl)) (reserve_names (queue st)) st"

subsection \<open>Counting\<close>

definition active_job_ids :: "string option \<Rightarrow> queue_state \<Rightarrow> string list" where
  "active_job_ids exclude st = (if \<not> active_readable st then [] else case active st of
     None \<Rightarrow> []
   | Some a \<Rightarrow> filter (\<lambda>n. is_plain_directory (dget a n) \<and> Some n \<noteq> exclude) (dkeys a))"

definition queued_job_ids :: "string option \<Rightarrow> qnode dict \<Rightarrow> string list" where
  "queued_job_ids exclude q = filter (\<lambda>n. \<not> starts_with ''.'' n \<and> \<not> ends_with ''.ready'' n \<and>
     \<not> ends_with ''.reserve'' n \<and> is_plain_directory (dget q n) \<and> valid_id n \<and> Some n \<noteq> exclude) (dkeys q)"

definition ready_job_ids :: "string option \<Rightarrow> qnode dict \<Rightarrow> string list" where
  "ready_job_ids exclude q = filter (\<lambda>j. valid_id j \<and> node_exists (dget q j) \<and> Some j \<noteq> exclude)
     (map (remove_suffix ''.ready'') (ready_names q))"

definition reserved_job_ids :: "string option \<Rightarrow> qnode dict \<Rightarrow> string list" where
  "reserved_job_ids exclude q = filter (\<lambda>j. valid_id j \<and> Some j \<noteq> exclude)
     (map (remove_suffix ''.reserve'') (reserve_names q))"

definition count_staged_jobs_locked :: "string option \<Rightarrow> queue_state \<Rightarrow> int" where
  "count_staged_jobs_locked exclude st =
     (let q = queue st; act = active_job_ids exclude st;
          queued = queued_job_ids exclude q; ready = ready_job_ids exclude q in
      (if active st \<noteq> None \<and> \<not> active_readable st then 1 else int (card (set act)))
      + int (card (set queued \<union> set ready))
      + int (length (filter (\<lambda>j. j \<notin> set act \<and> j \<notin> set queued \<and> j \<notin> set ready) (reserved_job_ids exclude q))))"

definition count_staged_jobs :: "real \<Rightarrow> string option \<Rightarrow> queue_state \<Rightarrow> int res \<times> queue_state" where
  "count_staged_jobs now exclude st =
     (case exclude of
        Some j \<Rightarrow> (if \<not> valid_id j then (Inl (ProvisionError ''invalid staged job id''), st)
                  else let st1 = cleanup_stale_reservations now st in (Inr (count_staged_jobs_locked exclude st1), st1))
      | None \<Rightarrow> (let st1 = cleanup_stale_reservations now st in (Inr (count_staged_jobs_locked exclude st1), st1)))"

definition has_staged_jobs :: "real \<Rightarrow> string option \<Rightarrow> queue_state \<Rightarrow> bool res \<times> queue_state" where
  "has_staged_jobs now exclude st = (case count_staged_jobs now exclude st of
     (Inl e, st1) \<Rightarrow> (Inl e, st1) | (Inr n, st1) \<Rightarrow> (Inr (n > 0), st1))"

subsection \<open>Reservations and publication\<close>

text \<open>
  \<^verbatim>\<open>int(text)\<close> on decimal text: an optional sign and digits, single underscores between digits.
\<close>

fun digits_with_underscores :: "bool \<Rightarrow> string \<Rightarrow> string option" where
  "digits_with_underscores prev [] = (if prev then Some [] else None)"
| "digits_with_underscores prev (c # cs) =
     (if is_ascii_digit c then map_option (\<lambda>ds. c # ds) (digits_with_underscores True cs)
      else if c = CHR ''_'' \<and> prev then digits_with_underscores False cs else None)"

definition py_int :: "string \<Rightarrow> int option" where
  "py_int text = (let s = strip text in
     case s of
       [] \<Rightarrow> None
     | c # cs \<Rightarrow>
         (if c = CHR ''-'' then map_option (\<lambda>ds. - int (nat_of_digits ds)) (digits_with_underscores False cs)
          else if c = CHR ''+'' then map_option (\<lambda>ds. int (nat_of_digits ds)) (digits_with_underscores False cs)
          else map_option (\<lambda>ds. int (nat_of_digits ds)) (digits_with_underscores False s)))"

definition next_ready_sequence :: "queue_state \<Rightarrow> (int \<times> queue_state) res" where
  "next_ready_sequence st =
     rbind (case queue_sequence st of
              None \<Rightarrow> Inr 0
            | Some text \<Rightarrow>
                (if length text > 64 then Inl (ProvisionError ''staged control file is too large'')
                 else case py_int (if strip text = [] then ''0'' else strip text) of
                   None \<Rightarrow> Inl (ProvisionError ''invalid staged queue sequence'')
                 | Some i \<Rightarrow> Inr i)) (\<lambda>current.
     Inr (current + 1, st\<lparr>queue_sequence := Some (string_of_int (current + 1) @ [CHR 0x0A])\<rparr>))"

definition reserve_staged_job_slot ::
  "real \<Rightarrow> string \<Rightarrow> int \<Rightarrow> queue_state \<Rightarrow> bool res \<times> queue_state" where
  "reserve_staged_job_slot now j max_jobs st =
     (if \<not> valid_id j then (Inl (ProvisionError ''invalid staged job id''), st)
      else let st1 = cleanup_stale_reservations now st in
        if count_staged_jobs_locked None st1 \<ge> max_jobs then (Inr False, st1)
        else case next_ready_sequence st1 of
          Inl e \<Rightarrow> (Inl e, st1)
        | Inr (s, st2) \<Rightarrow>
            (if dget (queue st2) (reserve_name j) \<noteq> None
             then (Inl (ProvisionError ''staged job reservation already exists''), st2)
             else (Inr True, st2\<lparr>queue := dset (reserve_name j)
                     (QFile now (Some (control_file j s (VFloat now)))) (queue st2)\<rparr>)))"

definition publish_ready_marker :: "real \<Rightarrow> string \<Rightarrow> queue_state \<Rightarrow> unit res \<times> queue_state" where
  "publish_ready_marker now j st =
     (if \<not> valid_id j then (Inl (ProvisionError ''invalid staged job id''), st)
      else let st1 = cleanup_stale_reservations now st; q = queue st1 in
        case dget q (reserve_name j) of
          None \<Rightarrow> (Inl (ProvisionError ''staged job reservation is missing''), st1)
        | Some n \<Rightarrow>
            (case reservation_sort_key now (Some n) of
               Inl e \<Rightarrow> (Inl e, st1)
             | Inr (s, created_at) \<Rightarrow>
                 (if dget q (ready_name j) = Some QDir then (Inl (OSErr ''EISDIR''), st1)
                  else (Inr (), st1\<lparr>queue := dpop (reserve_name j)
                        (dset (ready_name j) (QFile now (Some (control_file j s created_at))) q)\<rparr>))))"

definition release_staged_job_slot :: "string \<Rightarrow> queue_state \<Rightarrow> unit res \<times> queue_state" where
  "release_staged_job_slot j st =
     (if \<not> valid_id j then (Inl (ProvisionError ''invalid staged job id''), st)
      else if dget (queue st) (reserve_name j) = Some QDir then (Inl (OSErr ''EISDIR''), st)
      else (Inr (), remove_staged_path (reserve_name j) st))"

definition refresh_staged_job_slot :: "real \<Rightarrow> string \<Rightarrow> queue_state \<Rightarrow> unit res \<times> queue_state" where
  "refresh_staged_job_slot now j st =
     (if \<not> valid_id j then (Inl (ProvisionError ''invalid staged job id''), st)
      else case dget (queue st) (reserve_name j) of
        Some (QFile t c) \<Rightarrow> (Inr (), st\<lparr>queue := dset (reserve_name j) (QFile now c) (queue st)\<rparr>)
      | _ \<Rightarrow> (Inr (), st))"

subsection \<open>Claiming in FIFO order\<close>

definition control_names :: "qnode dict \<Rightarrow> string list" where
  "control_names q = reserve_names q @ ready_names q"

fun has_lower_sequence_loop :: "int \<Rightarrow> string list \<Rightarrow> queue_state \<Rightarrow> bool \<times> queue_state" where
  "has_lower_sequence_loop s [] st = (False, st)"
| "has_lower_sequence_loop s (n # ns) st =
     (case control_sequence (dget (queue st) n) of
        Inl e \<Rightarrow> has_lower_sequence_loop s ns (remove_staged_path n st)
      | Inr i \<Rightarrow> (if i < s then (True, st) else has_lower_sequence_loop s ns st))"

definition has_lower_sequence :: "int \<Rightarrow> queue_state \<Rightarrow> bool \<times> queue_state" where
  "has_lower_sequence s st = has_lower_sequence_loop s (control_names (queue st)) st"

definition ready_sequence_for_job :: "string \<Rightarrow> queue_state \<Rightarrow> int option" where
  "ready_sequence_for_job j st = (case control_sequence (dget (queue st) (ready_name j)) of
     Inr i \<Rightarrow> Some i
   | Inl e \<Rightarrow> (case control_sequence (dget (queue st) (reserve_name j)) of Inr i \<Rightarrow> Some i | Inl e \<Rightarrow> None))"

definition any_active :: "queue_state \<Rightarrow> bool" where
  "any_active st = (case active st of None \<Rightarrow> False
     | Some a \<Rightarrow> list_ex (\<lambda>n. is_plain_directory (dget a n)) (dkeys a))"

definition staged_job_waiting_for_turn :: "real \<Rightarrow> string \<Rightarrow> queue_state \<Rightarrow> bool res \<times> queue_state" where
  "staged_job_waiting_for_turn now j st =
     (if \<not> valid_id j then (Inl (ProvisionError ''invalid staged job id''), st)
      else let st1 = cleanup_stale_reservations now st in
        if active st1 \<noteq> None \<and> \<not> active_readable st1 then (Inl (OSErr ''EACCES''), st1)
        else if any_active st1 then (Inr True, st1)
        else case ready_sequence_for_job j st1 of
          None \<Rightarrow> (Inr False, st1)
        | Some s \<Rightarrow> (case has_lower_sequence s st1 of (b, st2) \<Rightarrow> (Inr b, st2)))"

fun collect_ready :: "string list \<Rightarrow> queue_state \<Rightarrow> ((int \<times> string) \<times> string) list \<times> queue_state" where
  "collect_ready [] st = ([], st)"
| "collect_ready (n # ns) st =
     (case ready_marker_sort_key n (dget (queue st) n) of
        Inr key \<Rightarrow>
          (if valid_id (remove_suffix ''.ready'' n)
           then (case collect_ready ns st of (ms, st1) \<Rightarrow> ((key, n) # ms, st1))
           else collect_ready ns (remove_staged_path n st))
      | Inl e \<Rightarrow> collect_ready ns (remove_staged_path n st))"

text \<open>\<^verbatim>\<open>os.replace(queue/job, active/job)\<close> of a directory.\<close>

definition move_to_active :: "string \<Rightarrow> queue_state \<Rightarrow> queue_state res" where
  "move_to_active j st = (case active_node st j of
     None \<Rightarrow> Inr (st\<lparr>queue := dpop j (queue st), active := Some (dset j QDir (case active st of None \<Rightarrow> [] | Some a \<Rightarrow> a))\<rparr>)
   | Some QDir \<Rightarrow> Inl (OSErr ''ENOTEMPTY'')
   | Some n \<Rightarrow> Inl (OSErr ''ENOTDIR''))"

fun claim_loop :: "((int \<times> string) \<times> string) list \<Rightarrow> queue_state \<Rightarrow> string option res \<times> queue_state" where
  "claim_loop [] st = (Inr None, st)"
| "claim_loop (((s, nm), ready) # ms) st =
     (case has_lower_sequence s st of (blocked, st1) \<Rightarrow>
        if blocked then (Inr None, st1)
        else let j = remove_suffix ''.ready'' ready in
          case dget (queue st1) j of
            Some QDir \<Rightarrow>
              (case move_to_active j st1 of
                 Inl e \<Rightarrow> (Inl e, st1)
               | Inr st2 \<Rightarrow> (Inr (Some j), remove_staged_path ready st2))
          | _ \<Rightarrow> claim_loop ms (remove_staged_path ready st1))"

definition claim_next_job_locked :: "queue_state \<Rightarrow> string option res \<times> queue_state" where
  "claim_next_job_locked st =
     (if any_active st then (Inr None, st)
      else case collect_ready (sort (ready_names (queue st))) st of (ms, st1) \<Rightarrow> claim_loop (sort ms) st1)"

definition claim_next_job :: "real \<Rightarrow> queue_state \<Rightarrow> string option res \<times> queue_state" where
  "claim_next_job now st =
     claim_next_job_locked (cleanup_stale_reservations now (ensure_runtime_layout True st))"

definition cleanup_claimed_job :: "string \<Rightarrow> queue_state \<Rightarrow> queue_state" where
  "cleanup_claimed_job j st = st\<lparr>active := map_option (\<lambda>a. if dget a j = Some QDir then dpop j a else a) (active st)\<rparr>"

subsection \<open>Presence, abandonment and timeouts\<close>

datatype presence = Queued | Active | Missing

definition job_presence :: "string \<Rightarrow> queue_state \<Rightarrow> presence" where
  "job_presence j st =
     (if is_plain_directory (active_node st j) then Active
      else if is_plain_directory (dget (queue st) j) \<or> node_exists (dget (queue st) (ready_name j)) then Queued
      else Missing)"

definition staged_job_presence :: "string \<Rightarrow> queue_state \<Rightarrow> presence res" where
  "staged_job_presence j st =
     (if \<not> valid_id j then Inl (ProvisionError ''invalid staged job id'') else Inr (job_presence j st))"

definition can_abandon_queued_job :: "string \<Rightarrow> queue_state \<Rightarrow> bool res" where
  "can_abandon_queued_job j st = rbind (staged_job_presence j st) (\<lambda>p. Inr (p = Queued))"

text \<open>\<^verbatim>\<open>rmtree(..., ignore_errors=True)\<close> removes a directory and nothing else.\<close>

definition rmtree_ignore :: "string \<Rightarrow> queue_state \<Rightarrow> queue_state" where
  "rmtree_ignore n st = (if dget (queue st) n = Some QDir then remove_staged_path n st else st)"

definition try_abandon_queued_job :: "string \<Rightarrow> queue_state \<Rightarrow> bool res \<times> queue_state" where
  "try_abandon_queued_job j st =
     (if \<not> valid_id j then (Inl (ProvisionError ''invalid staged job id''), st)
      else if job_presence j st \<noteq> Queued then (Inr False, st)
      else (Inr True, rmtree_ignore j (remove_staged_path (ready_name j) st)))"

definition abandon_queued_job :: "string \<Rightarrow> queue_state \<Rightarrow> unit res \<times> queue_state" where
  "abandon_queued_job j st = (case try_abandon_queued_job j st of
     (Inl e, st1) \<Rightarrow> (Inl e, st1)
   | (Inr True, st1) \<Rightarrow> (Inr (), st1)
   | (Inr False, st1) \<Rightarrow>
       (Inl (ProvisionError ''cannot abandon staged job after privileged apply worker claimed it''), st1))"

datatype timeout_state = WAITING | CLAIMED | ABANDONED | MISSING

text \<open>
  \<^verbatim>\<open>staged_timeout_state\<close> takes the lock four times. What other processes do between two of these
  operations is the parameter \<open>env\<close>: \<open>env 1\<close>, \<open>env 2\<close> and \<open>env 3\<close> are applied in the gaps.
\<close>

definition staged_timeout_state ::
  "(nat \<Rightarrow> queue_state \<Rightarrow> queue_state) \<Rightarrow> real \<Rightarrow> string \<Rightarrow> queue_state \<Rightarrow> timeout_state res \<times> queue_state" where
  "staged_timeout_state env now j st = (case staged_job_presence j st of
     Inl e \<Rightarrow> (Inl e, st)
   | Inr p \<Rightarrow> if p = Active then (Inr CLAIMED, st) else
       (case staged_job_waiting_for_turn now j (env 1 st) of
          (Inl e, st1) \<Rightarrow> (Inl e, st1)
        | (Inr waiting, st1) \<Rightarrow> if waiting then (Inr WAITING, st1) else
            (case try_abandon_queued_job j (env 2 st1) of
               (Inl e, st2) \<Rightarrow> (Inl e, st2)
             | (Inr removed, st2) \<Rightarrow> if removed then (Inr ABANDONED, st2) else
                 (let st3 = env 3 st2 in
                  (Inr (case job_presence j st3 of Active \<Rightarrow> CLAIMED | Queued \<Rightarrow> WAITING | Missing \<Rightarrow> MISSING), st3)))))"

subsection \<open>Runs of the queue\<close>

text \<open>The job directory a publisher renames into the queue before it publishes the ready marker.\<close>

definition stage_job_directory :: "string \<Rightarrow> queue_state \<Rightarrow> queue_state" where
  "stage_job_directory j st = st\<lparr>queue := dset j QDir (queue st)\<rparr>"

inductive queue_step :: "queue_state \<Rightarrow> queue_state \<Rightarrow> bool" where
  step_reserve: "queue_step st (snd (reserve_staged_job_slot now j max_jobs st))"
| step_stage: "valid_id j \<Longrightarrow> queue_step st (stage_job_directory j st)"
| step_refresh: "queue_step st (snd (refresh_staged_job_slot now j st))"
| step_publish: "queue_step st (snd (publish_ready_marker now j st))"
| step_release: "queue_step st (snd (release_staged_job_slot j st))"
| step_count: "queue_step st (snd (count_staged_jobs now exclude st))"
| step_waiting: "queue_step st (snd (staged_job_waiting_for_turn now j st))"
| step_claim: "queue_step st (snd (claim_next_job now st))"
| step_finish: "queue_step st (cleanup_claimed_job j st)"
| step_abandon: "queue_step st (snd (try_abandon_queued_job j st))"

definition empty_queue :: queue_state where
  "empty_queue = \<lparr>queue = [], queue_sequence = None, active = None, active_readable = True\<rparr>"

definition queue_reachable :: "queue_state \<Rightarrow> bool" where
  "queue_reachable st = queue_step\<^sup>*\<^sup>* empty_queue st"

text \<open>The value of the sequence file, and the claimed jobs.\<close>

definition counter :: "queue_state \<Rightarrow> int" where
  "counter st = (case queue_sequence st of None \<Rightarrow> 0
     | Some text \<Rightarrow> (case py_int text of None \<Rightarrow> 0 | Some i \<Rightarrow> i))"

definition claimed_jobs :: "queue_state \<Rightarrow> string set" where
  "claimed_jobs st = {n. active_node st n = Some QDir}"

definition sequences_ok :: "queue_state \<Rightarrow> bool" where
  "sequences_ok st = ((\<forall>text. queue_sequence st = Some text \<longrightarrow> (\<exists>i \<ge> 0. text = string_of_int i @ [CHR 0x0A])) \<and>
     (\<forall>n i. n \<in> set (control_names (queue st)) \<and> control_sequence (dget (queue st) n) = Inr i \<longrightarrow> i \<le> counter st))"

text \<open>An operation that only removes queue entries.\<close>

definition shrinks :: "queue_state \<Rightarrow> queue_state \<Rightarrow> bool" where
  "shrinks st st' = (active st' = active st \<and> queue_sequence st' = queue_sequence st \<and>
     active_readable st' = active_readable st \<and>
     (\<forall>n. dget (queue st') n = dget (queue st) n \<or> dget (queue st') n = None))"

text \<open>The control files a claim may drop: malformed ones, and ready markers without a job directory.\<close>

definition droppable :: "qnode dict \<Rightarrow> string \<Rightarrow> bool" where
  "droppable q n = ((ends_with ''.ready'' n \<or> ends_with ''.reserve'' n) \<and>
     (isl (control_sequence (dget q n)) \<or>
      ends_with ''.ready'' n \<and> (\<not> valid_id (remove_suffix ''.ready'' n) \<or> dget q (remove_suffix ''.ready'' n) \<noteq> Some QDir)))"

text \<open>A queue with two published jobs, listed out of order.\<close>

definition fifo_sample :: queue_state where
  "fifo_sample = \<lparr>queue = [(''b'', QDir), (''b.ready'', QFile 0 (Some (control_file ''b'' 2 (VInt 0)))),
       (''a'', QDir), (''a.ready'', QFile 0 (Some (control_file ''a'' 1 (VInt 0))))],
     queue_sequence = None, active = Some [], active_readable = True\<rparr>"

section \<open>Theorems\<close>

subsection \<open>Names and removals\<close>

lemma valid_id_iff: "valid_id j \<longleftrightarrow> validate_job_id (VStr j) = Inr j"
proof
  assume "valid_id j"
  then obtain x where x: "validate_job_id (VStr j) = Inr x" by (auto simp: valid_id_def split: sum.splits)
  then have "x = j" by (simp add: validate_job_id_Inr)
  with x show "validate_job_id (VStr j) = Inr j" by simp
qed (simp add: valid_id_def)

lemma valid_id_not_control: "valid_id j \<Longrightarrow> \<not> ends_with ''.ready'' j \<and> \<not> ends_with ''.reserve'' j"
  by (simp add: valid_id_iff validate_job_id_Inr)

lemma remove_suffix_append [simp]: "remove_suffix p (s @ p) = s"
  by (simp add: remove_suffix_def)

lemma ends_with_iff: "ends_with p s \<longleftrightarrow> (\<exists>r. s = r @ p)"
  by (auto simp: ends_with_def) (metis append_take_drop_id)

lemma ready_not_reserve [simp]: "\<not> ends_with ''.reserve'' (ready_name j)" "\<not> ends_with ''.ready'' (reserve_name j)"
proof -
  have "rev (ready_name j) \<noteq> rev (r @ ''.reserve'')" "rev (reserve_name j) \<noteq> rev (r @ ''.ready'')" for r
    by simp_all
  then show "\<not> ends_with ''.reserve'' (ready_name j)" "\<not> ends_with ''.ready'' (reserve_name j)"
    unfolding ends_with_iff by metis+
qed

lemma control_names_iff:
  "n \<in> set (control_names q) \<longleftrightarrow> (ends_with ''.ready'' n \<or> ends_with ''.reserve'' n) \<and> dget q n \<noteq> None"
  by (auto simp: control_names_def ready_names_def reserve_names_def map_of_eq_None_iff)

lemma shrinks_refl [simp]: "shrinks st st"
  by (simp add: shrinks_def)

lemma shrinks_trans: "shrinks a b \<Longrightarrow> shrinks b c \<Longrightarrow> shrinks a c"
  unfolding shrinks_def by metis

lemma shrinks_remove [simp]: "shrinks st (remove_staged_path n st)"
  by (simp add: shrinks_def remove_staged_path_def)

lemma shrinks_fold: "(\<And>x st. shrinks st (f x st)) \<Longrightarrow> shrinks st (fold f xs st)"
  by (induction xs arbitrary: st) (auto intro: shrinks_trans)

lemma shrinks_unpublished [simp]: "shrinks st (remove_unpublished_job j st)"
  by (auto simp: remove_unpublished_job_def Let_def intro: shrinks_trans shrinks_remove shrinks_fold)

lemma shrinks_reservation [simp]: "shrinks st (cleanup_reservation t n st)"
  using shrinks_trans [OF shrinks_remove shrinks_unpublished]
  by (auto simp: cleanup_reservation_def Let_def split: option.split qnode.split)

lemma shrinks_cleanup [simp]: "shrinks st (cleanup_stale_reservations now st)"
  by (simp add: cleanup_stale_reservations_def shrinks_fold)

lemma shrinks_lower: "has_lower_sequence_loop s ns st = (b, st1) \<Longrightarrow> shrinks st st1"
proof (induction s ns st rule: has_lower_sequence_loop.induct)
  case (2 s n ns st)
  then show ?case
    by (auto split: sum.splits if_splits intro: shrinks_trans [OF shrinks_remove])
qed simp

lemma shrinks_collect: "collect_ready ns st = (ms, st1) \<Longrightarrow> shrinks st st1"
proof (induction ns st arbitrary: ms st1 rule: collect_ready.induct)
  case (2 n ns st)
  then show ?case
    by (auto split: sum.splits if_splits prod.splits intro: shrinks_trans [OF shrinks_remove])
qed simp

lemma control_sequence_None [simp]: "control_sequence None = Inl (ProvisionError ''invalid staged JSON'')"
  by (simp add: control_sequence_def read_control_def)

lemma shrinks_sequences: "shrinks st st1 \<Longrightarrow> sequences_ok st \<Longrightarrow> sequences_ok st1"
  unfolding shrinks_def sequences_ok_def counter_def control_names_iff
  by (auto) (metis control_sequence_None sum.distinct(1))+

subsection \<open>FIFO claims\<close>

lemma lower_False:
  "has_lower_sequence_loop s ns st = (False, st1) \<Longrightarrow>
     (\<forall>n. dget (queue st1) n =
        (if n \<in> set ns \<and> isl (control_sequence (dget (queue st) n)) then None else dget (queue st) n)) \<and>
     (\<forall>n \<in> set ns. \<forall>i. control_sequence (dget (queue st) n) = Inr i \<longrightarrow> s \<le> i)"
proof (induction s ns st arbitrary: st1 rule: has_lower_sequence_loop.induct)
  case (2 s n ns st)
  show ?case
  proof (cases "control_sequence (dget (queue st) n)")
    case (Inl e)
    have "has_lower_sequence_loop s ns (remove_staged_path n st) = (False, st1)" using 2(3) Inl by simp
    from 2(1) [OF Inl this] show ?thesis
      using Inl by (auto simp: remove_staged_path_def split: if_splits)
  next
    case (Inr i)
    then have "\<not> i < s" "has_lower_sequence_loop s ns st = (False, st1)" using 2(3) by (auto split: if_splits)
    from 2(2) [OF Inr this] this show ?thesis using Inr by auto
  qed
qed simp

lemma has_lower_sequence_False:
  assumes "has_lower_sequence s st = (False, st1)"
  shows "\<And>n. dget (queue st1) n = dget (queue st) n \<or> dget (queue st1) n = None \<and> droppable (queue st) n"
    and "\<And>n i. n \<in> set (control_names (queue st)) \<Longrightarrow> control_sequence (dget (queue st) n) = Inr i \<Longrightarrow> s \<le> i"
    and "shrinks st st1"
  using lower_False [OF assms [unfolded has_lower_sequence_def]] shrinks_lower [OF assms [unfolded has_lower_sequence_def]]
  by (auto simp: droppable_def control_names_iff)

lemma collect_ready_props:
  "collect_ready ns st = (ms, st1) \<Longrightarrow> (\<And>n. n \<in> set ns \<Longrightarrow> ends_with ''.ready'' n) \<Longrightarrow>
     (\<forall>((s, nm), r) \<in> set ms. r \<in> set ns \<and> valid_id (remove_suffix ''.ready'' r) \<and>
        control_sequence (dget (queue st) r) = Inr s) \<and>
     (\<forall>n. dget (queue st1) n = dget (queue st) n \<or> dget (queue st1) n = None \<and> droppable (queue st) n)"
proof (induction ns st arbitrary: ms st1 rule: collect_ready.induct)
  case (2 n ns st)
  have drop: ?case if bad: "droppable (queue st) n" and run: "collect_ready ns (remove_staged_path n st) = (ms, st1)"
    and IH: "(\<forall>((s, nm), r) \<in> set ms. r \<in> set ns \<and> valid_id (remove_suffix ''.ready'' r) \<and>
        control_sequence (dget (queue (remove_staged_path n st)) r) = Inr s) \<and>
     (\<forall>k. dget (queue st1) k = dget (queue (remove_staged_path n st)) k \<or>
        dget (queue st1) k = None \<and> droppable (queue (remove_staged_path n st)) k)"
  proof -
    have "droppable (queue st) k" if "droppable (queue (remove_staged_path n st)) k" "k \<noteq> n" for k
    proof -
      have "remove_suffix ''.ready'' k = n \<Longrightarrow> \<not> valid_id (remove_suffix ''.ready'' k)"
        using 2(5) [of n] valid_id_not_control by auto
      with that show ?thesis by (auto simp: droppable_def remove_staged_path_def split: if_splits)
    qed
    with IH bad show ?thesis by (fastforce simp: remove_staged_path_def split: if_splits)
  qed
  have sub: "k \<in> set ns \<Longrightarrow> ends_with ''.ready'' k" for k using 2(5) by simp
  show ?case
  proof (cases "ready_marker_sort_key n (dget (queue st) n)")
    case (Inl e)
    then have run: "collect_ready ns (remove_staged_path n st) = (ms, st1)" using 2(4) by simp
    have "isl (control_sequence (dget (queue st) n))" using Inl by (auto simp: ready_marker_sort_key_def res_simps)
    then show ?thesis using drop [OF _ run 2(1) [OF Inl run sub]] 2(5) [of n] by (simp add: droppable_def)
  next
    case (Inr key)
    show ?thesis
    proof (cases "valid_id (remove_suffix ''.ready'' n)")
      case False
      then have run: "collect_ready ns (remove_staged_path n st) = (ms, st1)" using 2(4) Inr by simp
      then show ?thesis
        using drop [OF _ run 2(3) [OF Inr False run sub]] 2(5) [of n] False by (simp add: droppable_def)
    next
      case True
      then obtain ms' where run: "collect_ready ns st = (ms', st1)" "ms = (key, n) # ms'"
        using 2(4) Inr by (auto split: prod.splits)
      from 2(2) [OF Inr True run(1) sub] True run(2) Inr show ?thesis
        by (auto simp: ready_marker_sort_key_def res_simps)
    qed
  qed
qed simp

lemma droppable_not_valid: "valid_id j \<Longrightarrow> \<not> droppable q j"
  using valid_id_not_control by (simp add: droppable_def)

lemma claim_loop_Some:
  assumes "claim_loop ms st = (Inr (Some j), st')"
    and "\<And>s nm r. ((s, nm), r) \<in> set ms \<Longrightarrow> ends_with ''.ready'' r \<and> valid_id (remove_suffix ''.ready'' r)"
  shows "\<exists>s nm. ((s, nm), ready_name j) \<in> set ms \<and> dget (queue st) j = Some QDir \<and> active_node st j = None \<and>
    (\<forall>n i. n \<in> set (control_names (queue st)) \<and> control_sequence (dget (queue st) n) = Inr i \<and>
       \<not> droppable (queue st) n \<longrightarrow> s \<le> i) \<and>
    dget (queue st') j = None \<and> dget (queue st') (ready_name j) = None \<and>
    active st' = Some (dset j QDir (case active st of None \<Rightarrow> [] | Some a \<Rightarrow> a)) \<and>
    queue_sequence st' = queue_sequence st \<and>
    (\<forall>n. dget (queue st') n = dget (queue st) n \<or> dget (queue st') n = None)"
  using assms
proof (induction ms arbitrary: st)
  case (Cons m ms)
  obtain s nm r where m: "m = ((s, nm), r)" by (metis surj_pair)
  obtain b st1 where low: "has_lower_sequence s st = (b, st1)" by fastforce
  have b: "b = False" using Cons.prems(1) low by (cases b) (simp_all add: m)
  note lower = has_lower_sequence_False [OF low [unfolded b]]
  let ?j = "remove_suffix ''.ready'' r"
  have valid: "valid_id ?j" and r: "r = ready_name ?j"
    using Cons.prems(2) [of s nm r] by (auto simp: m ends_with_iff)
  have keep: "dget (queue st1) k = dget (queue st) k" if "\<not> droppable (queue st) k" for k
    using lower(1) [of k] that by blast
  have job: "dget (queue st1) ?j = dget (queue st) ?j"
    using keep droppable_not_valid [OF valid] by blast
  show ?case
  proof (cases "dget (queue st1) ?j = Some QDir")
    case True
    then obtain st2 where move: "move_to_active ?j st1 = Inr st2" and j: "j = ?j" and st': "st' = remove_staged_path r st2"
      using Cons.prems(1) low b by (auto simp: m Let_def split: sum.splits)
    have none: "active_node st1 ?j = None" and st2: "st2 = st1\<lparr>queue := dpop ?j (queue st1),
        active := Some (dset ?j QDir (case active st1 of None \<Rightarrow> [] | Some a \<Rightarrow> a))\<rparr>"
      using move by (auto simp: move_to_active_def split: option.splits qnode.splits)
    have same: "active st1 = active st" "queue_sequence st1 = queue_sequence st" using lower(3) by (auto simp: shrinks_def)
    have "dget (queue st') n = dget (queue st) n \<or> dget (queue st') n = None" for n
      using lower(1) [of n] by (auto simp: st' st2 remove_staged_path_def)
    then show ?thesis
      using True job none same lower(2) r
      by (intro exI [of _ s] exI [of _ nm]) (auto simp: m j st' st2 remove_staged_path_def active_node_def)
  next
    case False
    let ?st2 = "remove_staged_path r st1"
    have rd: "droppable (queue st) r"
      using False job r valid ends_with_append [of "''.ready''" ?j] by (simp add: droppable_def)
    have run: "claim_loop ms ?st2 = (Inr (Some j), st')"
      using Cons.prems(1) low b False by (auto simp: m Let_def split: option.splits qnode.splits)
    have valid_ms: "ends_with ''.ready'' r' \<and> valid_id (remove_suffix ''.ready'' r')" if "((s', nm'), r') \<in> set ms" for s' nm' r'
      using Cons.prems(2) [of s' nm' r'] that by simp
    obtain s' nm' where IH: "((s', nm'), ready_name j) \<in> set ms" "dget (queue ?st2) j = Some QDir" "active_node ?st2 j = None"
      "\<And>n i. n \<in> set (control_names (queue ?st2)) \<Longrightarrow> control_sequence (dget (queue ?st2) n) = Inr i \<Longrightarrow>
         \<not> droppable (queue ?st2) n \<Longrightarrow> s' \<le> i"
      "dget (queue st') j = None" "dget (queue st') (ready_name j) = None"
      "active st' = Some (dset j QDir (case active ?st2 of None \<Rightarrow> [] | Some a \<Rightarrow> a))"
      "queue_sequence st' = queue_sequence ?st2"
      "\<And>n. dget (queue st') n = dget (queue ?st2) n \<or> dget (queue st') n = None"
      using Cons.IH [OF run] valid_ms by blast
    have same: "active ?st2 = active st" "queue_sequence ?st2 = queue_sequence st" "shrinks st ?st2"
      using lower(3) shrinks_trans [OF lower(3) shrinks_remove] by (auto simp: shrinks_def remove_staged_path_def)
    have keep2: "dget (queue ?st2) k = dget (queue st) k" if "\<not> droppable (queue st) k" for k
      using keep [OF that] that rd by (auto simp: remove_staged_path_def)
    have "s' \<le> i" if n: "n \<in> set (control_names (queue st))" "control_sequence (dget (queue st) n) = Inr i"
      "\<not> droppable (queue st) n" for n i
    proof (rule IH(4))
      show "n \<in> set (control_names (queue ?st2))" "control_sequence (dget (queue ?st2) n) = Inr i"
        using n keep2 [OF n(3)] by (auto simp: control_names_iff)
      have "valid_id k \<Longrightarrow> dget (queue ?st2) k = dget (queue st) k" for k
        using keep2 droppable_not_valid by blast
      then show "\<not> droppable (queue ?st2) n"
        using n keep2 [OF n(3)] by (auto simp: droppable_def)
    qed
    moreover have "dget (queue st) j = Some QDir" using IH(2) same(3) unfolding shrinks_def by (metis option.distinct(1))
    moreover have "dget (queue st') n = dget (queue st) n \<or> dget (queue st') n = None" for n
      using IH(9) [of n] same(3) unfolding shrinks_def by metis
    ultimately show ?thesis
      using IH same(1,2) by (intro exI [of _ s'] exI [of _ nm']) (auto simp: m active_node_def)
  qed
qed simp

lemma claim_locked_Some:
  assumes "claim_next_job_locked st = (Inr (Some j), st')"
  shows "\<not> any_active st \<and> valid_id j \<and> dget (queue st) j = Some QDir \<and>
    (\<exists>s. control_sequence (dget (queue st) (ready_name j)) = Inr s \<and>
       (\<forall>n i. control_sequence (dget (queue st) n) = Inr i \<and>
          (ends_with ''.reserve'' n \<or>
           (\<exists>k. n = ready_name k \<and> valid_id k \<and> dget (queue st) k = Some QDir)) \<longrightarrow> s \<le> i)) \<and>
    active st' = Some (dset j QDir (case active st of None \<Rightarrow> [] | Some a \<Rightarrow> a)) \<and>
    dget (queue st') j = None \<and> dget (queue st') (ready_name j) = None \<and>
    queue_sequence st' = queue_sequence st \<and> (\<forall>n. dget (queue st') n = dget (queue st) n \<or> dget (queue st') n = None)"
proof -
  obtain ms st1 where col: "collect_ready (sort (ready_names (queue st))) st = (ms, st1)" by fastforce
  with assms have idle: "\<not> any_active st" and loop: "claim_loop (sort ms) st1 = (Inr (Some j), st')"
    by (auto simp: claim_next_job_locked_def split: if_splits)
  have ready: "n \<in> set (sort (ready_names (queue st))) \<Longrightarrow> ends_with ''.ready'' n" for n
    by (simp add: ready_names_def)
  note c = collect_ready_props [OF col ready]
  have ms: "ends_with ''.ready'' r \<and> valid_id (remove_suffix ''.ready'' r)" if "((s, nm), r) \<in> set (sort ms)" for s nm r
    using c that ready by fastforce
  obtain s nm where cl: "((s, nm), ready_name j) \<in> set (sort ms)" "dget (queue st1) j = Some QDir"
    "\<forall>n i. n \<in> set (control_names (queue st1)) \<and> control_sequence (dget (queue st1) n) = Inr i \<and>
       \<not> droppable (queue st1) n \<longrightarrow> s \<le> i"
    "dget (queue st') j = None" "dget (queue st') (ready_name j) = None"
    "active st' = Some (dset j QDir (case active st1 of None \<Rightarrow> [] | Some a \<Rightarrow> a))"
    "queue_sequence st' = queue_sequence st1" "\<forall>n. dget (queue st') n = dget (queue st1) n \<or> dget (queue st') n = None"
    using claim_loop_Some [OF loop] ms by blast
  have seq: "control_sequence (dget (queue st) (ready_name j)) = Inr s" "valid_id j" using c cl(1) by fastforce+
  have keep: "dget (queue st1) k = dget (queue st) k" if "\<not> droppable (queue st) k" for k
    using c that by blast
  have job: "valid_id k \<Longrightarrow> dget (queue st1) k = dget (queue st) k" for k
    using keep droppable_not_valid by blast
  have least: "s \<le> i" if n: "control_sequence (dget (queue st) n) = Inr i"
      "ends_with ''.reserve'' n \<or> (\<exists>k. n = ready_name k \<and> valid_id k \<and> dget (queue st) k = Some QDir)" for n i
  proof -
    have nd: "\<not> droppable (queue st) n"
      using n ready_not_reserve by (auto simp: droppable_def ends_with_iff)
    have "\<not> droppable (queue st1) n"
      using n keep [OF nd] job ready_not_reserve by (auto simp: droppable_def ends_with_iff)
    moreover have "n \<in> set (control_names (queue st1))"
      using n keep [OF nd] by (cases "dget (queue st) n") (auto simp: control_names_iff)
    ultimately show ?thesis using cl(3) keep [OF nd] n(1) by metis
  qed
  have same: "active st1 = active st" "queue_sequence st1 = queue_sequence st"
    "\<And>n. dget (queue st1) n = dget (queue st) n \<or> dget (queue st1) n = None"
    using shrinks_collect [OF col] by (simp_all add: shrinks_def)
  have "dget (queue st') n = dget (queue st) n \<or> dget (queue st') n = None" for n
    using cl(8) same(3) [of n] by metis
  then show ?thesis using idle seq least cl same(1,2) job [OF seq(2)] by auto
qed

text \<open>
  C5: claims are first in, first out, and exclusive. When the worker claims a job, no job was claimed;
  the job's directory is the only thing added to the active directory and leaves the queue with its
  ready marker; and its sequence number is the least of all reservations and of all ready markers with
  a job directory, so an earlier reservation that is still being prepared holds it back.
\<close>

theorem claim_is_fifo:
  assumes "claim_next_job_locked st = (Inr (Some j), st')"
  shows "\<not> any_active st \<and> valid_id j \<and> dget (queue st) j = Some QDir \<and>
    (\<exists>s. control_sequence (dget (queue st) (ready_name j)) = Inr s \<and>
       (\<forall>n i. control_sequence (dget (queue st) n) = Inr i \<and>
          (ends_with ''.reserve'' n \<or>
           (\<exists>k. n = ready_name k \<and> valid_id k \<and> dget (queue st) k = Some QDir)) \<longrightarrow> s \<le> i)) \<and>
    active st' = Some (dset j QDir (case active st of None \<Rightarrow> [] | Some a \<Rightarrow> a)) \<and>
    dget (queue st') j = None \<and> dget (queue st') (ready_name j) = None"
  using claim_locked_Some [OF assms] by simp

theorem claim_is_fifo_witness:
  "\<exists>st'. claim_next_job_locked fifo_sample = (Inr (Some ''a''), st') \<and> dget (queue st') ''a'' = None"
proof -
  have "fst (claim_next_job_locked fifo_sample) = Inr (Some ''a'')" by code_simp
  then obtain st' where run: "claim_next_job_locked fifo_sample = (Inr (Some ''a''), st')" by (cases "claim_next_job_locked fifo_sample") auto
  from run claim_is_fifo [OF run] show ?thesis by blast
qed

subsection \<open>Capacity\<close>

lemma reserve_file_lists:
  fixes f :: qnode
  assumes "dget q (reserve_name j) = None" "valid_id j"
  defines "q' \<equiv> dset (reserve_name j) f q"
  shows "ready_job_ids x q' = ready_job_ids x q" "queued_job_ids x q' = queued_job_ids x q"
    "reserved_job_ids x q' = reserved_job_ids x q @ (if Some j \<noteq> x then [j] else [])"
proof -
  have keys: "dkeys q' = dkeys q @ [reserve_name j]"
    using assms(1) by (simp add: q'_def AList.update_keys map_of_eq_None_iff)
  have dget: "dget q' n = dget q n" if "valid_id n" for n
    using valid_id_not_control [OF that] by (auto simp: q'_def)
  have dget': "dget q' n = dget q n" if "\<not> ends_with ''.reserve'' n" for n
    using that by (auto simp: q'_def)
  have ready: "ready_names q' = ready_names q" by (simp add: ready_names_def keys)
  show "ready_job_ids x q' = ready_job_ids x q"
    unfolding ready_job_ids_def ready by (rule filter_cong) (auto simp: dget)
  show "queued_job_ids x q' = queued_job_ids x q"
    unfolding queued_job_ids_def keys by (auto simp: dget' intro!: filter_cong)
  show "reserved_job_ids x q' = reserved_job_ids x q @ (if Some j \<noteq> x then [j] else [])"
    using assms(2) by (simp add: reserved_job_ids_def reserve_names_def keys)
qed

lemma next_ready_sequence_Inr:
  "next_ready_sequence st = Inr (s, st1) \<Longrightarrow>
     st1 = st\<lparr>queue_sequence := Some (string_of_int s @ [CHR 0x0A])\<rparr>"
  by (auto simp: next_ready_sequence_def res_simps)

lemma count_after_reserve:
  assumes "dget (queue st) (reserve_name j) = None" "valid_id j"
  shows "count_staged_jobs_locked None (st\<lparr>queue := dset (reserve_name j) f (queue st)\<rparr>) \<le>
    count_staged_jobs_locked None st + 1"
  by (simp add: count_staged_jobs_locked_def Let_def reserve_file_lists [OF assms] active_job_ids_def)

text \<open>
  C7: the queue is bounded. A reservation is granted only while fewer than \<^verbatim>\<open>max_jobs\<close> active, queued
  and reserved jobs are counted, and after it at most \<^verbatim>\<open>max_jobs\<close> are; the granted slot holds the
  job's reservation. When the queue is full the request is refused and only stale reservations go.
\<close>

theorem reservation_capacity:
  assumes "reserve_staged_job_slot now j max_jobs st = (Inr granted, st')"
  shows "if granted
    then count_staged_jobs_locked None (cleanup_stale_reservations now st) < max_jobs \<and>
      count_staged_jobs_locked None st' \<le> max_jobs \<and> j \<in> set (reserved_job_ids None (queue st'))
    else max_jobs \<le> count_staged_jobs_locked None st' \<and> st' = cleanup_stale_reservations now st"
proof -
  let ?st1 = "cleanup_stale_reservations now st"
  have valid: "valid_id j" using assms by (auto simp: reserve_staged_job_slot_def split: if_splits)
  show ?thesis
  proof (cases "max_jobs \<le> count_staged_jobs_locked None ?st1")
    case True
    then show ?thesis using assms valid by (auto simp: reserve_staged_job_slot_def)
  next
    case False
    then obtain s st2 where seq: "next_ready_sequence ?st1 = Inr (s, st2)"
      and free: "dget (queue st2) (reserve_name j) = None" and g: granted
      and st': "st' = st2\<lparr>queue := dset (reserve_name j) (QFile now (Some (control_file j s (VFloat now)))) (queue st2)\<rparr>"
      using assms valid by (auto simp: reserve_staged_job_slot_def Let_def split: sum.splits if_splits)
    have "count_staged_jobs_locked None st2 = count_staged_jobs_locked None ?st1"
      using next_ready_sequence_Inr [OF seq] by (simp add: count_staged_jobs_locked_def active_job_ids_def)
    then show ?thesis
      using False g reserve_file_lists(3) [OF free valid]
        count_after_reserve [OF free valid, of "QFile now (Some (control_file j s (VFloat now)))"] by (auto simp: st')
  qed
qed

theorem reservation_capacity_witness:
  "\<exists>st'. reserve_staged_job_slot 10 ''c'' 3 fifo_sample = (Inr True, st') \<and> count_staged_jobs_locked None st' \<le> 3"
proof -
  have "fst (reserve_staged_job_slot 10 ''c'' 3 fifo_sample) = Inr True" by code_simp
  then obtain st' where run: "reserve_staged_job_slot 10 ''c'' 3 fifo_sample = (Inr True, st')"
    by (cases "reserve_staged_job_slot 10 ''c'' 3 fifo_sample") auto
  from run reservation_capacity [OF run] show ?thesis by simp
qed

subsection \<open>Sequence numbers and the single claim\<close>

lemma digits_with_underscores_digits:
  "(\<And>c. c \<in> set s \<Longrightarrow> is_ascii_digit c) \<Longrightarrow> s \<noteq> [] \<or> b \<Longrightarrow> digits_with_underscores b s = Some s"
  by (induction b s rule: digits_with_underscores.induct) auto

lemma digit_not_space: "is_ascii_digit c \<Longrightarrow> \<not> is_space c"
  by (auto simp: is_ascii_digit_def is_space_def Let_def)

lemma strip_digits_newline:
  assumes "\<And>c. c \<in> set s \<Longrightarrow> is_ascii_digit c" "s \<noteq> []"
  shows "strip (s @ [CHR 0x0A]) = s" "strip s = s"
proof -
  have hd: "\<not> is_space (hd s)" "\<not> is_space (last s)" using assms by (auto intro!: digit_not_space)
  have "dropWhile is_space (s @ t) = s @ t" for t using hd assms(2) by (cases s) auto
  moreover have "dropWhile is_space (rev s) = rev s" using hd assms(2) by (cases s rule: rev_cases) auto
  ultimately show "strip (s @ [CHR 0x0A]) = s" "strip s = s"
    by (auto simp: strip_def lstrip_def rstrip_def is_space_def cp_def) (metis append_Nil2 rev_rev_ident)
qed

lemma py_int_digits:
  assumes "\<And>c. c \<in> set s \<Longrightarrow> is_ascii_digit c" "s \<noteq> []"
  shows "py_int s = Some (int (nat_of_digits s))" "py_int (s @ [CHR 0x0A]) = Some (int (nat_of_digits s))"
proof -
  obtain c cs where s: "s = c # cs" using assms(2) by (cases s) auto
  have "c \<noteq> CHR ''-'' \<and> c \<noteq> CHR ''+''" using assms(1) [of c] by (auto simp: s is_ascii_digit_def cp_def)
  then show "py_int s = Some (int (nat_of_digits s))" "py_int (s @ [CHR 0x0A]) = Some (int (nat_of_digits s))"
    using strip_digits_newline [OF assms] digits_with_underscores_digits [OF assms(1), of s False]
    by (simp_all add: py_int_def s)
qed

lemma sequence_text:
  assumes "0 \<le> i"
  shows "strip (string_of_int i @ [CHR 0x0A]) = string_of_int i" "string_of_int i \<noteq> []"
    "py_int (string_of_int i @ [CHR 0x0A]) = Some i" "py_int (string_of_int i) = Some i"
  using assms strip_digits_newline [of "string_of_nat (nat i)", OF string_of_nat_digits string_of_nat_not_Nil]
    py_int_digits [of "string_of_nat (nat i)", OF string_of_nat_digits string_of_nat_not_Nil]
  by (simp_all add: string_of_int_def)

lemma next_ready_sequence_counter:
  assumes "next_ready_sequence st = Inr (s, st1)" "sequences_ok st"
  shows "s = counter st + 1" "counter st1 = s" "0 < s"
proof -
  consider "queue_sequence st = None" | i where "0 \<le> i" "queue_sequence st = Some (string_of_int i @ [CHR 0x0A])"
    using assms(2) by (cases "queue_sequence st") (auto simp: sequences_ok_def)
  then have "s = counter st + 1 \<and> 0 < s"
    using assms(1) by cases (auto simp: next_ready_sequence_def counter_def res_simps sequence_text split: if_splits)
  then show "s = counter st + 1" "0 < s" by auto
  with next_ready_sequence_Inr [OF assms(1)] show "counter st1 = s" by (simp add: counter_def sequence_text)
qed

lemma control_sequence_file:
  "control_sequence (Some (QFile t (Some (control_file j s c)))) =
     (if s \<le> 0 then Inl (ProvisionError ''staged control file missing valid sequence'') else Inr s)"
  by (simp add: control_sequence_def read_control_def control_file_def get_or_def)

lemma control_sequence_mtime: "control_sequence (Some (QFile t c)) = control_sequence (Some (QFile t' c))"
  by (simp add: control_sequence_def read_control_def)

lemma sequences_bump:
  assumes "next_ready_sequence st = Inr (s, st1)" "sequences_ok st"
  shows "sequences_ok st1"
proof -
  note c = next_ready_sequence_counter [OF assms]
  have q: "queue st1 = queue st" "queue_sequence st1 = Some (string_of_int s @ [CHR 0x0A])"
    using next_ready_sequence_Inr [OF assms(1)] by simp_all
  have "i \<le> counter st1" if "n \<in> set (control_names (queue st1))" "control_sequence (dget (queue st1) n) = Inr i" for n i
    using assms(2) that c(1,2) unfolding sequences_ok_def q by force
  then show ?thesis using q(2) c(3) by (auto simp: sequences_ok_def intro!: exI [of _ s])
qed

text \<open>
  The state invariant: the numbering of the control files, and at most one claimed job.
\<close>

definition queue_ok :: "queue_state \<Rightarrow> bool" where
  "queue_ok st = (sequences_ok st \<and> (\<forall>a b. a \<in> claimed_jobs st \<and> b \<in> claimed_jobs st \<longrightarrow> a = b))"

lemma queue_ok_shrinks: "shrinks st st1 \<Longrightarrow> queue_ok st \<Longrightarrow> queue_ok st1"
  using shrinks_sequences by (auto simp: queue_ok_def claimed_jobs_def active_node_def shrinks_def)

lemma queue_ok_queue:
  assumes "queue_ok st"
    and seq: "\<And>n i. control_sequence (dget q n) = Inr i \<Longrightarrow> ends_with ''.ready'' n \<or> ends_with ''.reserve'' n \<Longrightarrow>
      i \<le> counter st"
  shows "queue_ok (st\<lparr>queue := q\<rparr>)"
proof -
  have txt_ok: "\<forall>text. queue_sequence st = Some text \<longrightarrow> (\<exists>i\<ge>0. text = string_of_int i @ [CHR 0x0A])"
    and one: "\<forall>a b. a \<in> claimed_jobs st \<and> b \<in> claimed_jobs st \<longrightarrow> a = b"
    using assms(1) unfolding queue_ok_def sequences_ok_def by blast+
  have "counter (st\<lparr>queue := q\<rparr>) = counter st" "claimed_jobs (st\<lparr>queue := q\<rparr>) = claimed_jobs st"
    by (simp_all add: counter_def claimed_jobs_def active_node_def)
  moreover have "\<forall>n i. n \<in> set (control_names q) \<and> control_sequence (dget q n) = Inr i \<longrightarrow> i \<le> counter st"
    using seq unfolding control_names_iff by blast
  ultimately show ?thesis using txt_ok one unfolding queue_ok_def sequences_ok_def by simp
qed

lemma queue_ok_control:
  assumes "queue_ok st" "control_sequence (dget (queue st) n) = Inr i" "ends_with ''.ready'' n \<or> ends_with ''.reserve'' n"
  shows "i \<le> counter st"
proof -
  have "dget (queue st) n \<noteq> None" using assms(2) by (metis control_sequence_None sum.distinct(1))
  then show ?thesis using assms by (auto simp: queue_ok_def sequences_ok_def control_names_iff)
qed

lemma queue_ok_reserve:
  assumes "queue_ok st"
  shows "queue_ok (snd (reserve_staged_job_slot now j max_jobs st))"
proof -
  let ?st1 = "cleanup_stale_reservations now st"
  have ok1: "queue_ok ?st1" by (rule queue_ok_shrinks [OF shrinks_cleanup assms])
  have bump: "queue_ok st2" if "next_ready_sequence ?st1 = Inr (s, st2)" for s st2
    using sequences_bump [OF that] ok1 next_ready_sequence_Inr [OF that]
    by (auto simp: queue_ok_def claimed_jobs_def active_node_def)
  have "queue_ok (st2\<lparr>queue := dset (reserve_name j) (QFile now (Some (control_file j s (VFloat now)))) (queue st2)\<rparr>)"
    if seq: "next_ready_sequence ?st1 = Inr (s, st2)" for s st2
  proof (rule queue_ok_queue [OF bump [OF seq]])
    fix n i
    assume "control_sequence (dget (dset (reserve_name j) (QFile now (Some (control_file j s (VFloat now)))) (queue st2)) n) = Inr i"
      and e: "ends_with ''.ready'' n \<or> ends_with ''.reserve'' n"
    then have "i = s \<or> control_sequence (dget (queue st2) n) = Inr i"
      by (simp add: control_sequence_file split: if_splits)
    moreover have "s = counter st2" using next_ready_sequence_counter(2) [OF seq] ok1 by (simp add: queue_ok_def)
    ultimately show "i \<le> counter st2" using queue_ok_control [OF bump [OF seq]] e by auto
  qed
  then show ?thesis using assms ok1 bump
    by (auto simp: reserve_staged_job_slot_def Let_def split: sum.splits)
qed

lemma reservation_sort_key_sequence: "reservation_sort_key now n = Inr (s, c) \<Longrightarrow> control_sequence n = Inr s"
  by (auto simp: reservation_sort_key_def res_simps)

lemma queue_ok_publish:
  assumes "queue_ok st"
  shows "queue_ok (snd (publish_ready_marker now j st))"
proof -
  let ?st1 = "cleanup_stale_reservations now st"
  have ok1: "queue_ok ?st1" by (rule queue_ok_shrinks [OF shrinks_cleanup assms])
  have "queue_ok (?st1\<lparr>queue := dpop (reserve_name j)
      (dset (ready_name j) (QFile now (Some (control_file j s c))) (queue ?st1))\<rparr>)"
    if res: "dget (queue ?st1) (reserve_name j) = Some n" and key: "reservation_sort_key now (Some n) = Inr (s, c)" for n s c
  proof (rule queue_ok_queue [OF ok1])
    fix m i
    assume "control_sequence (dget (dpop (reserve_name j)
        (dset (ready_name j) (QFile now (Some (control_file j s c))) (queue ?st1))) m) = Inr i"
      and e: "ends_with ''.ready'' m \<or> ends_with ''.reserve'' m"
    then have "m = ready_name j \<and> i = s \<or> control_sequence (dget (queue ?st1) m) = Inr i"
      by (auto simp: control_sequence_file split: if_splits)
    then show "i \<le> counter ?st1"
      using queue_ok_control [OF ok1, of "reserve_name j"] queue_ok_control [OF ok1 _ e] res reservation_sort_key_sequence [OF key]
      by auto
  qed
  then show ?thesis using assms ok1
    by (auto simp: publish_ready_marker_def Let_def split: option.splits sum.splits)
qed

lemma queue_ok_same_names:
  assumes "queue_ok st" "\<And>n. ends_with ''.ready'' n \<or> ends_with ''.reserve'' n \<Longrightarrow>
    control_sequence (dget q n) = control_sequence (dget (queue st) n)"
  shows "queue_ok (st\<lparr>queue := q\<rparr>)"
  using assms queue_ok_control [OF assms(1)] by (intro queue_ok_queue) simp_all

lemma queue_ok_refresh: "queue_ok st \<Longrightarrow> queue_ok (snd (refresh_staged_job_slot now j st))"
  using control_sequence_mtime
  by (auto simp: refresh_staged_job_slot_def split: option.split qnode.split intro!: queue_ok_same_names)

lemma queue_ok_stage: "valid_id j \<Longrightarrow> queue_ok st \<Longrightarrow> queue_ok (stage_job_directory j st)"
  using valid_id_not_control by (auto simp: stage_job_directory_def intro!: queue_ok_same_names)

lemma claim_loop_shrinks:
  "claim_loop ms st = (r, st1) \<Longrightarrow> (\<forall>j. r \<noteq> Inr (Some j)) \<Longrightarrow> shrinks st st1"
proof (induction ms arbitrary: st)
  case (Cons m ms)
  obtain s nm ready where m: "m = ((s, nm), ready)" by (metis surj_pair)
  obtain b st2 where low: "has_lower_sequence s st = (b, st2)" by fastforce
  have sh: "shrinks st st2" using shrinks_lower low by (simp add: has_lower_sequence_def)
  let ?j = "remove_suffix ''.ready'' ready"
  consider "b" | "\<not> b" "dget (queue st2) ?j = Some QDir" | "\<not> b" "dget (queue st2) ?j \<noteq> Some QDir" by blast
  then have "shrinks st2 st1"
  proof cases
    case 2
    then show ?thesis using Cons.prems low by (auto simp: m Let_def split: sum.splits)
  next
    case 3
    then have "claim_loop ms (remove_staged_path ready st2) = (r, st1)"
      using Cons.prems low by (auto simp: m Let_def split: option.splits qnode.splits)
    then show ?thesis using Cons.IH Cons.prems(2) shrinks_trans [OF shrinks_remove] by blast
  qed (use Cons.prems low in \<open>simp add: m\<close>)
  with sh show ?case by (rule shrinks_trans)
qed simp

lemma claim_locked_shrinks:
  assumes "claim_next_job_locked st = (r, st1)" "\<forall>j. r \<noteq> Inr (Some j)"
  shows "shrinks st st1"
proof (cases "any_active st")
  case False
  obtain ms st2 where col: "collect_ready (sort (ready_names (queue st))) st = (ms, st2)" by fastforce
  with assms False have "claim_loop (sort ms) st2 = (r, st1)" by (simp add: claim_next_job_locked_def)
  then show ?thesis using shrinks_trans [OF shrinks_collect [OF col] claim_loop_shrinks] assms(2) by blast
qed (use assms in \<open>simp add: claim_next_job_locked_def\<close>)

lemma any_active_iff: "any_active st \<longleftrightarrow> claimed_jobs st \<noteq> {}"
proof -
  have "(\<exists>n \<in> set (dkeys a). dget a n = Some QDir) \<longleftrightarrow> (\<exists>n. dget a n = Some QDir)" for a :: "qnode dict"
    by (metis domI dom_map_of_conv_image_fst image_set)
  then show ?thesis
    by (auto simp: any_active_def claimed_jobs_def active_node_def list_ex_iff is_plain_directory_def split: option.splits)
qed

lemma queue_ok_claim:
  assumes "queue_ok st"
  shows "queue_ok (snd (claim_next_job now st))"
proof -
  let ?st1 = "cleanup_stale_reservations now (ensure_runtime_layout True st)"
  have "queue_ok (ensure_runtime_layout True st)"
    using assms by (auto simp: ensure_runtime_layout_def queue_ok_def sequences_ok_def counter_def claimed_jobs_def active_node_def)
  then have ok1: "queue_ok ?st1" by (rule queue_ok_shrinks [OF shrinks_cleanup])
  obtain r st2 where run: "claim_next_job_locked ?st1 = (r, st2)" by fastforce
  have "queue_ok st2"
  proof (cases "\<exists>j. r = Inr (Some j)")
    case False
    then show ?thesis using queue_ok_shrinks [OF claim_locked_shrinks [OF run] ok1] by blast
  next
    case True
    then obtain j where j: "claim_next_job_locked ?st1 = (Inr (Some j), st2)" using run by auto
    note c = claim_locked_Some [OF j]
    let ?st3 = "st2\<lparr>active := active ?st1, active_readable := active_readable ?st1\<rparr>"
    have "shrinks ?st1 ?st3" using c by (simp add: shrinks_def)
    then have "sequences_ok ?st3" using shrinks_sequences ok1 unfolding queue_ok_def by blast
    then have "sequences_ok st2" by (simp add: sequences_ok_def counter_def)
    moreover have "claimed_jobs st2 \<subseteq> {j}"
      using c by (auto simp: any_active_iff claimed_jobs_def active_node_def split: option.splits if_splits)
    ultimately show ?thesis by (auto simp: queue_ok_def)
  qed
  then show ?thesis using run by (simp add: claim_next_job_def)
qed

lemma shrinks_count: "shrinks st (snd (count_staged_jobs now exclude st))"
  by (simp add: count_staged_jobs_def Let_def split: option.split)

lemma shrinks_waiting: "shrinks st (snd (staged_job_waiting_for_turn now j st))"
proof -
  have "shrinks st (snd (has_lower_sequence s (cleanup_stale_reservations now st)))" for s
    unfolding has_lower_sequence_def by (rule shrinks_trans [OF shrinks_cleanup shrinks_lower [OF surjective_pairing]])
  then show ?thesis
    by (simp add: staged_job_waiting_for_turn_def Let_def split: option.split prod.split) (metis snd_conv)
qed

lemma shrinks_abandon: "shrinks st (snd (try_abandon_queued_job j st))"
  by (auto simp: try_abandon_queued_job_def rmtree_ignore_def intro: shrinks_trans shrinks_remove)

lemma shrinks_release: "shrinks st (snd (release_staged_job_slot j st))"
  by (simp add: release_staged_job_slot_def)

lemma queue_ok_finish: "queue_ok st \<Longrightarrow> queue_ok (cleanup_claimed_job j st)"
  unfolding queue_ok_def sequences_ok_def counter_def claimed_jobs_def active_node_def cleanup_claimed_job_def
  by (auto split: option.splits if_splits)

lemma queue_ok_step: "queue_step st st1 \<Longrightarrow> queue_ok st \<Longrightarrow> queue_ok st1"
  by (induction rule: queue_step.induct)
    (blast intro: queue_ok_reserve queue_ok_stage queue_ok_refresh queue_ok_publish queue_ok_claim queue_ok_finish
      queue_ok_shrinks shrinks_count shrinks_waiting shrinks_abandon shrinks_release)+

lemma queue_reachable_ok: "queue_reachable st \<Longrightarrow> queue_ok st"
  unfolding queue_reachable_def
proof (induction rule: rtranclp_induct)
  case base
  show ?case by (simp add: queue_ok_def sequences_ok_def empty_queue_def claimed_jobs_def active_node_def control_names_def
      reserve_names_def ready_names_def)
qed (rule queue_ok_step)

text \<open>
  C6: in every reachable queue at most one job is claimed, and arrival order is the order of the
  sequence numbers: a reservation granted in it gets a number above that of every other reservation
  and ready marker, so no later arrival is ever claimed before it.
\<close>

theorem reservations_are_ordered:
  assumes "queue_reachable st"
  shows "(\<forall>a b. a \<in> claimed_jobs st \<and> b \<in> claimed_jobs st \<longrightarrow> a = b) \<and>
    (reserve_staged_job_slot now j max_jobs st = (Inr True, st') \<longrightarrow>
      (\<exists>s. control_sequence (dget (queue st') (reserve_name j)) = Inr s \<and>
        (\<forall>n i. (ends_with ''.ready'' n \<or> ends_with ''.reserve'' n) \<and> n \<noteq> reserve_name j \<and>
           control_sequence (dget (queue st') n) = Inr i \<longrightarrow> i < s)))"
proof -
  have ok: "queue_ok st" by (rule queue_reachable_ok [OF assms])
  let ?st1 = "cleanup_stale_reservations now st"
  have ok1: "queue_ok ?st1" by (rule queue_ok_shrinks [OF shrinks_cleanup ok])
  have "\<exists>s. control_sequence (dget (queue st') (reserve_name j)) = Inr s \<and>
        (\<forall>n i. (ends_with ''.ready'' n \<or> ends_with ''.reserve'' n) \<and> n \<noteq> reserve_name j \<and>
           control_sequence (dget (queue st') n) = Inr i \<longrightarrow> i < s)"
    if run: "reserve_staged_job_slot now j max_jobs st = (Inr True, st')"
  proof -
    obtain s st2 where seq: "next_ready_sequence ?st1 = Inr (s, st2)"
      and st': "st' = st2\<lparr>queue := dset (reserve_name j) (QFile now (Some (control_file j s (VFloat now)))) (queue st2)\<rparr>"
      using run by (auto simp: reserve_staged_job_slot_def Let_def split: sum.splits if_splits)
    have same: "queue st2 = queue ?st1" using next_ready_sequence_Inr [OF seq] by simp
    have s: "s = counter ?st1 + 1" "0 < s" using next_ready_sequence_counter [OF seq] ok1 by (auto simp: queue_ok_def)
    have "i < s" if "ends_with ''.ready'' n \<or> ends_with ''.reserve'' n" "control_sequence (dget (queue ?st1) n) = Inr i" for n i
      using queue_ok_control [OF ok1 that(2,1)] s by simp
    then show ?thesis using s(2) by (auto simp: st' same control_sequence_file)
  qed
  then show ?thesis using ok by (auto simp: queue_ok_def)
qed

theorem reservations_are_ordered_witness:
  "queue_reachable empty_queue \<and> (\<exists>st'. reserve_staged_job_slot 0 ''a'' 2 empty_queue = (Inr True, st') \<and>
     (\<exists>s. control_sequence (dget (queue st') ''a.reserve'') = Inr s))"
proof -
  have r: "queue_reachable empty_queue" by (simp add: queue_reachable_def)
  have "fst (reserve_staged_job_slot 0 ''a'' 2 empty_queue) = Inr True" by code_simp
  then obtain st' where run: "reserve_staged_job_slot 0 ''a'' 2 empty_queue = (Inr True, st')"
    by (cases "reserve_staged_job_slot 0 ''a'' 2 empty_queue") auto
  then show ?thesis using r reservations_are_ordered [OF r, of 0 "''a''" 2 st'] by auto
qed

subsection \<open>Timeouts\<close>

lemma try_abandon_True:
  assumes "try_abandon_queued_job j st = (Inr True, st1)"
  shows "valid_id j" "active_node st j \<noteq> Some QDir" "dget (queue st1) j \<noteq> Some QDir"
    "dget (queue st1) (ready_name j) = None" "active st1 = active st"
    "\<And>n. n \<noteq> j \<Longrightarrow> n \<noteq> ready_name j \<Longrightarrow> dget (queue st1) n = dget (queue st) n"
  using assms
  by (auto simp: try_abandon_queued_job_def job_presence_def is_plain_directory_def rmtree_ignore_def
      remove_staged_path_def split: if_splits)

text \<open>
  C8: a timed-out job is given up only while it is its turn and nobody holds it, whatever the worker
  and other publishers do between the steps of the reconciliation. If the verdict is ABANDONED, the job
  was not blocked when its turn was checked, it was not claimed in the state it was removed from, the
  active directory was not touched, only its own directory and ready marker were removed from the
  queue, and a claim right after never returns it.
\<close>

theorem timeout_abandons_unclaimed:
  assumes "staged_timeout_state env now j st = (Inr ABANDONED, st')"
  shows "\<exists>st0 st1. staged_job_waiting_for_turn now j (env 1 st) = (Inr False, st0) \<and> st1 = env 2 st0 \<and>
    j \<notin> claimed_jobs st1 \<and> active st' = active st1 \<and>
    (\<forall>n. n \<noteq> j \<and> n \<noteq> ready_name j \<longrightarrow> dget (queue st') n = dget (queue st1) n) \<and>
    dget (queue st') (ready_name j) = None \<and> fst (claim_next_job_locked st') \<noteq> Inr (Some j)"
proof -
  obtain st0 where w: "staged_job_waiting_for_turn now j (env 1 st) = (Inr False, st0)"
    and t: "try_abandon_queued_job j (env 2 st0) = (Inr True, st')"
    using assms by (auto simp: staged_timeout_state_def Let_def split: sum.splits if_splits prod.splits presence.splits)
  have "fst (claim_next_job_locked st') \<noteq> Inr (Some j)"
    using claim_locked_Some [of st' j] try_abandon_True(4) [OF t] by (cases "claim_next_job_locked st'") auto
  then show ?thesis using w t try_abandon_True [OF t] by (auto simp: claimed_jobs_def)
qed

theorem timeout_abandons_unclaimed_witness:
  "\<exists>st'. staged_timeout_state (\<lambda>n s. s) 10 ''a'' fifo_sample = (Inr ABANDONED, st') \<and>
     fst (claim_next_job_locked st') \<noteq> Inr (Some ''a'')"
proof -
  have "fst (staged_timeout_state (\<lambda>n s. s) 10 ''a'' fifo_sample) = Inr ABANDONED" by code_simp
  then obtain st' where run: "staged_timeout_state (\<lambda>n s. s) 10 ''a'' fifo_sample = (Inr ABANDONED, st')"
    by (cases "staged_timeout_state (\<lambda>n s. s) 10 ''a'' fifo_sample") auto
  from run timeout_abandons_unclaimed [OF run] show ?thesis by blast
qed

end
