(* ===== verification/Crash_Logic.thy ===== *)
theory Crash_Logic
  imports Config_Root
begin

text \<open>
  A crash Hoare logic for the filesystem programs of \<open>Config_Root\<close>. \<open>triple P m I Q\<close>: started in a
  state that satisfies \<open>P\<close>, every state in which \<open>m\<close> can be interrupted, and the state it leaves
  whether it returns or raises, satisfies \<open>I\<close>; and if it returns \<open>x\<close>, the state satisfies \<open>Q x\<close>.
\<close>

section \<open>Definitions\<close>

definition triple :: "(cfs \<Rightarrow> bool) \<Rightarrow> 'a io \<Rightarrow> (cfs \<Rightarrow> bool) \<Rightarrow> ('a \<Rightarrow> cfs \<Rightarrow> bool) \<Rightarrow> bool" where
  "triple P m I Q = (io_wf m \<and>
     (\<forall>s. P s \<longrightarrow> (\<forall>u. crash (ops_of m s) s u \<longrightarrow> I u) \<and> (\<forall>x. outcome m s = Inr x \<longrightarrow> Q x (final m s))))"

text \<open>Operations on the candidate root, and properties that do not depend on it.\<close>

fun cand_op :: "fsop \<Rightarrow> bool" where
  "cand_op (RmTree r) = (r = Cand)"
| "cand_op (Rename a b) = False"
| "cand_op (Mkdir r) = (r = Cand)"
| "cand_op (CopyTree r t) = (r = Cand)"
| "cand_op (PutFile r n f) = (r = Cand)"
| "cand_op (PutAtomic r n f) = (r = Cand)"
| "cand_op (RmEntry r n) = (r = Cand)"
| "cand_op (WriteMark m) = False"
| "cand_op (UnlinkMark m) = False"

definition ignores_cand :: "(cfs \<Rightarrow> bool) \<Rightarrow> bool" where
  "ignores_cand I = (\<forall>s t. I (s\<lparr>cand := t\<rparr>) = I s)"

section \<open>Rules\<close>

named_theorems triple_rules "rules for the program combinators"

lemma exec_all_crash: "exec_all ops s = Inr u \<Longrightarrow> crash ops s u"
  by (induction ops arbitrary: s) (auto simp: res_simps intro: crash.intros)

lemma final_crash: "io_wf m \<Longrightarrow> crash (ops_of m s) s (final m s)"
  by (auto simp: io_wf_def intro: exec_all_crash)

lemma triple_wf: "triple P m I Q \<Longrightarrow> io_wf m"
  by (simp add: triple_def)

lemma tripleD:
  assumes "triple P m I Q" "P s"
  shows "crash (ops_of m s) s u \<Longrightarrow> I u" and "I s" and "I (final m s)"
    and "outcome m s = Inr x \<Longrightarrow> Q x (final m s)"
  using assms final_crash [of m s] by (auto simp: triple_def intro: crash_here)

lemma triple_conseq:
  assumes "triple P m I Q" "\<And>s. P' s \<Longrightarrow> P s" "\<And>s. I s \<Longrightarrow> I' s" "\<And>x s. Q x s \<Longrightarrow> Q' x s"
  shows "triple P' m I' Q'"
  using assms unfolding triple_def by meson

lemma triple_post: "triple P m I Q \<Longrightarrow> (\<And>x s. I s \<Longrightarrow> Q x s \<Longrightarrow> Q' x s) \<Longrightarrow> triple P m I Q'"
  using final_crash [of m] by (auto simp: triple_def)

lemma triple_split: "(\<And>b. triple (\<lambda>s. P s \<and> g s = b) m I Q) \<Longrightarrow> triple P m I Q"
  unfolding triple_def by blast

lemma triple_disj: "triple P m I Q \<Longrightarrow> triple P' m I Q \<Longrightarrow> triple (\<lambda>s. P s \<or> P' s) m I Q"
  unfolding triple_def by blast

lemma triple_strong: "triple P m I Q \<Longrightarrow> triple P m I (\<lambda>x s. I s \<and> Q x s)"
  using final_crash [of m] by (auto simp: triple_def)

lemma triple_bind [triple_rules]:
  assumes "triple P m I Q" "\<And>x. triple (Q x) (f x) I R"
  shows "triple P (io_bind m f) I R"
proof -
  have wf: "io_wf m" "\<And>x. io_wf (f x)" using assms by (auto simp: triple_def)
  have "R y (final (io_bind m f) s)" if "P s" "outcome (io_bind m f) s = Inr y" for s y
  proof (cases "outcome m s")
    case (Inl e)
    with that(2) show ?thesis by (auto simp: io_bind_def outcome_def split: prod.splits sum.splits)
  next
    case (Inr x)
    with that assms show ?thesis by (auto simp: triple_def io_run)
  qed
  moreover have "I u" if "P s" "crash (ops_of (io_bind m f) s) s u" for s u
    using that assms by (auto simp: triple_def crash_bind [OF wf(1)])
  ultimately show ?thesis using wf by (auto simp: triple_def)
qed

lemma triple_then [triple_rules]:
  "triple P m I (\<lambda>_. Q) \<Longrightarrow> triple Q k I R \<Longrightarrow> triple P (io_then m k) I R"
  unfolding io_then_def by (rule triple_bind)

lemma triple_ret: "(\<And>s. P s \<Longrightarrow> I s) \<Longrightarrow> (\<And>s. P s \<Longrightarrow> Q x s) \<Longrightarrow> triple P (io_ret x) I Q"
  by (auto simp: triple_def io_run) (simp add: ops_of_def io_ret_def)

lemma triple_raise: "(\<And>s. P s \<Longrightarrow> I s) \<Longrightarrow> triple P (io_raise e) I Q"
  by (auto simp: triple_def ops_of_def io_raise_def outcome_def)

lemma triple_res:
  "(\<And>s. P s \<Longrightarrow> I s) \<Longrightarrow> (\<And>s x. r = Inr x \<Longrightarrow> P s \<Longrightarrow> Q x s) \<Longrightarrow> triple P (io_res r) I Q"
  by (auto simp: triple_def ops_of_def io_res_def outcome_def final_def)

text \<open>A binding where the value read is known.\<close>

lemma triple_bind_res:
  assumes "\<And>s. P s \<Longrightarrow> I s" "\<And>x. r = Inr x \<Longrightarrow> triple P (f x) I Q"
  shows "triple P (io_bind (io_res r) f) I Q"
proof (cases r)
  case (Inl e)
  then have "io_bind (io_res r) f = io_raise e"
    by (intro ext) (simp add: io_bind_def io_res_def io_raise_def)
  with assms(1) show ?thesis by (simp add: triple_raise)
next
  case (Inr x)
  then have "io_bind (io_res r) f = f x"
    by (intro ext) (simp add: io_bind_def io_res_def split: prod.splits)
  with Inr assms(2) show ?thesis by simp
qed

lemma triple_op:
  assumes "\<And>s. P s \<Longrightarrow> I s" "\<And>s u. P s \<Longrightarrow> midway op s u \<Longrightarrow> I u"
    "\<And>s s1. P s \<Longrightarrow> exec op s = Inr s1 \<Longrightarrow> I s1 \<and> Q () s1"
  shows "triple P (io_op op) I Q"
  using assms by (auto simp: triple_def io_op_def ops_of_def outcome_def final_def crash_Cons split: sum.splits)

lemma triple_when [triple_rules]:
  "(b \<Longrightarrow> triple P m I Q) \<Longrightarrow> (\<And>s. \<not> b \<Longrightarrow> P s \<Longrightarrow> I s \<and> Q () s) \<Longrightarrow> triple P (io_when b m) I Q"
  by (auto simp: io_when_def intro!: triple_ret)

text \<open>A program that first reads the state.\<close>

lemma triple_dep:
  assumes "\<And>s. m s = f s s" "\<And>s. io_wf (f s)" "\<And>s. P s \<Longrightarrow> triple (\<lambda>t. t = s) (f s) I Q"
  shows "triple P m I Q"
proof -
  have "m = (\<lambda>s. f s s)" using assms(1) by auto
  moreover have "io_wf (\<lambda>s. f s s)" using assms(2) by (rule io_wf_dep)
  ultimately show ?thesis
    using assms(3) by (auto simp: triple_def ops_of_def outcome_def final_def)
qed

lemma triple_read:
  assumes "\<And>s. m s = f s s" "\<And>s. triple P (f s) I Q"
  shows "triple P m I Q"
proof (rule triple_dep [where f = f, OF assms(1) triple_wf [OF assms(2)]])
  show "triple (\<lambda>t. t = s) (f s) I Q" if "P s" for s
    by (rule triple_conseq [OF assms(2)]) (use that in auto)
qed

lemma triple_rm:
  assumes "\<And>s. P s \<Longrightarrow> I s"
    "\<And>s t u. P s \<Longrightarrow> get_root r s = Some t \<Longrightarrow> remnant t u \<Longrightarrow> I (set_root r (Some u) s)"
    "\<And>s. P s \<Longrightarrow> I (set_root r None s) \<and> Q () (set_root r None s)"
  shows "triple P (rm_if_exists r) I Q"
proof -
  have "set_root r None s = s" if "get_root r s = None" for s
    using that by (cases r) auto
  then show ?thesis
    using assms by (auto simp: triple_def ops_of_def outcome_def final_def crash_Cons) (metis)+
qed

lemma triple_activation:
  assumes "\<And>names. triple J (write_managed_state Cfg names) I (\<lambda>_. J)" and "\<And>s. J s \<Longrightarrow> I s"
  shows "triple J (run_activation act) I (\<lambda>_. J)"
proof -
  let ?f = "\<lambda>s. case act (cfg s) of (failures, upd) \<Rightarrow>
      (case upd of None \<Rightarrow> io_ret failures
       | Some names \<Rightarrow> io_then (write_managed_state Cfg names) (io_ret failures))"
  have "run_activation act s = ?f s s" for s
    by (simp add: run_activation_def split: prod.split option.split)
  moreover have "triple J (?f s) I (\<lambda>_. J)" for s
    using assms by (auto split: prod.split option.split intro!: triple_then triple_ret)
  ultimately show ?thesis by (rule triple_read [where f = ?f])
qed

text \<open>An operation on the candidate root only keeps what does not depend on it.\<close>

lemma ignores_candD: "ignores_cand I \<Longrightarrow> I (s\<lparr>cand := t\<rparr>) = I s"
  by (simp add: ignores_cand_def)

lemma exec_cand_op: "cand_op op \<Longrightarrow> exec op s = Inr s1 \<Longrightarrow> \<exists>t. s1 = s\<lparr>cand := t\<rparr>"
  by (cases op) (auto split: option.splits intro: exI [of _ "cand s"])

lemma midway_cand_op: "cand_op op \<Longrightarrow> midway op s u \<Longrightarrow> \<exists>t. u = s\<lparr>cand := t\<rparr>"
  by (cases op) auto

lemma triple_cand:
  assumes "cand_op op" "ignores_cand I" "ignores_cand J" "\<And>s. J s \<Longrightarrow> I s"
    and "\<And>s s1. P s \<Longrightarrow> exec op s = Inr s1 \<Longrightarrow> Q s1"
  shows "triple (\<lambda>s. J s \<and> P s) (io_op op) I (\<lambda>_ s. J s \<and> Q s)"
proof (rule triple_op)
  show "I s" if "J s \<and> P s" for s using that assms(4) by blast
  show "I u" if "J s \<and> P s" "midway op s u" for s u
    using that midway_cand_op [OF assms(1) that(2)] assms(4) by (auto simp: ignores_candD [OF assms(2)])
  show "I s1 \<and> J s1 \<and> Q s1" if "J s \<and> P s" "exec op s = Inr s1" for s s1
    using that exec_cand_op [OF assms(1) that(2)] assms(4,5)
    by (auto simp: ignores_candD [OF assms(2)] ignores_candD [OF assms(3)])
qed

end
