(* ===== verification/Apply_Receipt.thy ===== *)
theory Apply_Receipt
  imports Crash_Logic Staging_Manifest
begin

text \<open>
  The staged-apply transaction: the receipt of \<^verbatim>\<open>apply_transaction.py\<close>, recovery of an interrupted
  apply, and the promotion of a verified candidate from \<^verbatim>\<open>provision.py\<close>.

  The receipt is a file of the configuration root. The candidate tree, the bundle files and the
  activation are parameters; restarting the bootstrap transport after an apply changes nothing in
  the configuration root and is not represented.
\<close>

section \<open>Definitions\<close>

subsection \<open>The receipt\<close>

datatype phase = PROMOTED | COMMITTED

fun phase_value :: "phase \<Rightarrow> string" where
  "phase_value PROMOTED = ''promoted''"
| "phase_value COMMITTED = ''committed''"

record receipt =
  job_id :: string
  source_sha256 :: string
  result :: "pyval dict"
  phase :: phase

record transaction =
  tx_job_id :: string
  tx_source_sha256 :: string
  tx_result :: "pyval dict"

definition from_manifest :: "pyval dict \<Rightarrow> pyval dict \<Rightarrow> transaction res" where
  "from_manifest manifest res =
     rbind (validate_job_id (get_or (VStr []) manifest ''job_id'')) (\<lambda>jid.
     case get_val manifest ''source_sha256'' of
       VStr d \<Rightarrow>
         (if is_sha256 (VStr d) then Inr \<lparr>tx_job_id = jid, tx_source_sha256 = d, tx_result = res\<rparr>
          else Inl (ProvisionError ''staged manifest is missing a valid source digest''))
     | _ \<Rightarrow> Inl (ProvisionError ''staged manifest is missing a valid source digest''))"

definition receipt_of :: "transaction \<Rightarrow> phase \<Rightarrow> receipt" where
  "receipt_of tx ph = \<lparr>job_id = tx_job_id tx, source_sha256 = tx_source_sha256 tx,
     result = tx_result tx, phase = ph\<rparr>"

definition receipt_file :: "transaction \<Rightarrow> phase \<Rightarrow> fnode" where
  "receipt_file tx ph = FReg 384 (Json (VDict
     [(''version'', VInt 2), (''job_id'', VStr (tx_job_id tx)), (''source_sha256'', VStr (tx_source_sha256 tx)),
      (''result'', VDict (tx_result tx)), (''phase'', VStr (phase_value ph))]))"

text \<open>\<^verbatim>\<open>write_json_atomic\<close> creates the parent directory and replaces the file atomically.\<close>

definition write_receipt :: "transaction \<Rightarrow> root \<Rightarrow> phase \<Rightarrow> unit io" where
  "write_receipt tx r ph =
     io_then (io_op (Mkdir r)) (io_op (PutAtomic r apply_receipt (receipt_file tx ph)))"

definition mark_promoted :: "transaction \<Rightarrow> root \<Rightarrow> unit io" where
  "mark_promoted tx r = write_receipt tx r PROMOTED"

definition parse_phase :: "pyval \<Rightarrow> phase res" where
  "parse_phase v =
     (if v = VStr ''promoted'' then Inr PROMOTED
      else if v = VStr ''committed'' then Inr COMMITTED
      else Inl (ProvisionError ''apply receipt has invalid phase''))"

definition parse_receipt :: "pyval dict \<Rightarrow> receipt res" where
  "parse_receipt d =
     rbind (rguard (py_eq_int (get_val d ''version'') 2) (ProvisionError ''unsupported apply receipt version'')) (\<lambda>_.
     rbind (validate_job_id (get_or (VStr []) d ''job_id'')) (\<lambda>jid.
     case get_val d ''source_sha256'' of
       VStr digest \<Rightarrow>
         rbind (rguard (is_sha256 (VStr digest)) (ProvisionError ''apply receipt has invalid source digest'')) (\<lambda>_.
         case get_val d ''result'' of
           VDict res \<Rightarrow>
             rbind (parse_phase (get_val d ''phase'')) (\<lambda>ph.
             Inr \<lparr>job_id = jid, source_sha256 = digest, result = res, phase = ph\<rparr>)
         | _ \<Rightarrow> Inl (ProvisionError ''apply receipt has invalid result''))
     | _ \<Rightarrow> Inl (ProvisionError ''apply receipt has invalid source digest'')))"

definition read_apply_receipt :: "tree option \<Rightarrow> receipt option res" where
  "read_apply_receipt t = (case entry t apply_receipt of
     None \<Rightarrow> Inr None
   | Some (FDir d) \<Rightarrow> Inl (ProvisionError ''apply receipt must be a regular file'')
   | Some (FReg m c) \<Rightarrow>
       (if m mod 64 \<noteq> 0 then Inl (ProvisionError ''apply receipt must be owner-only'')
        else case c of
          Raw b \<Rightarrow> Inl (ProvisionError ''invalid staged JSON'')
        | Json (VDict d) \<Rightarrow> rbind (parse_receipt d) (\<lambda>r. Inr (Some r))
        | Json v \<Rightarrow> Inl (ProvisionError ''staged JSON must be an object'')))"

definition mark_committed :: "transaction \<Rightarrow> unit io" where
  "mark_committed tx s =
     (case read_apply_receipt (cfg s) of
        Inl e \<Rightarrow> io_raise e s
      | Inr r \<Rightarrow>
          (if r = Some (receipt_of tx PROMOTED) then write_receipt tx Cfg COMMITTED s
           else io_raise (ProvisionError ''cannot commit staged apply without its promoted receipt'') s))"

definition committed_result_for_manifest ::
  "receipt option \<Rightarrow> string \<Rightarrow> pyval dict option \<Rightarrow> pyval dict option" where
  "committed_result_for_manifest r jid manifest = (case (r, manifest) of
     (Some rc, Some m) \<Rightarrow>
       (if phase rc \<noteq> COMMITTED then None
        else if job_id rc \<noteq> jid \<or> VStr (source_sha256 rc) \<noteq> get_val m ''source_sha256'' then None
        else Some (result rc))
   | _ \<Rightarrow> None)"

subsection \<open>Recovery\<close>

record recovery =
  rec_receipt :: "receipt option"
  discarded_initial :: bool
  restored_rollback :: bool
  rollback_failures :: "string list"

definition recovery_of :: "receipt option \<Rightarrow> bool \<Rightarrow> bool \<Rightarrow> recovery" where
  "recovery_of r discarded restored =
     \<lparr>rec_receipt = r, discarded_initial = discarded, restored_rollback = restored, rollback_failures = []\<rparr>"

text \<open>\<^verbatim>\<open>ApplyRecovery(read_apply_receipt(config_root), restored_rollback=restored)\<close>\<close>

definition report :: "bool \<Rightarrow> recovery io" where
  "report restored s = io_res (rbind (read_apply_receipt (cfg s)) (\<lambda>r. Inr (recovery_of r False restored))) s"

definition recover_interrupted_apply :: "recovery io" where
  "recover_interrupted_apply s =
     (if rbact s then io_then recover_config_root (report True) s
      else case read_apply_receipt (cfg s) of
        Inl e \<Rightarrow> io_raise e s
      | Inr r \<Rightarrow>
          (if (case r of Some rc \<Rightarrow> phase rc = COMMITTED | None \<Rightarrow> False) then
             io_then (rm_if_exists Cand) (io_then cleanup_rollback (io_ret (recovery_of r False False))) s
           else if r \<noteq> None \<and> rb s = None then
             io_then discard_initial_config (io_ret (recovery_of None True False)) s
           else if promo s \<and> rb s \<noteq> None then
             io_then begin_rollback_activation (io_then recover_config_root (report True)) s
           else io_then recover_config_root (report False) s))"

definition recover_staged_apply :: "activation \<Rightarrow> bool \<Rightarrow> recovery io" where
  "recover_staged_apply act boot_recovery =
     io_bind recover_interrupted_apply (\<lambda>rc.
       if boot_recovery then io_then (io_op (UnlinkMark RbAct)) (io_ret rc)
       else if restored_rollback rc then
         io_bind (run_rollback_activation act) (\<lambda>failures. io_ret (rc\<lparr>rollback_failures := failures\<rparr>))
       else io_ret rc)"

subsection \<open>Promotion of a verified candidate\<close>

text \<open>\<^verbatim>\<open>list(manifest.get("warnings", []))\<close>\<close>

definition manifest_warnings :: "pyval dict \<Rightarrow> pyval list res" where
  "manifest_warnings manifest = (case get_or (VList []) manifest ''warnings'' of
     VList ws \<Rightarrow> Inr ws
   | VStr s \<Rightarrow> Inr (map (\<lambda>c. VStr [c]) s)
   | VDict d \<Rightarrow> Inr (map VStr (dkeys d))
   | _ \<Rightarrow> Inl (PyExc ''TypeError: not iterable''))"

definition staged_success_result :: "pyval dict \<Rightarrow> bool \<Rightarrow> pyval dict res" where
  "staged_success_result manifest is_reapply =
     rbind (manifest_warnings manifest) (\<lambda>ws.
     let url = get_val manifest ''forwarding_url'' in
     Inr ([(''warnings'', VList ws), (''reapply'', VBool is_reapply),
           (''forwarding_url'', case url of VStr u \<Rightarrow> VStr u | _ \<Rightarrow> VNone)]
          @ (if is_reapply then [(''rolled_back'', VBool False)] else [])))"

definition files_name :: string where "files_name = ''files''"

text \<open>\<^verbatim>\<open>copy_bundle_files\<close> into the candidate; \<open>src\<close> is the snapshot of the source directory, if any.\<close>

definition remove_files_target :: "unit io" where
  "remove_files_target s = io_when (entry (cand s) files_name \<noteq> None) (io_op (RmEntry Cand files_name)) s"

definition copy_bundle_files :: "fnode option \<Rightarrow> unit io" where
  "copy_bundle_files src = (case src of
     None \<Rightarrow> remove_files_target
   | Some f \<Rightarrow> io_then (io_op (Mkdir Cand))
       (io_then remove_files_target (io_op (PutAtomic Cand files_name f))))"

definition copy_candidate_to_durable :: "tree \<Rightarrow> unit io" where
  "copy_candidate_to_durable d = io_then (rm_if_exists Cand) (io_op (CopyTree Cand d))"

definition write_first_config_marker :: "unit io" where
  "write_first_config_marker = io_op (PutFile Cand first_config (FReg 384 (Raw ''ok'')))"

definition carry_first_config_marker :: "unit io" where
  "carry_first_config_marker s = (case entry (cfg s) first_config of
     Some (FReg m c) \<Rightarrow> io_op (PutFile Cand first_config (FReg 420 c)) s
   | _ \<Rightarrow> write_first_config_marker s)"

text \<open>
  How an apply ends when it does not raise an unexpected exception: with its result, or with the
  \<^verbatim>\<open>ProvisionError\<close> that carries the rollback status.
\<close>

datatype apply_outcome = Applied "pyval dict" | ActivationFailed "string list" string

definition preserve_files :: "pyval dict \<Rightarrow> unit io" where
  "preserve_files manifest s =
     io_when (get_val manifest ''preserve_bundle_files'' = VBool True)
       (copy_bundle_files (entry (cfg s) files_name)) s"

definition promote_reapply :: "activation \<Rightarrow> pyval dict \<Rightarrow> apply_outcome io" where
  "promote_reapply act manifest =
     io_bind (io_res (staged_success_result manifest True)) (\<lambda>res.
     io_bind (io_res (from_manifest manifest res)) (\<lambda>tx.
     io_then (preserve_files manifest)
     (io_then carry_first_config_marker
     (io_then (mark_promoted tx Cand)
     (io_then atomic_promote
     (io_bind (complete_reapply act (mark_committed tx)) (\<lambda>(success, failures, status).
        if success then io_ret (Applied res) else io_ret (ActivationFailed failures status))))))))"

definition promote_initial :: "activation \<Rightarrow> bool \<Rightarrow> pyval dict \<Rightarrow> apply_outcome io" where
  "promote_initial act activate manifest =
     io_then write_first_config_marker
     (io_bind (io_res (staged_success_result manifest False)) (\<lambda>res.
     io_bind (io_res (from_manifest manifest res)) (\<lambda>tx.
     io_then (mark_promoted tx Cand)
     (io_then atomic_promote_initial
     (if activate then
        io_bind (complete_reapply act (mark_committed tx)) (\<lambda>(success, failures, status).
          if success then io_ret (Applied res)
          else if status = ''completed'' then io_ret (ActivationFailed failures ''completed'')
          else io_then discard_initial_config (io_ret (ActivationFailed failures ''discarded'')))
      else
        io_then (mark_committed tx) (io_then cleanup_rollback (io_ret (Applied res))))))))"

definition promote_pre_rendered_candidate ::
  "activation \<Rightarrow> bool \<Rightarrow> tree \<Rightarrow> fnode option \<Rightarrow> pyval dict \<Rightarrow> apply_outcome io" where
  "promote_pre_rendered_candidate act activate d bundle manifest =
     io_then recover_config_root (\<lambda>s.
       if is_provisioned_config_root (cfg s) \<and> \<not> py_truthy (get_or (VBool True) manifest ''allow_reapply'')
       then io_raise (ProvisionError ''config already provisioned; reapply requires authenticated API access'') s
       else
         io_then (copy_candidate_to_durable d)
         (io_then (io_when (bundle \<noteq> None) (copy_bundle_files bundle))
           (if is_provisioned_config_root (cfg s) then promote_reapply act manifest
            else promote_initial act activate manifest)) s)"

subsection \<open>What an interrupted re-apply leaves\<close>

text \<open>The same configuration, up to the managed-user record and stray temporary files.\<close>

definition same_config :: "tree \<Rightarrow> tree option \<Rightarrow> bool" where
  "same_config c t = (t \<noteq> None \<and> (\<forall>n. n \<noteq> managed_users \<and> \<not> temp_name n \<longrightarrow> entry t n = map_of c n))"

text \<open>The candidate \<open>d\<close>, up to what promotion writes into it.\<close>

definition new_config :: "tree \<Rightarrow> tree option \<Rightarrow> bool" where
  "new_config d t = (t \<noteq> None \<and>
     (\<forall>n. n \<notin> {managed_users, files_name, first_config, apply_receipt} \<and> \<not> temp_name n \<longrightarrow>
        entry t n = map_of d n))"

definition uncommitted :: "tree option \<Rightarrow> bool" where
  "uncommitted t = (case read_apply_receipt t of
     Inl e \<Rightarrow> False | Inr None \<Rightarrow> True | Inr (Some r) \<Rightarrow> phase r = PROMOTED)"

definition settled :: "tree \<Rightarrow> cfs \<Rightarrow> bool" where
  "settled c s = (same_config c (cfg s) \<and> (promo s \<longrightarrow> rb s = None))"

definition pending :: "tree \<Rightarrow> cfs \<Rightarrow> bool" where
  "pending c s = (promo s \<and> same_config c (rb s) \<and> (rbact s \<or> uncommitted (cfg s)))"

definition committed :: "receipt \<Rightarrow> tree \<Rightarrow> cfs \<Rightarrow> bool" where
  "committed r d s = (\<not> rbact s \<and> phase r = COMMITTED \<and>
     read_apply_receipt (cfg s) = Inr (Some r) \<and> new_config d (cfg s))"

text \<open>The receipt a re-apply of \<open>manifest\<close> commits with.\<close>

definition reapply_receipt :: "pyval dict \<Rightarrow> receipt option" where
  "reapply_receipt manifest = (case rbind (staged_success_result manifest True) (from_manifest manifest) of
     Inl e \<Rightarrow> None | Inr tx \<Rightarrow> Some (receipt_of tx COMMITTED))"

definition apply_safe :: "tree \<Rightarrow> pyval dict \<Rightarrow> tree \<Rightarrow> cfs \<Rightarrow> bool" where
  "apply_safe c manifest d s =
     (settled c s \<or> pending c s \<or> (\<exists>r. reapply_receipt manifest = Some r \<and> committed r d s))"

text \<open>A configuration a previous apply left: provisioned, with no receipt or a committed one.\<close>

definition established :: "tree \<Rightarrow> bool" where
  "established c = (is_regular (map_of c config_toml) \<and>
     (case read_apply_receipt (Some c) of
        Inl e \<Rightarrow> False | Inr None \<Rightarrow> True | Inr (Some r) \<Rightarrow> phase r = COMMITTED))"

text \<open>The states between the steps: before the swap, and after it until the commit.\<close>

definition prepared :: "tree \<Rightarrow> cfs \<Rightarrow> bool" where
  "prepared c s = (same_config c (cfg s) \<and> \<not> promo s \<and> \<not> rbact s)"

definition swapped :: "tree \<Rightarrow> transaction \<Rightarrow> tree \<Rightarrow> cfs \<Rightarrow> bool" where
  "swapped c tx d s = (promo s \<and> same_config c (rb s) \<and> \<not> rbact s \<and> new_config d (cfg s) \<and>
     read_apply_receipt (cfg s) = Inr (Some (receipt_of tx PROMOTED)))"

text \<open>The program recovery runs, as a function of the state it first reads.\<close>

definition keep_committed :: "receipt option \<Rightarrow> recovery io" where
  "keep_committed r =
     io_then (rm_if_exists Cand) (io_then cleanup_rollback (io_ret (recovery_of r False False)))"

definition recovery_plan :: "cfs \<Rightarrow> recovery io" where
  "recovery_plan s =
     (if rbact s then io_then recover_config_root (report True)
      else case read_apply_receipt (cfg s) of
        Inl e \<Rightarrow> io_raise e
      | Inr r \<Rightarrow>
          (if (case r of Some rc \<Rightarrow> phase rc = COMMITTED | None \<Rightarrow> False) then keep_committed r
           else if r \<noteq> None \<and> rb s = None
           then io_then discard_initial_config (io_ret (recovery_of None True False))
           else if promo s \<and> rb s \<noteq> None
           then io_then begin_rollback_activation (io_then recover_config_root (report True))
           else io_then recover_config_root (report False)))"

text \<open>The two configurations recovery may leave, and the receipt it reports.\<close>

definition resolved :: "tree \<Rightarrow> pyval dict \<Rightarrow> tree \<Rightarrow> recovery \<Rightarrow> cfs \<Rightarrow> bool" where
  "resolved c manifest d rc w = (cand w = None \<and> \<not> promo w \<and> \<not> discarded_initial rc \<and>
     (same_config c (cfg w) \<and> read_apply_receipt (Some c) = Inr (rec_receipt rc) \<or>
      (\<exists>r. reapply_receipt manifest = Some r \<and> committed r d w \<and> rb w = None \<and> rec_receipt rc = Some r)))"

text \<open>The candidate while it is completed, and once the receipt is in it.\<close>

abbreviation filling :: "tree \<Rightarrow> tree \<Rightarrow> cfs \<Rightarrow> bool" where
  "filling c d s \<equiv> prepared c s \<and> new_config d (cand s)"

abbreviation receipted :: "tree \<Rightarrow> transaction \<Rightarrow> tree \<Rightarrow> cfs \<Rightarrow> bool" where
  "receipted c tx d s \<equiv> filling c d s \<and> read_apply_receipt (cand s) = Inr (Some (receipt_of tx PROMOTED))"

definition sample_manifest :: "pyval dict" where
  "sample_manifest = [(''version'', VInt 1), (''job_id'', VStr ''job-1''),
     (''source_sha256'', VStr (replicate 64 CHR ''a'')), (''warnings'', VList [])]"

section \<open>Theorems\<close>

subsection \<open>Receipts\<close>

lemma files_name_neq [simp]:
  "files_name \<noteq> managed_users" "files_name \<noteq> apply_receipt" "files_name \<noteq> config_toml" "files_name \<noteq> first_config"
  "managed_users \<noteq> files_name" "apply_receipt \<noteq> files_name" "config_toml \<noteq> files_name" "first_config \<noteq> files_name"
  by (simp_all add: files_name_def managed_users_def apply_receipt_def config_toml_def first_config_def)

lemma temp_not_receipt: "temp_name k \<Longrightarrow> k \<noteq> apply_receipt"
  by (auto simp: temp_name_def)

lemma read_receipt_None [simp]: "read_apply_receipt None = Inr None"
  by (simp add: read_apply_receipt_def)

lemma read_receipt_other [simp]:
  "n \<noteq> apply_receipt \<Longrightarrow> read_apply_receipt (Some (dset n f t)) = read_apply_receipt (Some t)"
  by (simp add: read_apply_receipt_def)

lemma read_receipt_temp [simp]:
  "temp_name k \<Longrightarrow> read_apply_receipt (Some (dset k f t)) = read_apply_receipt (Some t)"
  using temp_not_receipt by simp

lemma read_receipt_cong:
  "entry t apply_receipt = entry u apply_receipt \<Longrightarrow> read_apply_receipt t = read_apply_receipt u"
  by (simp add: read_apply_receipt_def)

lemma from_manifest_Inr:
  "from_manifest manifest res = Inr tx \<Longrightarrow>
     validate_job_id (VStr (tx_job_id tx)) = Inr (tx_job_id tx) \<and> is_sha256 (VStr (tx_source_sha256 tx)) \<and>
     tx_result tx = res \<and> get_or (VStr []) manifest ''job_id'' = VStr (tx_job_id tx) \<and>
     get_val manifest ''source_sha256'' = VStr (tx_source_sha256 tx)"
  by (cases "get_val manifest ''source_sha256''")
    (auto simp: from_manifest_def res_simps validate_job_id_Inr split: if_splits)

lemma read_receipt_written:
  assumes "from_manifest manifest res = Inr tx"
  shows "read_apply_receipt (Some (dset apply_receipt (receipt_file tx ph) t)) = Inr (Some (receipt_of tx ph))"
  using from_manifest_Inr [OF assms]
  by (cases ph)
    (simp_all add: read_apply_receipt_def receipt_file_def parse_receipt_def get_or_def
      parse_phase_def receipt_of_def)

lemma committed_result_Some:
  "committed_result_for_manifest r jid (Some m) = Some res \<longleftrightarrow>
     (\<exists>rc. r = Some rc \<and> phase rc = COMMITTED \<and> job_id rc = jid \<and>
        get_val m ''source_sha256'' = VStr (source_sha256 rc) \<and> res = result rc)"
  by (auto simp: committed_result_for_manifest_def split: option.splits if_splits)

subsection \<open>Roots\<close>

lemma same_config_refl [simp]: "same_config c (Some c)"
  by (simp add: same_config_def)

lemma same_config_None [simp]: "\<not> same_config c None"
  by (simp add: same_config_def)

lemma same_config_record [simp]: "same_config c (Some (dset managed_users f t)) = same_config c (Some t)"
  by (auto simp: same_config_def)

lemma same_config_temp [simp]: "temp_name k \<Longrightarrow> same_config c (Some (dset k f t)) = same_config c (Some t)"
  by (auto simp: same_config_def)

lemma same_config_receipt: "same_config c t \<Longrightarrow> read_apply_receipt t = read_apply_receipt (Some c)"
  by (intro read_receipt_cong) (simp add: same_config_def)

lemma same_config_toml: "same_config c t \<Longrightarrow> entry t config_toml = map_of c config_toml"
  by (simp add: same_config_def)

lemma new_config_refl [simp]: "new_config d (Some d)"
  by (simp add: new_config_def)

lemma new_config_put:
  assumes "n \<in> {managed_users, files_name, first_config, apply_receipt} \<or> temp_name n"
  shows "new_config d (Some (dset n f t)) = new_config d (Some t)"
proof -
  have "entry (Some (dset n f t)) k = entry (Some t) k"
    if "k \<notin> {managed_users, files_name, first_config, apply_receipt}" "\<not> temp_name k" for k
  proof -
    have "k \<noteq> n" using assms that by blast
    then show ?thesis by simp
  qed
  then show ?thesis unfolding new_config_def by auto
qed

lemma new_config_puts [simp]:
  "new_config d (Some (dset managed_users f t)) = new_config d (Some t)"
  "new_config d (Some (dset files_name f t)) = new_config d (Some t)"
  "new_config d (Some (dset first_config f t)) = new_config d (Some t)"
  "new_config d (Some (dset apply_receipt f t)) = new_config d (Some t)"
  "temp_name k \<Longrightarrow> new_config d (Some (dset k f t)) = new_config d (Some t)"
  by (rule new_config_put; simp)+

lemma new_config_rm [simp]: "new_config d (Some (dpop files_name t)) = new_config d (Some t)"
  by (auto simp: new_config_def)

lemma uncommitted_None [simp]: "uncommitted None"
  by (simp add: uncommitted_def)

lemma ignores_cand_safe [simp]:
  "ignores_cand (settled c)" "ignores_cand (apply_safe c manifest d)"
  by (simp_all add: ignores_cand_def settled_def apply_safe_def pending_def committed_def)

subsection \<open>Every interruption of a re-apply is safe\<close>

named_theorems safeI "states that are safe for a re-apply"

lemma settled_safe [safeI]: "settled c s \<Longrightarrow> apply_safe c manifest d s"
  and pending_safe [safeI]: "pending c s \<Longrightarrow> apply_safe c manifest d s"
  by (simp_all add: apply_safe_def)

lemma prepared_settled [safeI]: "prepared c s \<Longrightarrow> settled c s"
  by (simp add: prepared_def settled_def)

lemma swapped_pending [safeI]: "swapped c tx d s \<Longrightarrow> pending c s"
  by (simp add: swapped_def pending_def uncommitted_def receipt_of_def)

lemma triple_recover_settled:
  assumes "map_of c config_toml \<noteq> None"
  shows "triple (\<lambda>s. settled c s \<and> rbact s = b) recover_config_root (\<lambda>s. settled c s \<and> rbact s = b)
    (\<lambda>_ s. same_config c (cfg s) \<and> \<not> promo s \<and> rbact s = b)"
proof -
  have "crash (ops_of recover_config_root s) s u \<Longrightarrow> settled c u \<and> rbact u = rbact s"
    "same_config c (cfg (final recover_config_root s)) \<and> \<not> promo (final recover_config_root s) \<and>
      rbact (final recover_config_root s) = rbact s" if "settled c s" for s u
    using that assms same_config_toml [of c "cfg s"]
    by (cases "cand s"; auto simp: settled_def recover_config_root_def ops_of_def final_def io_simps crash_Cons
        split: if_splits)+
  then show ?thesis by (auto simp: triple_def)
qed

text \<open>Steps on the active root that keep its configuration.\<close>

lemma triple_record_settled:
  "triple (settled c) (write_managed_state Cfg names) (settled c) (\<lambda>_. settled c)"
  unfolding write_managed_state_def
  by (rule triple_op) (auto simp: settled_def split: option.splits)

lemma triple_unlink_settled:
  "triple (settled c) (io_op (UnlinkMark m)) (settled c) (\<lambda>_. settled c)"
  by (rule triple_op) (cases m; auto simp: settled_def)+

lemma triple_restore:
  "triple (\<lambda>s. pending c s \<and> rbact s) restore_rollback (apply_safe c manifest d) (\<lambda>_. settled c)"
proof -
  let ?m = "\<lambda>s. read_managed_state (rb s) \<union> read_managed_state (cfg s)"
  let ?finish = "\<lambda>s. io_then (io_when (?m s \<noteq> {}) (write_managed_state Cfg (?m s)))
    (io_then (io_op (UnlinkMark Promo)) (io_ret True))"
  let ?f = "\<lambda>s. if rb s = None then io_then (io_op (UnlinkMark Promo)) (io_ret False)
     else io_then (rm_if_exists Cfg) (io_then (io_op (Rename Rb Cfg)) (?finish s))"
  have eq: "restore_rollback s = ?f s s" for s by (simp add: restore_rollback_def Let_def)
  have wf: "io_wf (?f s)" for s by (auto simp: write_managed_state_def)
  let ?I = "apply_safe c manifest d"
  let ?P = "\<lambda>s. pending c s \<and> rbact s"
  have finish: "triple (settled c) (?finish s) ?I (\<lambda>_. settled c)" for s
    by (rule triple_conseq [where I = "settled c" and P = "settled c" and Q = "\<lambda>_. settled c"])
      (auto intro!: triple_then triple_when triple_ret triple_record_settled triple_unlink_settled intro: safeI)
  have rename: "triple (\<lambda>t. ?P t \<and> cfg t = None) (io_op (Rename Rb Cfg)) ?I (\<lambda>_. settled c)"
    by (rule triple_op) (auto simp: apply_safe_def settled_def pending_def split: option.splits if_splits)
  have rm: "triple ?P (rm_if_exists Cfg) ?I (\<lambda>_ t. ?P t \<and> cfg t = None)"
    by (rule triple_rm) (auto simp: apply_safe_def pending_def)
  have "triple (\<lambda>t. t = s) (?f s) ?I (\<lambda>_. settled c)" if s: "?P s" for s
  proof -
    have "rb s \<noteq> None" using s by (auto simp: pending_def same_config_def)
    then have f: "?f s = io_then (rm_if_exists Cfg) (io_then (io_op (Rename Rb Cfg)) (?finish s))" by (rule if_not_P)
    show ?thesis
      unfolding f using triple_then [OF rm triple_then [OF rename finish [of s]]]
      by (rule triple_conseq) (use s in auto)
  qed
  then show ?thesis by (rule triple_dep [where f = ?f, OF eq wf])
qed

lemma ignores_cand_prepared [simp]: "ignores_cand (prepared c)"
  by (simp add: ignores_cand_def prepared_def)

lemma prepared_safe [safeI]: "prepared c s \<Longrightarrow> apply_safe c manifest d s"
  by (intro safeI)

lemma triple_cand_prepared:
  assumes "cand_op op" and "\<And>s s1. P s \<Longrightarrow> exec op s = Inr s1 \<Longrightarrow> Q s1"
  shows "triple (\<lambda>s. prepared c s \<and> P s) (io_op op) (apply_safe c manifest d) (\<lambda>_ s. prepared c s \<and> Q s)"
  using assms by (intro triple_cand) (auto intro: prepared_safe)

lemma triple_mkdir_candidate:
  "triple (filling c d) (io_op (Mkdir Cand)) (apply_safe c manifest d) (\<lambda>_. filling c d)"
  by (rule triple_cand_prepared) (auto simp: new_config_def split: option.splits)

lemma triple_put_candidate:
  assumes "n \<in> {files_name, first_config}"
  shows "triple (filling c d) (io_op (PutFile Cand n f)) (apply_safe c manifest d) (\<lambda>_. filling c d)"
    and "triple (filling c d) (io_op (PutAtomic Cand n f)) (apply_safe c manifest d) (\<lambda>_. filling c d)"
  using assms by (auto intro!: triple_cand_prepared split: option.splits)

lemma triple_remove_files:
  "triple (filling c d) remove_files_target (apply_safe c manifest d) (\<lambda>_. filling c d)"
proof -
  have "triple (filling c d) (io_op (RmEntry Cand files_name)) (apply_safe c manifest d) (\<lambda>_. filling c d)"
    by (rule triple_cand_prepared) (auto split: option.splits)
  then have guarded: "triple (filling c d) (io_when b (io_op (RmEntry Cand files_name))) (apply_safe c manifest d)
      (\<lambda>_. filling c d)" for b
    by (intro triple_when) (auto intro: prepared_safe)
  show ?thesis
    by (rule triple_read [OF _ guarded, where m = remove_files_target]) (simp add: remove_files_target_def)
qed

lemma triple_copy_bundle:
  "triple (filling c d) (copy_bundle_files src) (apply_safe c manifest d) (\<lambda>_. filling c d)"
  using triple_put_candidate(2) [of files_name] triple_remove_files triple_mkdir_candidate
  by (cases src) (auto simp: copy_bundle_files_def intro!: triple_then)

lemma triple_copy_candidate:
  "triple (prepared c) (copy_candidate_to_durable d) (apply_safe c manifest d) (\<lambda>_. filling c d)"
proof -
  have rm: "triple (prepared c) (rm_if_exists Cand) (apply_safe c manifest d) (\<lambda>_. prepared c)"
    by (rule triple_rm) (auto simp: apply_safe_def settled_def prepared_def)
  have copy: "triple (\<lambda>s. prepared c s \<and> True) (io_op (CopyTree Cand d)) (apply_safe c manifest d) (\<lambda>_. filling c d)"
    by (rule triple_cand_prepared) (auto split: option.splits)
  show ?thesis
    unfolding copy_candidate_to_durable_def by (rule triple_then [OF rm]) (use copy in simp)
qed

lemma triple_mark_promoted:
  assumes "from_manifest manifest res = Inr tx"
  shows "triple (filling c d) (mark_promoted tx Cand) (apply_safe c manifest d) (\<lambda>_. receipted c tx d)"
proof -
  have "triple (filling c d) (io_op (PutAtomic Cand apply_receipt (receipt_file tx PROMOTED)))
      (apply_safe c manifest d) (\<lambda>_ s. prepared c s \<and> new_config d (cand s) \<and>
        read_apply_receipt (cand s) = Inr (Some (receipt_of tx PROMOTED)))"
    by (rule triple_cand_prepared) (auto simp: read_receipt_written [OF assms] split: option.splits)
  then show ?thesis
    using triple_mkdir_candidate by (auto simp: mark_promoted_def write_receipt_def intro!: triple_then)
qed

lemma triple_promote:
  "triple (receipted c tx d) atomic_promote (apply_safe c manifest d) (\<lambda>_. swapped c tx d)"
proof -
  let ?I = "apply_safe c manifest d"
  have "triple (receipted c tx d) (rm_if_exists Rb) ?I (\<lambda>_ s. receipted c tx d s \<and> rb s = None)"
    by (rule triple_rm) (auto simp: apply_safe_def settled_def prepared_def)
  moreover have "triple (\<lambda>s. receipted c tx d s \<and> rb s = None) (io_op (WriteMark Promo)) ?I
      (\<lambda>_ s. receipted c tx d (s\<lparr>promo := False\<rparr>) \<and> promo s \<and> rb s = None)"
    by (rule triple_op) (auto simp: apply_safe_def settled_def prepared_def)
  moreover have "triple (\<lambda>s. receipted c tx d (s\<lparr>promo := False\<rparr>) \<and> promo s \<and> rb s = None) (io_op (Rename Cfg Rb)) ?I
      (\<lambda>_ s. promo s \<and> same_config c (rb s) \<and> \<not> rbact s \<and> cfg s = None \<and> new_config d (cand s) \<and>
         read_apply_receipt (cand s) = Inr (Some (receipt_of tx PROMOTED)))"
    by (rule triple_op) (auto simp: apply_safe_def settled_def pending_def prepared_def split: option.splits)
  moreover have "triple (\<lambda>s. promo s \<and> same_config c (rb s) \<and> \<not> rbact s \<and> cfg s = None \<and> new_config d (cand s) \<and>
      read_apply_receipt (cand s) = Inr (Some (receipt_of tx PROMOTED))) (io_op (Rename Cand Cfg)) ?I
      (\<lambda>_. swapped c tx d)"
    by (rule triple_op) (auto simp: apply_safe_def pending_def swapped_def uncommitted_def receipt_of_def split: option.splits)
  ultimately show ?thesis unfolding atomic_promote_def by (intro triple_then)
qed

lemma triple_activate_swapped:
  "triple (swapped c tx d) (run_activation act) (apply_safe c manifest d) (\<lambda>_. swapped c tx d)"
proof (rule triple_activation)
  show "triple (swapped c tx d) (write_managed_state Cfg names) (apply_safe c manifest d) (\<lambda>_. swapped c tx d)" for names
    unfolding write_managed_state_def
    by (rule triple_op) (auto simp: swapped_def split: option.splits 
        intro!: pending_safe swapped_pending [of c tx d])
qed (intro pending_safe swapped_pending)

lemma triple_activate_settled:
  "triple (settled c) (run_activation act) (apply_safe c manifest d) (\<lambda>_. settled c)"
  by (rule triple_activation) (auto intro: settled_safe triple_conseq [OF triple_record_settled])

lemma triple_failed:
  "triple (swapped c tx d) mark_rollback_activation (apply_safe c manifest d) (\<lambda>_ s. pending c s \<and> rbact s)"
proof -
  let ?f = "\<lambda>s. io_when (rb s \<noteq> None) begin_rollback_activation"
  have eq: "mark_rollback_activation s = ?f s s" for s
    by (simp add: mark_rollback_activation_def)
  have wf: "io_wf (?f s)" for s
    by (auto simp: begin_rollback_activation_def)
  have "triple (\<lambda>t. t = s) (?f s) (apply_safe c manifest d) (\<lambda>_ s. pending c s \<and> rbact s)"
    if s: "swapped c tx d s" for s
  proof -
    have "?f s = begin_rollback_activation"
      using s by (auto simp: io_when_def swapped_def same_config_def)
    moreover have "triple (\<lambda>t. t = s) begin_rollback_activation (apply_safe c manifest d) (\<lambda>_ s. pending c s \<and> rbact s)"
      unfolding begin_rollback_activation_def
      by (rule triple_op) (use s in \<open>auto simp: swapped_def pending_def apply_safe_def uncommitted_def receipt_of_def\<close>)
    ultimately show ?thesis by (simp only:)
  qed
  then show ?thesis by (rule triple_dep [where f = ?f, OF eq wf])
qed

lemma triple_rollback_activation:
  "triple (settled c) (run_rollback_activation act) (apply_safe c manifest d) (\<lambda>_. settled c)"
  unfolding run_rollback_activation_def
  by (intro triple_bind [OF triple_activate_settled] triple_then [where Q = "settled c"] triple_ret
      triple_conseq [OF triple_unlink_settled]) (auto intro: settled_safe)

lemma triple_mark_committed:
  assumes "from_manifest manifest res = Inr tx" "reapply_receipt manifest = Some (receipt_of tx COMMITTED)"
  shows "triple (swapped c tx d) (mark_committed tx) (apply_safe c manifest d)
    (\<lambda>_. committed (receipt_of tx COMMITTED) d)"
proof -
  let ?I = "apply_safe c manifest d"
  let ?f = "\<lambda>s. case read_apply_receipt (cfg s) of Inl e \<Rightarrow> io_raise e
      | Inr r \<Rightarrow> (if r = Some (receipt_of tx PROMOTED) then write_receipt tx Cfg COMMITTED
           else io_raise (ProvisionError ''cannot commit staged apply without its promoted receipt''))"
  have eq: "mark_committed tx s = ?f s s" for s
    by (simp add: mark_committed_def split: sum.split)
  have wf: "io_wf (?f s)" for s by (auto simp: write_receipt_def split: sum.split)
  have mkdir: "triple (swapped c tx d) (io_op (Mkdir Cfg)) ?I (\<lambda>_. swapped c tx d)"
    by (rule triple_op) (auto simp: swapped_def new_config_def split: option.splits
        intro!: pending_safe swapped_pending [of c tx d])
  have safe: "committed (receipt_of tx COMMITTED) d s \<Longrightarrow> ?I s" for s
    using assms(2) by (simp add: apply_safe_def)
  have put: "triple (swapped c tx d) (io_op (PutAtomic Cfg apply_receipt (receipt_file tx COMMITTED))) ?I
      (\<lambda>_. committed (receipt_of tx COMMITTED) d)"
  proof (rule triple_op)
    show "?I s" if "swapped c tx d s" for s using that by (intro pending_safe swapped_pending)
    show "?I u" if "swapped c tx d s" "midway (PutAtomic Cfg apply_receipt (receipt_file tx COMMITTED)) s u" for s u
      using that by (auto simp: swapped_def intro!: pending_safe swapped_pending [of c tx d])
    show "?I s1 \<and> committed (receipt_of tx COMMITTED) d s1"
      if "swapped c tx d s" "exec (PutAtomic Cfg apply_receipt (receipt_file tx COMMITTED)) s = Inr s1" for s s1
    proof -
      have "committed (receipt_of tx COMMITTED) d s1"
        using that by (auto simp: swapped_def committed_def read_receipt_written [OF assms(1)] receipt_of_def
            split: option.splits)
      with safe show ?thesis by blast
    qed
  qed
  have "triple (\<lambda>t. t = s) (?f s) ?I (\<lambda>_. committed (receipt_of tx COMMITTED) d)" if "swapped c tx d s" for s
  proof -
    have "?f s = write_receipt tx Cfg COMMITTED" using that by (simp add: swapped_def)
    then show ?thesis
      using that by (auto simp: write_receipt_def intro: triple_conseq [OF triple_then [OF mkdir put]])
  qed
  then show ?thesis by (rule triple_dep [where f = ?f, OF eq wf])
qed

lemma triple_cleanup:
  assumes "reapply_receipt manifest = Some r"
  shows "triple (committed r d) cleanup_rollback (apply_safe c manifest d) (\<lambda>_. committed r d)"
proof -
  have safe: "committed r d s \<Longrightarrow> apply_safe c manifest d s" for s
    using assms by (simp add: apply_safe_def)
  have "triple (committed r d) (rm_if_exists Rb) (apply_safe c manifest d) (\<lambda>_. committed r d)"
    by (rule triple_rm) (auto intro!: safe simp: committed_def)
  moreover have "triple (committed r d) (io_op (UnlinkMark Promo)) (apply_safe c manifest d) (\<lambda>_. committed r d)"
    by (rule triple_op) (auto intro!: safe simp: committed_def)
  ultimately show ?thesis unfolding cleanup_rollback_def by (rule triple_then)
qed

lemma triple_complete:
  assumes "from_manifest manifest res = Inr tx" "reapply_receipt manifest = Some (receipt_of tx COMMITTED)"
  shows "triple (swapped c tx d) (complete_reapply act (mark_committed tx)) (apply_safe c manifest d) (\<lambda>_ _. True)"
proof -
  let ?I = "apply_safe c manifest d"
  have ok: "triple (swapped c tx d) (io_then (mark_committed tx) (io_then cleanup_rollback
      (io_ret (True, [] :: string list, ''skipped'')))) ?I (\<lambda>_ _. True)"
    by (rule triple_then [OF triple_mark_committed [OF assms] triple_then [OF triple_cleanup [OF assms(2)]
          triple_ret]]) (auto simp: apply_safe_def assms(2))
  have ret: "triple (settled c) (io_ret x) ?I (\<lambda>_ _. True)" for x :: "bool \<times> string list \<times> string"
    by (rule triple_ret) (auto intro: settled_safe)
  have fail: "triple (swapped c tx d) (io_then mark_rollback_activation (io_bind restore_rollback (\<lambda>restored.
       if restored then io_bind (run_rollback_activation act) g else io_ret h))) ?I (\<lambda>_ _. True)"
    if "\<And>rf. triple (settled c) (g rf) ?I (\<lambda>_ _. True)" for g and h :: "bool \<times> string list \<times> string"
    by (rule triple_then [OF triple_failed triple_bind [OF triple_restore]])
      (auto intro!: triple_bind [OF triple_rollback_activation] ret that)
  show ?thesis
    unfolding complete_reapply_def
    by (rule triple_bind [OF triple_activate_swapped]) (auto intro!: ok fail ret)
qed

lemma triple_promote_reapply:
  "triple (filling c d) (promote_reapply act manifest) (apply_safe c manifest d) (\<lambda>_ _. True)"
proof -
  let ?I = "apply_safe c manifest d"
  have marker: "triple (filling c d) carry_first_config_marker ?I (\<lambda>_. filling c d)"
  proof -
    let ?f = "\<lambda>s. case entry (cfg s) first_config of
       Some (FReg m c) \<Rightarrow> io_op (PutFile Cand first_config (FReg 420 c)) | _ \<Rightarrow> write_first_config_marker"
    have "carry_first_config_marker s = ?f s s" for s
      by (simp add: carry_first_config_marker_def split: option.split fnode.split)
    moreover have "triple (filling c d) (?f s) ?I (\<lambda>_. filling c d)" for s
      using triple_put_candidate(1) [of first_config]
      by (auto simp: write_first_config_marker_def split: option.split fnode.split)
    ultimately show ?thesis by (rule triple_read [where f = ?f])
  qed
  have files: "triple (filling c d) (preserve_files manifest) ?I (\<lambda>_. filling c d)"
  proof -
    let ?f = "\<lambda>s. io_when (get_val manifest ''preserve_bundle_files'' = VBool True)
       (copy_bundle_files (entry (cfg s) files_name))"
    have "preserve_files manifest s = ?f s s" for s by (simp add: preserve_files_def)
    moreover have "triple (filling c d) (?f s) ?I (\<lambda>_. filling c d)" for s
      by (intro triple_when triple_copy_bundle) (auto intro: prepared_safe)
    ultimately show ?thesis by (rule triple_read [where f = ?f])
  qed
  have body: "triple (filling c d)
     (io_then (preserve_files manifest) (io_then carry_first_config_marker (io_then (mark_promoted tx Cand)
       (io_then atomic_promote (io_bind (complete_reapply act (mark_committed tx)) (\<lambda>(success, failures, status).
          if success then io_ret (Applied res) else io_ret (ActivationFailed failures status))))))) ?I (\<lambda>_ _. True)"
    if "staged_success_result manifest True = Inr res" "from_manifest manifest res = Inr tx" for res tx
  proof -
    have rc: "reapply_receipt manifest = Some (receipt_of tx COMMITTED)"
      using that by (simp add: reapply_receipt_def)
    have finish: "triple (swapped c tx d) (io_bind (complete_reapply act (mark_committed tx)) (\<lambda>(success, failures, status).
        if success then io_ret (Applied res) else io_ret (ActivationFailed failures status))) ?I (\<lambda>_ _. True)"
      by (rule triple_post) (rule triple_bind [OF triple_strong [OF triple_complete [OF that(2) rc]]],
          auto split: prod.split intro!: triple_ret)
    show ?thesis
      by (rule triple_then [OF files triple_then [OF marker triple_then [OF triple_mark_promoted [OF that(2)]
            triple_then [OF triple_promote finish]]]])
  qed
  show ?thesis
    unfolding promote_reapply_def
    by (intro triple_bind_res body) (auto intro: prepared_safe)
qed

text \<open>The programs list the operations they perform.\<close>

lemma io_wf_promotion [simp, intro]:
  "io_wf (write_managed_state r names)" "io_wf begin_rollback_activation" "io_wf cleanup_rollback"
  "io_wf atomic_promote_initial" "io_wf (write_receipt tx r ph)" "io_wf (mark_promoted tx r)"
  "io_wf write_first_config_marker" "io_wf (copy_candidate_to_durable d)"
  by (auto simp: promotion_defs write_receipt_def mark_promoted_def write_first_config_marker_def
      copy_candidate_to_durable_def)

lemma io_wf_copy_bundle [simp, intro]: "io_wf (copy_bundle_files src)"
  using triple_wf [OF triple_copy_bundle] by blast

lemma io_wf_activation [simp, intro]: "io_wf (run_activation act)" "io_wf (run_rollback_activation act)"
  "io_wf mark_rollback_activation" "io_wf (mark_committed tx)"
proof -
  show run: "io_wf (run_activation act)" using triple_wf [OF triple_activate_settled] by blast
  show "io_wf (run_rollback_activation act)" using run by (auto simp: run_rollback_activation_def)
  show "io_wf mark_rollback_activation" using triple_wf [OF triple_failed] by blast
  have "mark_committed tx s = (case read_apply_receipt (cfg s) of Inl e \<Rightarrow> io_raise e
      | Inr r \<Rightarrow> if r = Some (receipt_of tx PROMOTED) then write_receipt tx Cfg COMMITTED
         else io_raise (ProvisionError ''cannot commit staged apply without its promoted receipt'')) s" for s
    by (simp add: mark_committed_def split: sum.split)
  then show "io_wf (mark_committed tx)" by (rule io_wf_read) (auto split: sum.split)
qed

lemma io_wf_complete [simp, intro]: "io_wf b \<Longrightarrow> io_wf (complete_reapply act b)"
  by (auto simp: complete_reapply_def)

lemma io_wf_promote [simp, intro]: "io_wf (promote_initial act activate manifest)" "io_wf (promote_reapply act manifest)"
  using triple_wf [OF triple_promote_reapply] by (auto simp: promote_initial_def)

lemma triple_promote_candidate:
  assumes "established c"
  shows "triple (\<lambda>s. settled c s \<and> \<not> rbact s) (promote_pre_rendered_candidate act activate d bundle manifest)
    (apply_safe c manifest d) (\<lambda>_ _. True)"
proof -
  let ?I = "apply_safe c manifest d"
  have toml: "is_regular (map_of c config_toml)" using assms by (simp add: established_def)
  then have some: "map_of c config_toml \<noteq> None" by (auto simp: is_regular_def split: option.splits)
  have recover: "triple (\<lambda>s. settled c s \<and> \<not> rbact s) recover_config_root ?I (\<lambda>_. prepared c)"
    by (rule triple_conseq [OF triple_recover_settled [OF some, of False]]) (auto simp: prepared_def intro: settled_safe)
  let ?deny = "\<lambda>s. is_provisioned_config_root (cfg s) \<and> \<not> py_truthy (get_or (VBool True) manifest ''allow_reapply'')"
  let ?copy = "\<lambda>k. io_then (copy_candidate_to_durable d) (io_then (io_when (bundle \<noteq> None) (copy_bundle_files bundle)) k)"
  let ?f = "\<lambda>s. if ?deny s
    then io_raise (ProvisionError ''config already provisioned; reapply requires authenticated API access'')
    else ?copy (if is_provisioned_config_root (cfg s) then promote_reapply act manifest
      else promote_initial act activate manifest)"
  have wf: "io_wf (?f s)" for s by auto
  have body: "triple (prepared c) (?copy (promote_reapply act manifest)) ?I (\<lambda>_ _. True)"
    by (rule triple_then [OF triple_copy_candidate triple_then [OF triple_when [OF triple_copy_bundle] triple_promote_reapply]])
      (auto intro: prepared_safe)
  have "triple (\<lambda>t. t = s) (?f s) ?I (\<lambda>_ _. True)" if s: "prepared c s" for s
  proof -
    have prov: "is_provisioned_config_root (cfg s)"
      using s toml same_config_toml [of c "cfg s"] by (auto simp: is_provisioned_config_root_def prepared_def)
    show ?thesis
    proof (cases "?deny s")
      case True
      have f: "?f s = io_raise (ProvisionError ''config already provisioned; reapply requires authenticated API access'')"
        using True by (rule if_P)
      show ?thesis unfolding f by (rule triple_raise) (use s in \<open>auto intro: prepared_safe\<close>)
    next
      case False
      then have f: "?f s = ?copy (promote_reapply act manifest)" using prov by (simp only: if_False if_True)
      show ?thesis unfolding f by (rule triple_conseq [OF body]) (use s in auto)
    qed
  qed
  then have "triple (prepared c) (\<lambda>s. ?f s s) ?I (\<lambda>_ _. True)" by (rule triple_dep [where f = ?f, OF refl wf])
  then have rest: "triple (prepared c) (\<lambda>s. if ?deny s
      then io_raise (ProvisionError ''config already provisioned; reapply requires authenticated API access'') s
      else ?copy (if is_provisioned_config_root (cfg s) then promote_reapply act manifest
        else promote_initial act activate manifest) s) ?I (\<lambda>_ _. True)"
    by (simp only: if_distribR)
  show ?thesis unfolding promote_pre_rendered_candidate_def by (rule triple_then [OF recover rest])
qed

subsection \<open>Recovery of an interrupted re-apply\<close>

lemma established_toml: "established c \<Longrightarrow> map_of c config_toml \<noteq> None"
  by (auto simp: established_def is_regular_def split: option.splits)

lemma triple_report: "(\<And>s. P s \<Longrightarrow> I s) \<Longrightarrow> triple P (report b) I (\<lambda>_ _. True)"
  by (rule triple_read [where f = "\<lambda>s. io_res (rbind (read_apply_receipt (cfg s)) (\<lambda>r. Inr (recovery_of r False b)))"])
    (auto simp: report_def intro: triple_res)

lemma triple_recover_pending:
  "triple (\<lambda>s. pending c s \<and> rbact s) recover_config_root (apply_safe c manifest d) (\<lambda>_. settled c)"
proof -
  have rm: "triple (settled c) (rm_if_exists Cand) (apply_safe c manifest d) (\<lambda>_. settled c)"
    by (rule triple_rm) (auto simp: apply_safe_def settled_def)
  have eq: "recover_config_root s = io_then restore_rollback (rm_if_exists Cand) s" if "pending c s" for s
    using that by (auto simp: recover_config_root_def pending_def same_config_def)
  show ?thesis
    unfolding triple_def
  proof (intro conjI allI impI io_wf_recover)
    fix s u x assume s: "pending c s \<and> rbact s"
    note t = tripleD [OF triple_then [OF triple_restore rm] s]
    show "crash (ops_of recover_config_root s) s u \<Longrightarrow> apply_safe c manifest d u"
      using t(1) eq [of s] s by (simp add: ops_of_def)
    show "outcome recover_config_root s = Inr x \<Longrightarrow> settled c (final recover_config_root s)"
      using t(4) eq [of s] s by (simp add: outcome_def final_def)
  qed
qed

lemma triple_recover:
  assumes "established c"
  shows "triple (\<lambda>s. settled c s \<or> pending c s \<and> rbact s) (io_then recover_config_root (report b))
    (apply_safe c manifest d) (\<lambda>_ _. True)"
proof (rule triple_then [OF triple_disj triple_report])
  show "triple (settled c) recover_config_root (apply_safe c manifest d) (\<lambda>_. settled c)"
    by (rule triple_split [where g = rbact],
        rule triple_conseq [OF triple_recover_settled [OF established_toml [OF assms]]])
      (auto simp: settled_def intro: settled_safe)
qed (auto intro: triple_recover_pending settled_safe)

lemma recovery_plan_eq: "recover_interrupted_apply s = recovery_plan s s"
  by (cases "rb s"; cases "read_apply_receipt (cfg s)"; cases "rbact s"; cases "promo s")
    (simp_all add: recover_interrupted_apply_def recovery_plan_def keep_committed_def)

lemma io_wf_plan: "io_wf (recovery_plan s)"
proof -
  have "io_wf (report b)" for b using triple_wf [OF triple_report [of "\<lambda>_. False"]] by blast
  then show ?thesis by (auto simp: recovery_plan_def keep_committed_def split: sum.split)
qed

text \<open>What recovery finds in a safe state, and what it then does.\<close>

lemma recovery_plan_cases:
  assumes "apply_safe c manifest d s" "established c"
  obtains
    (active) "rbact s" "settled c s \<or> pending c s" "recovery_plan s = io_then recover_config_root (report True)"
  | (kept) r where "\<not> rbact s" "settled c s" "read_apply_receipt (Some c) = Inr r" "recovery_plan s = keep_committed r"
  | (plain) "\<not> rbact s" "settled c s" "recovery_plan s = io_then recover_config_root (report False)"
  | (rolled) "\<not> rbact s" "pending c s"
      "recovery_plan s = io_then begin_rollback_activation (io_then recover_config_root (report True))"
  | (committed) r where "reapply_receipt manifest = Some r" "committed r d s" "recovery_plan s = keep_committed (Some r)"
proof -
  consider (a) "rbact s" "settled c s \<or> pending c s"
    | (s) "\<not> rbact s" "settled c s" | (p) "\<not> rbact s" "pending c s"
    | (c) r where "reapply_receipt manifest = Some r" "committed r d s" "\<not> rbact s"
    using assms(1) by (auto simp: apply_safe_def committed_def)
  then show thesis
  proof cases
    case a
    then show thesis by (intro active) (auto simp: recovery_plan_def)
  next
    case s
    then have read: "read_apply_receipt (cfg s) = read_apply_receipt (Some c)"
      by (simp add: settled_def same_config_receipt)
    consider "read_apply_receipt (Some c) = Inr None"
      | r where "read_apply_receipt (Some c) = Inr (Some r)" "phase r = COMMITTED"
      using assms(2) by (auto simp: established_def split: sum.splits option.splits)
    then show thesis
    proof cases
      case 1
      then show thesis using s read by (intro plain) (auto simp: recovery_plan_def settled_def)
    next
      case (2 r)
      then show thesis using s read by (intro kept) (auto simp: recovery_plan_def)
    qed
  next
    case p
    then show thesis
      by (intro rolled)
        (auto simp: recovery_plan_def pending_def uncommitted_def same_config_def split: sum.splits option.splits)
  next
    case (c r)
    then show thesis by (intro committed) (auto simp: recovery_plan_def committed_def)
  qed
qed

lemma triple_recover_apply:
  assumes "established c"
  shows "triple (apply_safe c manifest d) recover_interrupted_apply (apply_safe c manifest d) (\<lambda>_ _. True)"
proof -
  let ?I = "apply_safe c manifest d"
  have keep_settled: "triple (settled c) (keep_committed r) ?I (\<lambda>_ _. True)" for r
    unfolding keep_committed_def cleanup_rollback_def
    by (intro triple_then [where Q = "settled c"] triple_rm triple_ret triple_conseq [OF triple_unlink_settled])
      (auto simp: settled_def intro!: settled_safe)
  have keep_new: "triple (committed r d) (keep_committed (Some r)) ?I (\<lambda>_ _. True)"
    if "reapply_receipt manifest = Some r" for r
    unfolding keep_committed_def
    by (intro triple_then [where Q = "committed r d"] triple_rm triple_ret triple_cleanup that)
      (auto simp: committed_def apply_safe_def that)
  have mark: "triple (pending c) begin_rollback_activation ?I (\<lambda>_ s. settled c s \<or> pending c s \<and> rbact s)"
    unfolding begin_rollback_activation_def by (rule triple_op) (auto simp: pending_def apply_safe_def)
  note restore = triple_then [OF mark triple_recover [OF assms, of True]]
  have "triple (\<lambda>t. t = s) (recovery_plan s) ?I (\<lambda>_ _. True)" if s: "?I s" for s
    using s assms
  proof (cases rule: recovery_plan_cases)
    case active
    then show ?thesis by (auto intro: triple_conseq [OF triple_recover [OF assms]])
  next
    case (kept r)
    then show ?thesis by (auto intro: triple_conseq [OF keep_settled])
  next
    case plain
    then show ?thesis by (auto intro: triple_conseq [OF triple_recover [OF assms]])
  next
    case rolled
    then show ?thesis by (auto intro: triple_conseq [OF restore])
  next
    case (committed r)
    then show ?thesis by (auto intro: triple_conseq [OF keep_new])
  qed
  then show ?thesis by (rule triple_dep [where f = recovery_plan, OF recovery_plan_eq io_wf_plan])
qed

lemma recover_config_result:
  assumes "settled c s \<or> pending c s" "established c"
  shows "outcome recover_config_root s = Inr () \<and> same_config c (cfg (final recover_config_root s)) \<and>
    cand (final recover_config_root s) = None \<and> \<not> promo (final recover_config_root s) \<and>
    rbact (final recover_config_root s) = rbact s"
proof (cases "settled c s")
  case True
  then have "entry (cfg s) config_toml \<noteq> None" "cfg s \<noteq> None" "promo s \<longrightarrow> rb s = None" "same_config c (cfg s)"
    using established_toml [OF assms(2)] by (auto simp: settled_def same_config_def)
  then show ?thesis
    by (cases "promo s"; cases "cand s"; simp add: recover_config_root_def io_simps)
next
  case False
  then obtain t where t: "promo s" "rb s = Some t" "same_config c (Some t)"
    using assms(1) unfolding pending_def by (metis same_config_None option.exhaust)
  note restore = restored_fields [OF t(2)]
  have cfg: "same_config c (cfg (final restore_rollback s))"
    using t(3) by (simp add: final_def restore_rollback_eval [OF t(2)])
  have "outcome recover_config_root s = outcome (rm_if_exists Cand) (final restore_rollback s)"
    "final recover_config_root s = final (rm_if_exists Cand) (final restore_rollback s)"
    using io_run_then [OF restore(5), of "rm_if_exists Cand"] t
    by (simp_all add: recover_config_root_def outcome_def final_def)
  then show ?thesis
    using cfg restore by (simp add: outcome_def final_def)
qed

lemma report_result:
  "read_apply_receipt (cfg s) = Inr r \<Longrightarrow>
     outcome (report b) s = Inr (recovery_of r False b) \<and> final (report b) s = s"
  by (simp add: report_def io_res_def outcome_def final_def)

lemma keep_committed_result:
  "outcome (keep_committed r) s = Inr (recovery_of r False False)"
  "final (keep_committed r) s = s\<lparr>cand := None, rb := None, promo := False\<rparr>"
  by (cases "cand s"; cases "rb s"; simp add: keep_committed_def cleanup_rollback_def io_simps)+

lemma recover_report_result:
  assumes "settled c s \<or> pending c s" "established c"
  shows "\<exists>r. read_apply_receipt (Some c) = Inr r \<and>
    outcome (io_then recover_config_root (report b)) s = Inr (recovery_of r False b) \<and>
    same_config c (cfg (final (io_then recover_config_root (report b)) s)) \<and>
    cand (final (io_then recover_config_root (report b)) s) = None \<and>
    \<not> promo (final (io_then recover_config_root (report b)) s)"
proof -
  let ?w = "final recover_config_root s"
  note w = recover_config_result [OF assms]
  obtain r where r: "read_apply_receipt (Some c) = Inr r"
    using assms(2) by (auto simp: established_def split: sum.splits)
  have "read_apply_receipt (cfg ?w) = Inr r" using w r same_config_receipt [of c "cfg ?w"] by simp
  from report_result [OF this, of b] show ?thesis using w r by (simp add: io_run)
qed

lemma recover_apply_result:
  assumes "apply_safe c manifest d s" "established c"
  shows "\<exists>rc. outcome recover_interrupted_apply s = Inr rc \<and>
    resolved c manifest d rc (final recover_interrupted_apply s)"
proof -
  have plan: "outcome recover_interrupted_apply s = outcome (recovery_plan s) s"
    "final recover_interrupted_apply s = final (recovery_plan s) s"
    by (simp_all add: outcome_def final_def recovery_plan_eq)
  from assms show ?thesis
  proof (cases rule: recovery_plan_cases)
    case active
    then show ?thesis
      using recover_report_result [OF active(2) assms(2), of True] by (auto simp: plan resolved_def recovery_of_def)
  next
    case (kept r)
    then show ?thesis by (auto simp: plan keep_committed_result resolved_def recovery_of_def settled_def)
  next
    case plain
    then show ?thesis
      using recover_report_result [OF disjI1 assms(2), of s False] by (auto simp: plan resolved_def recovery_of_def)
  next
    case rolled
    let ?s = "s\<lparr>rbact := True\<rparr>"
    have "outcome begin_rollback_activation s = Inr ()" "final begin_rollback_activation s = ?s"
      by (simp_all add: begin_rollback_activation_def io_run)
    moreover have "pending c ?s" using rolled(2) by (simp add: pending_def)
    ultimately show ?thesis
      using recover_report_result [OF disjI2 assms(2), of ?s True] rolled(3)
      by (auto simp: plan resolved_def recovery_of_def io_run)
  next
    case (committed r)
    then show ?thesis by (auto simp: plan keep_committed_result resolved_def recovery_of_def committed_def)
  qed
qed

interpretation reapply: crash_recovery recover_interrupted_apply
    "\<lambda>s. established c \<and> apply_safe c manifest d s" "resolved c manifest d"
  for c manifest d
proof
  show "established c \<and> apply_safe c manifest d u"
    if "established c \<and> apply_safe c manifest d s" "crash (ops_of recover_interrupted_apply s) s u" for s u
    using that tripleD(1) [OF triple_recover_apply] by blast
  show "\<exists>x. outcome recover_interrupted_apply s = Inr x \<and> resolved c manifest d x (final recover_interrupted_apply s)"
    if "established c \<and> apply_safe c manifest d s" for s
    using that recover_apply_result by blast
qed

text \<open>
  C1: a staged re-apply is atomic across crashes, and what the worker publishes is what is on disk.
  Interrupt \<^verbatim>\<open>_promote_pre_rendered_candidate_sync\<close> at any point, and then
  \<^verbatim>\<open>recover_interrupted_apply\<close> any number of times: the recovery that completes leaves no candidate
  and no promotion marker, and either the previous configuration is active and the job is not
  reported as committed, or the new one is, with its rollback removed and the job's result reported.
\<close>

theorem staged_reapply_atomic:
  assumes "cfg s = Some c" and "\<not> promo s" and "\<not> rbact s" and "established c"
    and "\<And>rc. read_apply_receipt (Some c) = Inr (Some rc) \<Longrightarrow> VStr (job_id rc) \<noteq> get_or (VStr []) manifest ''job_id''"
    and "crash (ops_of (promote_pre_rendered_candidate act activate d bundle manifest) s) s u"
    and "interrupted recover_interrupted_apply u v"
    and "get_or (VStr []) manifest ''job_id'' = VStr jid"
  shows "\<exists>rc. outcome recover_interrupted_apply v = Inr rc \<and>
    (let w = final recover_interrupted_apply v;
         published = committed_result_for_manifest (rec_receipt rc) jid (Some manifest) in
     cand w = None \<and> \<not> promo w \<and>
     (same_config c (cfg w) \<and> published = None \<or>
      new_config d (cfg w) \<and> rb w = None \<and> Inr (the published) = staged_success_result manifest True \<and> published \<noteq> None))"
proof -
  have start: "settled c s \<and> \<not> rbact s" using assms(1-3) by (simp add: settled_def)
  have safe: "established c \<and> apply_safe c manifest d t"
    if "crash (ops_of (promote_pre_rendered_candidate act activate d bundle manifest) s) s t" for t
    using tripleD(1) [OF triple_promote_candidate [OF assms(4)] start that] assms(4) by blast
  obtain rc where rc: "outcome recover_interrupted_apply v = Inr rc"
    "resolved c manifest d rc (final recover_interrupted_apply v)"
    using reapply.program_recovers [OF safe assms(6,7)] by blast
  let ?w = "final recover_interrupted_apply v"
  consider (old) "same_config c (cfg ?w)" "read_apply_receipt (Some c) = Inr (rec_receipt rc)"
    | (new) r where "reapply_receipt manifest = Some r" "committed r d ?w" "rb ?w = None" "rec_receipt rc = Some r"
    using rc(2) by (auto simp: resolved_def)
  then show ?thesis
  proof cases
    case old
    have "committed_result_for_manifest (rec_receipt rc) jid (Some manifest) = None"
      using old(2) assms(5,8) by (auto simp: committed_result_for_manifest_def split: option.splits)
    with old(1) rc show ?thesis by (auto simp: resolved_def Let_def)
  next
    case (new r)
    obtain res tx where tx: "staged_success_result manifest True = Inr res" "from_manifest manifest res = Inr tx"
        "r = receipt_of tx COMMITTED"
      using new(1) by (auto simp: reapply_receipt_def res_simps split: sum.splits)
    have "committed_result_for_manifest (rec_receipt rc) jid (Some manifest) = Some res"
      using from_manifest_Inr [OF tx(2)] new(4) tx(3) assms(8)
      by (auto simp: committed_result_Some receipt_of_def)
    with new rc tx(1) show ?thesis by (auto simp: resolved_def Let_def committed_def)
  qed
qed

theorem staged_reapply_atomic_witness:
  "let u = final (promote_pre_rendered_candidate sample_activation True (sample_root ''new'' ''bob'') None sample_manifest)
         sample_state in
   \<exists>rc. outcome recover_interrupted_apply u = Inr rc \<and>
     (let w = final recover_interrupted_apply u;
          published = committed_result_for_manifest (rec_receipt rc) ''job-1'' (Some sample_manifest) in
      cand w = None \<and> \<not> promo w \<and>
      (same_config (sample_root ''old'' ''alice'') (cfg w) \<and> published = None \<or>
       new_config (sample_root ''new'' ''bob'') (cfg w) \<and> rb w = None \<and>
       Inr (the published) = staged_success_result sample_manifest True \<and> published \<noteq> None))"
proof -
  let ?p = "promote_pre_rendered_candidate sample_activation True (sample_root ''new'' ''bob'') None sample_manifest"
  have none: "read_apply_receipt (Some (sample_root ''old'' ''alice'')) = Inr None"
    by (simp add: read_apply_receipt_def sample_root_def)
  then have est: "established (sample_root ''old'' ''alice'')"
    by (simp add: established_def is_regular_def) (simp add: sample_root_def)
  have crash: "crash (ops_of ?p sample_state) sample_state (final ?p sample_state)"
    by (rule final_crash [OF triple_wf [OF triple_promote_candidate [OF est]]])
  have jid: "get_or (VStr []) sample_manifest ''job_id'' = VStr ''job-1''"
    by (simp add: sample_manifest_def get_or_def)
  have s: "cfg sample_state = Some (sample_root ''old'' ''alice'')" "\<not> promo sample_state" "\<not> rbact sample_state"
    by (simp_all add: sample_state_def)
  show ?thesis
    unfolding Let_def [where s = "final ?p sample_state"]
    by (rule staged_reapply_atomic [OF s est _ crash interrupted_refl jid]) (simp add: none)
qed

text \<open>
  C26: the receipt round trip. The receipt a transaction writes is read back as itself, at both phases,
  whatever else the root holds; so \<^verbatim>\<open>mark_committed\<close> finds its own promoted receipt.
\<close>

theorem receipt_round_trip:
  assumes "from_manifest manifest res = Inr tx" and "cfg s = Some t"
    and "map_of t apply_receipt = Some (receipt_file tx PROMOTED)"
  shows "read_apply_receipt (cfg s) = Inr (Some (receipt_of tx PROMOTED)) \<and>
    outcome (mark_committed tx) s = Inr () \<and>
    read_apply_receipt (cfg (final (mark_committed tx) s)) = Inr (Some (receipt_of tx COMMITTED)) \<and>
    (\<forall>n. n \<noteq> apply_receipt \<longrightarrow> entry (cfg (final (mark_committed tx) s)) n = map_of t n)"
proof -
  have "read_apply_receipt (cfg s) = read_apply_receipt (Some (dset apply_receipt (receipt_file tx PROMOTED) t))"
    using assms(2,3) by (intro read_receipt_cong) simp
  then have read: "read_apply_receipt (cfg s) = Inr (Some (receipt_of tx PROMOTED))"
    by (simp add: read_receipt_written [OF assms(1)])
  then show ?thesis
    using assms(2)
    by (simp add: mark_committed_def outcome_def final_def write_receipt_def io_simps
        read_receipt_written [OF assms(1)])
qed

theorem receipt_round_trip_witness:
  "\<exists>tx. from_manifest sample_manifest [] = Inr tx \<and>
     read_apply_receipt (Some [(apply_receipt, receipt_file tx PROMOTED)]) = Inr (Some (receipt_of tx PROMOTED))"
proof -
  let ?s = "\<lambda>tx. sample_state\<lparr>cfg := Some [(apply_receipt, receipt_file tx PROMOTED)]\<rparr>"
  have "case from_manifest sample_manifest [] of Inr tx \<Rightarrow> True | Inl e \<Rightarrow> False" by code_simp
  then obtain tx where tx: "from_manifest sample_manifest [] = Inr tx" by (auto split: sum.splits)
  with receipt_round_trip [OF tx, of "?s tx"] show ?thesis by auto
qed

end
