(* ===== verification/Staged_Results.thy ===== *)
theory Staged_Results
  imports Staging_Queue Apply_Receipt
begin

text \<open>
  Results of the privileged worker (\<^verbatim>\<open>staging.py\<close>, \<^verbatim>\<open>apply_transaction.py\<close>,
  \<^verbatim>\<open>provision.py\<close>): publication and validation of result files, the waiting policy
  \<^verbatim>\<open>StagedResultWaiter\<close>, and the finalization of claims an interrupted worker left behind.

  The results directory is a value of \<open>results_path\<close>: absent, not a directory, or a directory with its
  owner and mode and its files, whose content is the parsed JSON text. What a poll observes (clock, reads,
  claim, reconciliation) is an argument, one observation per poll.
\<close>

section \<open>Definitions\<close>

subsection \<open>Result files\<close>

datatype rnode = RFile meta "pyval option" | RLink meta | ROther meta

datatype results_path = RAbsent | RNotDir | RResults meta "rnode dict"

text \<open>The process: whether it uses the default runtime root, its ids, and the group a new directory gets.\<close>

record worker_env =
  default_root :: bool
  euid :: int
  egid :: int
  mkdir_gid :: int
  service_gid :: "int option"

definition results_dir_mode :: nat where "results_dir_mode = 1512"

definition verify_results_directory :: "bool \<Rightarrow> results_path \<Rightarrow> meta option res" where
  "verify_results_directory require_root_owner p = (case p of
     RAbsent \<Rightarrow> Inr None
   | RNotDir \<Rightarrow> Inl (ProvisionError ''staged results path must be a directory'')
   | RResults m es \<Rightarrow>
       (if require_root_owner \<and> uid m \<noteq> 0 then Inl (ProvisionError ''staged results directory must be root-owned'')
        else if group_world_writable (mode m) then Inl (ProvisionError ''staged results directory must not be group/world writable'')
        else Inr (Some m)))"

text \<open>\<^verbatim>\<open>json.dump(..., sort_keys=True)\<close>, read back.\<close>

fun sorted_json :: "pyval \<Rightarrow> pyval" where
  "sorted_json (VList xs) = VList (map sorted_json xs)"
| "sorted_json (VDict d) = VDict (sort_key fst (map (\<lambda>(k, v). (k, sorted_json v)) d))"
| "sorted_json v = v"

definition result_payload :: "real \<Rightarrow> string \<Rightarrow> pyval dict \<Rightarrow> pyval dict" where
  "result_payload now job payload =
     fold (\<lambda>(k, v). dset k v) payload [(''version'', VInt 1), (''job_id'', VStr job), (''completed_at'', VFloat now)]"

definition create_results :: "worker_env \<Rightarrow> results_path" where
  "create_results env = RResults \<lparr>mode = results_dir_mode,
     uid = (if default_root env \<and> euid env = 0 \<and> service_gid env \<noteq> None then 0 else euid env),
     gid = (if default_root env \<and> euid env = 0 then (case service_gid env of None \<Rightarrow> mkdir_gid env | Some g \<Rightarrow> g) else mkdir_gid env)\<rparr> []"

text \<open>The owner of a new file: chosen by root, else the process, in the directory's group if that is setgid.\<close>

definition file_owner :: "worker_env \<Rightarrow> meta \<Rightarrow> int \<times> int" where
  "file_owner env s =
     (if euid env = 0 then (uid s, gid s) else (euid env, if mode s div 1024 mod 2 = 1 then gid s else egid env))"

definition result_name :: "string \<Rightarrow> string" where "result_name job = job @ ''.json''"

definition write_result :: "worker_env \<Rightarrow> real \<Rightarrow> string \<Rightarrow> pyval dict \<Rightarrow> results_path \<Rightarrow> results_path res" where
  "write_result env now job payload p =
     rbind (validate_job_id (VStr job)) (\<lambda>j.
     rbind (verify_results_directory (default_root env) p) (\<lambda>first.
     let p1 = (case first of None \<Rightarrow> create_results env | Some m \<Rightarrow> p) in
     rbind (verify_results_directory (default_root env) p1) (\<lambda>results_stat.
     case (results_stat, p1) of
       (Some s, RResults m es) \<Rightarrow>
         Inr (RResults m (dset (result_name job)
           (RFile \<lparr>mode = 416, uid = fst (file_owner env s), gid = snd (file_owner env s)\<rparr>
              (Some (sorted_json (VDict (result_payload now job payload))))) es))
     | _ \<Rightarrow> Inl (PyExc ''AttributeError''))))"

definition read_result_json :: "pyval option \<Rightarrow> pyval dict res" where
  "read_result_json c = (case c of
     None \<Rightarrow> Inl (ProvisionError ''invalid staged JSON'')
   | Some (VDict d) \<Rightarrow> Inr d
   | Some v \<Rightarrow> Inl (ProvisionError ''staged JSON must be an object''))"

definition read_result :: "worker_env \<Rightarrow> string \<Rightarrow> results_path \<Rightarrow> pyval dict option res" where
  "read_result env job p =
     rbind (validate_job_id (VStr job)) (\<lambda>j.
     rbind (verify_results_directory (default_root env) p) (\<lambda>results_stat.
     case (results_stat, p) of
       (Some s, RResults m es) \<Rightarrow>
         (case dget es (result_name job) of
            None \<Rightarrow> Inr None
          | Some (RLink fm) \<Rightarrow> Inl (ProvisionError ''staged result must not be a symlink'')
          | Some (ROther fm) \<Rightarrow> Inl (ProvisionError ''staged result must be a regular file'')
          | Some (RFile fm c) \<Rightarrow>
              (if uid fm \<noteq> uid s then Inl (ProvisionError ''staged result has unexpected owner'')
               else if gid fm \<noteq> gid s then Inl (ProvisionError ''staged result has unexpected group'')
               else if group_world_writable (mode fm) then Inl (ProvisionError ''staged result must not be group/world writable'')
               else rbind (read_result_json c) (\<lambda>d.
                 if \<not> py_eq_int (get_val d ''version'') 1 \<or> get_val d ''job_id'' \<noteq> VStr job
                 then Inl (ProvisionError ''invalid staged result'') else Inr (Some d))))
     | _ \<Rightarrow> Inr None))"

record staged_result =
  sr_succeeded :: bool
  sr_payload :: "pyval dict"
  sr_error :: "string option"
  sr_rollback_status :: "string option"

definition as_str :: "pyval \<Rightarrow> string option" where
  "as_str v = (case v of VStr s \<Rightarrow> Some s | _ \<Rightarrow> None)"

definition interpret_staged_result :: "pyval dict \<Rightarrow> staged_result res" where
  "interpret_staged_result r =
     (let status = get_val r ''status''; rollback = as_str (get_val r ''rollback_status'') in
      if status = VStr ''succeeded'' then
        (case get_val r ''result'' of
           VDict d \<Rightarrow> Inr \<lparr>sr_succeeded = True, sr_payload = d, sr_error = None, sr_rollback_status = rollback\<rparr>
         | _ \<Rightarrow> Inl (ProvisionError ''staged apply result missing result payload''))
      else if status = VStr ''failed'' then
        Inr \<lparr>sr_succeeded = False, sr_payload = [],
          sr_error = Some (case get_val r ''error'' of VStr e \<Rightarrow> e | _ \<Rightarrow> ''failed''), sr_rollback_status = rollback\<rparr>
      else Inl (ProvisionError ''staged apply result has invalid status''))"

text \<open>An error carries the rollback status the worker reported, if any.\<close>

definition staged_result_payload_or_raise :: "pyval dict \<Rightarrow> (error \<times> string option) + pyval dict" where
  "staged_result_payload_or_raise r = (case interpret_staged_result r of
     Inl e \<Rightarrow> Inl (e, None)
   | Inr s \<Rightarrow>
       (if sr_succeeded s then Inr (sr_payload s)
        else Inl (ProvisionError (case sr_error s of None \<Rightarrow> ''failed'' | Some m \<Rightarrow> if m = [] then ''failed'' else m), sr_rollback_status s)))"

subsection \<open>Waiting for a result\<close>

record waiter =
  w_interval :: real
  w_stage :: string
  liveness_due :: real
  read_error_since :: "real option"
  last_read_error :: "string option"
  emitted :: "(string \<times> string) list"

definition new_waiter :: "real \<Rightarrow> real \<Rightarrow> string \<Rightarrow> waiter" where
  "new_waiter now interval stage = \<lparr>w_interval = interval, w_stage = stage, liveness_due = now + interval,
     read_error_since = None, last_read_error = None, emitted = []\<rparr>"

text \<open>What one poll sees: the clock, the two reads, the claim check and the reconciliation.\<close>

record 'a poll_view =
  v_now :: real
  v_read :: "'a option res"
  v_claimed :: "bool res"
  v_state :: "timeout_state res"
  v_read_again :: "'a option res"

definition emit :: "string \<Rightarrow> string \<Rightarrow> waiter \<Rightarrow> waiter" where
  "emit stage detail w = w\<lparr>emitted := emitted w @ [(stage, detail)]\<rparr>"

definition report :: "string \<Rightarrow> waiter \<Rightarrow> waiter" where
  "report stage w =
     (if stage = w_stage w then w
      else emit stage (if stage = ''running'' then ''privileged apply worker is running'' else ''waiting for privileged apply worker'')
             (w\<lparr>w_stage := stage\<rparr>))"

definition read_failed :: "real \<Rightarrow> string \<Rightarrow> waiter \<Rightarrow> unit res \<times> waiter" where
  "read_failed now msg w =
     (let note = (\<lambda>w. if last_read_error w = Some msg then w
            else emit (w_stage w) (''worker result I/O failed; retrying: '' @ msg) (w\<lparr>last_read_error := Some msg\<rparr>)) in
      case read_error_since w of
        None \<Rightarrow> (Inr (), note (w\<lparr>read_error_since := Some now\<rparr>))
      | Some t \<Rightarrow>
          (if now - t \<ge> w_interval w then (Inl (ProvisionError (''cannot read privileged apply worker result: '' @ msg)), w)
           else (Inr (), note w)))"

definition check_timeout_state :: "timeout_state res \<Rightarrow> timeout_state res" where
  "check_timeout_state s = (case s of
     Inl (OSErr m) \<Rightarrow> Inl (ProvisionError (''cannot determine staged job timeout state: '' @ m))
   | Inl (ValueErr m) \<Rightarrow> Inl (ProvisionError (''cannot determine staged job timeout state: '' @ m))
   | Inl (PyExc m) \<Rightarrow> Inl (ProvisionError (''cannot determine staged job timeout state: '' @ m))
   | _ \<Rightarrow> s)"

text \<open>The first probe: the result, if it was published, else the claim; an \<^verbatim>\<open>OSError\<close> of either is noted.\<close>

definition probe :: "'a poll_view \<Rightarrow> waiter \<Rightarrow> 'a option res \<times> waiter" where
  "probe v w =
     (let failed = (\<lambda>e. case e of
            OSErr m \<Rightarrow> (case read_failed (v_now v) m w of (Inl e', w1) \<Rightarrow> (Inl e', w1) | (Inr u, w1) \<Rightarrow> (Inr None, w1))
          | _ \<Rightarrow> (Inl e, w)) in
      case v_read v of
        Inl e \<Rightarrow> failed e
      | Inr (Some x) \<Rightarrow> (Inr (Some x), w)
      | Inr None \<Rightarrow>
          (case v_claimed v of
             Inl e \<Rightarrow> failed e
           | Inr claimed \<Rightarrow> (Inr None, report (if claimed then ''running'' else ''queued'')
                 (w\<lparr>read_error_since := None, last_read_error := None\<rparr>))))"

definition poll :: "'a poll_view \<Rightarrow> waiter \<Rightarrow> 'a option res \<times> waiter" where
  "poll v w = (case probe v w of
     (Inl e, w1) \<Rightarrow> (Inl e, w1)
   | (Inr (Some x), w1) \<Rightarrow> (Inr (Some x), w1)
   | (Inr None, w1) \<Rightarrow>
       (if v_now v < liveness_due w1 then (Inr None, w1)
        else case check_timeout_state (v_state v) of
          Inl e \<Rightarrow> (Inl e, w1)
        | Inr s \<Rightarrow>
            (if s = WAITING \<or> s = CLAIMED
             then (Inr None, report (if s = CLAIMED then ''running'' else ''queued'') (w1\<lparr>liveness_due := v_now v + w_interval w1\<rparr>))
             else case v_read_again v of
               Inl (OSErr m) \<Rightarrow> (Inl (ProvisionError (''cannot read privileged apply worker result: '' @ m)), w1)
             | Inl e \<Rightarrow> (Inl e, w1)
             | Inr (Some x) \<Rightarrow> (Inr (Some x), w1)
             | Inr None \<Rightarrow> (Inl (ProvisionError (if s = MISSING then ''privileged apply worker did not publish a result''
                                              else ''timed out waiting for privileged apply worker'')), w1))))"

text \<open>The loop of a caller over the polls it makes: \<open>Inr None\<close> when it is still waiting after the last.\<close>

fun wait_loop :: "'a poll_view list \<Rightarrow> waiter \<Rightarrow> 'a option res \<times> waiter" where
  "wait_loop [] w = (Inr None, w)"
| "wait_loop (v # vs) w = (case poll v w of
     (Inr None, w1) \<Rightarrow> wait_loop vs w1
   | r \<Rightarrow> r)"

definition wait_for_staged_result :: "pyval dict poll_view list \<Rightarrow> waiter \<Rightarrow> ((error \<times> string option) + pyval dict) option" where
  "wait_for_staged_result vs w = (case fst (wait_loop vs w) of
     Inl e \<Rightarrow> Some (Inl (e, None))
   | Inr None \<Rightarrow> None
   | Inr (Some r) \<Rightarrow> Some (staged_result_payload_or_raise r))"

subsection \<open>Claims of an interrupted worker\<close>

text \<open>
  The active directory with, for each claim that is a directory, its parsed \<^verbatim>\<open>manifest.json\<close>, if
  it is readable.
\<close>

datatype claim_node = Claim "pyval dict option" | NotClaim

definition committed_receipt_for_active_job :: "claim_node \<Rightarrow> string \<Rightarrow> receipt option \<Rightarrow> receipt option" where
  "committed_receipt_for_active_job c job r = (case (r, c) of
     (Some rc, Claim (Some m)) \<Rightarrow>
       (if phase rc = COMMITTED \<and> job_id rc = job \<and> get_val m ''job_id'' = VStr job \<and>
           get_val m ''source_sha256'' = VStr (source_sha256 rc)
        then Some rc else None)
   | _ \<Rightarrow> None)"

definition unfinished_committed_receipt ::
  "worker_env \<Rightarrow> claim_node dict \<Rightarrow> results_path \<Rightarrow> receipt option \<Rightarrow> receipt option res" where
  "unfinished_committed_receipt env claims p r = (case r of
     None \<Rightarrow> Inr None
   | Some rc \<Rightarrow>
       (if phase rc \<noteq> COMMITTED then Inr None
        else case dget claims (job_id rc) of
          Some (Claim m) \<Rightarrow> rbind (read_result env (job_id rc) p) (\<lambda>published.
            Inr (if published \<noteq> None then None else committed_receipt_for_active_job (Claim m) (job_id rc) r))
        | _ \<Rightarrow> Inr None))"

definition terminal_payload :: "string \<Rightarrow> receipt option \<Rightarrow> pyval dict" where
  "terminal_payload reason receipt_found = (case receipt_found of
     Some rc \<Rightarrow> [(''status'', VStr ''succeeded''), (''result'', VDict (result rc))]
   | None \<Rightarrow> [(''status'', VStr ''failed''), (''error'', VStr reason)])"

text \<open>The loop over the sorted claims: what is left of them, the results, and the number finalized.\<close>

fun finalize_claims ::
  "worker_env \<Rightarrow> real \<Rightarrow> string \<Rightarrow> receipt option \<Rightarrow> string list \<Rightarrow> claim_node dict \<Rightarrow> results_path \<Rightarrow> nat \<Rightarrow>
     nat res \<times> claim_node dict \<times> results_path" where
  "finalize_claims env now reason r [] claims p n = (Inr n, claims, p)"
| "finalize_claims env now reason r (c # cs) claims p n = (case dget claims c of
     None \<Rightarrow> finalize_claims env now reason r cs claims p n
   | Some NotClaim \<Rightarrow> finalize_claims env now reason r cs (dpop c claims) p n
   | Some (Claim m) \<Rightarrow>
       (case rbind (validate_job_id (VStr c)) (\<lambda>j. read_result env c p) of
          Inl e \<Rightarrow> (Inl e, claims, p)
        | Inr (Some d) \<Rightarrow> finalize_claims env now reason r cs (dpop c claims) p (Suc n)
        | Inr None \<Rightarrow>
            (case write_result env now c (terminal_payload reason (committed_receipt_for_active_job (Claim m) c r)) p of
               Inl e \<Rightarrow> (Inl e, claims, p)
             | Inr p1 \<Rightarrow> finalize_claims env now reason r cs (dpop c claims) p1 (Suc n))))"

text \<open>\<^verbatim>\<open>ensure_runtime_layout\<close> on the results directory: only its owner or root can change the mode.\<close>

definition ensure_results :: "worker_env \<Rightarrow> results_path \<Rightarrow> results_path" where
  "ensure_results env p = (case p of
     RAbsent \<Rightarrow> RResults \<lparr>mode = results_dir_mode, uid = euid env, gid = mkdir_gid env\<rparr> []
   | RNotDir \<Rightarrow> RNotDir
   | RResults m es \<Rightarrow> RResults (if euid env = 0 \<or> euid env = uid m then m\<lparr>mode := results_dir_mode\<rparr> else m) es)"

definition finalize_abandoned_active_jobs ::
  "worker_env \<Rightarrow> real \<Rightarrow> string \<Rightarrow> receipt option \<Rightarrow> claim_node dict \<Rightarrow> results_path \<Rightarrow>
     nat res \<times> claim_node dict \<times> results_path" where
  "finalize_abandoned_active_jobs env now reason r claims p =
     (case p of
        RNotDir \<Rightarrow> (Inl (OSErr ''FileExistsError''), claims, p)
      | _ \<Rightarrow> finalize_claims env now reason r (sort (dkeys claims)) claims (ensure_results env p) 0)"

section \<open>Theorems\<close>

subsection \<open>Publication\<close>

lemma map_of_sort_key: "distinct (dkeys d) \<Longrightarrow> map_of (sort_key fst d) = map_of d"
  by (intro map_of_eqI map_of_inject_set [THEN iffD2]) (simp_all add: distinct_map inj_on_def)

lemma map_of_map_snd: "map_of (map (\<lambda>(k, v). (k, f v)) d) k = map_option f (map_of d k)"
  by (induction d) auto

lemma sorted_json_dict:
  assumes "distinct (dkeys d)"
  shows "\<exists>d'. sorted_json (VDict d) = VDict d' \<and> (\<forall>k. dget d' k = map_option sorted_json (dget d k))"
proof -
  have "distinct (dkeys (map (\<lambda>(k, v). (k, sorted_json v)) d))" using assms by (simp add: comp_def case_prod_beta')
  then show ?thesis by (simp add: map_of_sort_key map_of_map_snd)
qed

lemma fold_dset:
  "distinct (dkeys es) \<Longrightarrow> dget (fold (\<lambda>(k, v). dset k v) es d) k = (case dget es k of None \<Rightarrow> dget d k | Some v \<Rightarrow> Some v)"
  by (induction es arbitrary: d) (auto split: option.splits simp: rev_image_eqI dest: map_of_SomeD)

lemma distinct_fold_dset: "distinct (dkeys d) \<Longrightarrow> distinct (dkeys (fold (\<lambda>(k, v). dset k v) es d))"
  by (induction es arbitrary: d) auto

lemma result_payload_lookup:
  assumes "distinct (dkeys payload)"
  shows "distinct (dkeys (result_payload now job payload))"
    "dget (result_payload now job payload) k = (case dget payload k of Some v \<Rightarrow> Some v
       | None \<Rightarrow> dget [(''version'', VInt 1), (''job_id'', VStr job), (''completed_at'', VFloat now)] k)"
  unfolding result_payload_def using fold_dset [OF assms] by (auto intro: distinct_fold_dset split: option.splits)

definition worker_payload :: "pyval dict \<Rightarrow> bool" where
  "worker_payload payload = (distinct (dkeys payload) \<and> \<not> has_key payload ''version'' \<and> \<not> has_key payload ''job_id'')"

text \<open>The worker owns the files it creates the way the reader expects: it is root, or the owner of a setgid directory.\<close>

definition owner_matches :: "worker_env \<Rightarrow> meta \<Rightarrow> bool" where
  "owner_matches env m = (euid env = 0 \<or> euid env = uid m \<and> (mode m div 1024 mod 2 = 1 \<or> egid env = gid m))"

lemma file_owner_matches: "owner_matches env m \<Longrightarrow> file_owner env m = (uid m, gid m)"
  by (auto simp: owner_matches_def file_owner_def)

lemma result_name_inj [simp]: "result_name a = result_name b \<longleftrightarrow> a = b"
  by (simp add: result_name_def)

lemma write_read:
  assumes "validate_job_id (VStr job) = Inr job" "worker_payload payload" "owner_matches env m"
    "verify_results_directory (default_root env) (RResults m es) = Inr (Some m)" "default_root env' = default_root env"
  shows "\<exists>es' d. write_result env now job payload (RResults m es) = Inr (RResults m es') \<and>
    read_result env' job (RResults m es') = Inr (Some d) \<and>
    (\<forall>k v. dget payload k = Some v \<longrightarrow> dget d k = Some (sorted_json v)) \<and>
    (\<forall>other. other \<noteq> job \<longrightarrow> dget es' (result_name other) = dget es (result_name other))"
proof -
  have p: "distinct (dkeys payload)" "dget payload ''version'' = None" "dget payload ''job_id'' = None"
    using assms(2) by (auto simp: worker_payload_def has_key_def)
  obtain d where d: "sorted_json (VDict (result_payload now job payload)) = VDict d"
    "\<And>k. dget d k = map_option sorted_json (dget (result_payload now job payload) k)"
    using sorted_json_dict [OF result_payload_lookup(1) [OF p(1), of now job]] by blast
  have "get_val d ''version'' = VInt 1" "get_val d ''job_id'' = VStr job" "\<And>k v. dget payload k = Some v \<Longrightarrow> dget d k = Some (sorted_json v)"
    by (simp_all add: get_or_def d(2) result_payload_lookup(2) [OF p(1)] p)
  moreover have "\<not> group_world_writable 416" by (simp add: group_world_writable_def)
  moreover define es' where "es' = dset (result_name job) (RFile \<lparr>mode = 416, uid = uid m, gid = gid m\<rparr> (Some (VDict d))) es"
  moreover have "write_result env now job payload (RResults m es) = Inr (RResults m es')"
    using assms(1,4) file_owner_matches [OF assms(3)] by (simp add: write_result_def d(1) es'_def del: sorted_json.simps)
  moreover have "verify_results_directory (default_root env') (RResults m es') = Inr (Some m)"
    using assms(4,5) by (simp add: verify_results_directory_def)
  ultimately show ?thesis using assms(1) by (auto simp: read_result_def read_result_json_def)
qed

text \<open>Published results are read back: a result that the worker writes into a verified results directory is
  accepted by every reader of the same root, with every field of the payload as \<^verbatim>\<open>json.dump\<close> wrote it, and the
  results of other jobs stay as they are. The payload has distinct keys and does not set \<^verbatim>\<open>version\<close> or
  \<^verbatim>\<open>job_id\<close>; the worker is root, or owns the directory and its group.\<close>

theorem result_round_trip:
  assumes "validate_job_id (VStr job) = Inr job" "worker_payload payload" "owner_matches env m"
    and "verify_results_directory (default_root env) (RResults m es) = Inr (Some m)" "default_root reader = default_root env"
  shows "\<exists>p d. write_result env now job payload (RResults m es) = Inr p \<and> read_result reader job p = Inr (Some d) \<and>
    (\<forall>k v. dget payload k = Some v \<longrightarrow> dget d k = Some (sorted_json v)) \<and>
    (\<forall>other. other \<noteq> job \<longrightarrow> read_result reader other p = read_result reader other (RResults m es))"
proof -
  obtain es' d where w: "write_result env now job payload (RResults m es) = Inr (RResults m es')"
    "read_result reader job (RResults m es') = Inr (Some d)" "\<forall>k v. dget payload k = Some v \<longrightarrow> dget d k = Some (sorted_json v)"
    "\<forall>other. other \<noteq> job \<longrightarrow> dget es' (result_name other) = dget es (result_name other)"
    using write_read [OF assms] by blast
  have "read_result reader other (RResults m es') = read_result reader other (RResults m es)" if "other \<noteq> job" for other
    using w(4) that by (simp add: read_result_def verify_results_directory_def)
  with w(1-3) show ?thesis by blast
qed


definition board_worker :: worker_env where
  "board_worker = \<lparr>default_root = True, euid = 0, egid = 0, mkdir_gid = 0, service_gid = Some 990\<rparr>"

theorem result_round_trip_witness:
  "\<exists>p d. write_result board_worker 1 ''job-1'' [(''status'', VStr ''failed''), (''error'', VStr ''x'')] (RResults \<lparr>mode = 1512, uid = 0, gid = 990\<rparr> []) = Inr p \<and>
    read_result (board_worker\<lparr>euid := 990\<rparr>) ''job-1'' p = Inr (Some d) \<and> dget d ''error'' = Some (VStr ''x'')"
proof -
  let ?m = "\<lparr>mode = 1512, uid = 0, gid = 990\<rparr>"
  have a: "validate_job_id (VStr ''job-1'') = Inr ''job-1''" by code_simp
  have b: "worker_payload [(''status'', VStr ''failed''), (''error'', VStr ''x'')]" by (simp add: worker_payload_def has_key_def)
  have c: "owner_matches board_worker ?m" by (simp add: owner_matches_def board_worker_def)
  have d: "verify_results_directory (default_root board_worker) (RResults ?m []) = Inr (Some ?m)"
    by (simp add: verify_results_directory_def group_world_writable_def board_worker_def)
  have e: "default_root (board_worker\<lparr>euid := 990\<rparr>) = default_root board_worker" by (simp add: board_worker_def)
  show ?thesis using result_round_trip [OF a b c d e, of 1] by force
qed

subsection \<open>Waiting\<close>

definition io_failed :: "'a poll_view \<Rightarrow> bool" where
  "io_failed v = ((\<exists>m. v_read v = Inl (OSErr m)) \<or> v_read v = Inr None \<and> (\<exists>m. v_claimed v = Inl (OSErr m)))"

definition still_queued :: "'a poll_view \<Rightarrow> bool" where
  "still_queued v = (v_state v = Inr WAITING \<or> v_state v = Inr CLAIMED)"

lemma report_fields [simp]: "liveness_due (report s w) = liveness_due w" "w_interval (report s w) = w_interval w"
  "read_error_since (report s w) = read_error_since w"
  by (simp_all add: report_def emit_def)

lemma emit_fields [simp]: "liveness_due (emit s d w) = liveness_due w" "w_interval (emit s d w) = w_interval w"
  "read_error_since (emit s d w) = read_error_since w"
  by (simp_all add: emit_def)

lemma read_failed_Inr:
  assumes "read_failed now msg w = (Inr u, w1)"
  shows "liveness_due w1 = liveness_due w" "w_interval w1 = w_interval w"
    "read_error_since w1 = Some (case read_error_since w of None \<Rightarrow> now | Some t \<Rightarrow> t)"
    "\<forall>t. read_error_since w = Some t \<longrightarrow> now - t < w_interval w"
  using assms by (auto simp: read_failed_def Let_def split: option.splits if_splits)

lemma probe_None:
  assumes "probe v w = (Inr None, w1)"
  shows "liveness_due w1 = liveness_due w" "w_interval w1 = w_interval w" "\<forall>x. v_read v \<noteq> Inr (Some x)"
    "if io_failed v then read_error_since w1 = Some (case read_error_since w of None \<Rightarrow> v_now v | Some t \<Rightarrow> t) \<and>
       (\<forall>t. read_error_since w = Some t \<longrightarrow> v_now v - t < w_interval w)
     else read_error_since w1 = None"
  using assms read_failed_Inr
  by (auto simp: probe_def io_failed_def Let_def split: sum.splits option.splits error.splits prod.splits)

lemma check_timeout_state_Inr: "check_timeout_state s = Inr x \<longleftrightarrow> s = Inr x"
  by (auto simp: check_timeout_state_def split: sum.splits error.splits)

lemma poll_None:
  assumes "poll v w = (Inr None, w1)"
  shows "w_interval w1 = w_interval w" "\<forall>x. v_read v \<noteq> Inr (Some x)"
    "v_now v < liveness_due w \<and> liveness_due w1 = liveness_due w \<or> still_queued v \<and> liveness_due w1 = v_now v + w_interval w"
    "if io_failed v then read_error_since w1 = Some (case read_error_since w of None \<Rightarrow> v_now v | Some t \<Rightarrow> t) \<and>
       (\<forall>t. read_error_since w = Some t \<longrightarrow> v_now v - t < w_interval w)
     else read_error_since w1 = None"
proof -
  obtain w0 where w0: "probe v w = (Inr None, w0)" using assms by (auto simp: poll_def split: sum.splits option.splits prod.splits)
  have c: "v_now v < liveness_due w0 \<and> w1 = w0 \<or>
      (\<exists>s. (s = WAITING \<or> s = CLAIMED) \<and> v_state v = Inr s \<and>
        w1 = report (if s = CLAIMED then ''running'' else ''queued'') (w0\<lparr>liveness_due := v_now v + w_interval w0\<rparr>))"
    using assms w0 by (auto simp: poll_def check_timeout_state_Inr split: sum.splits option.splits error.splits if_splits)
  show "w_interval w1 = w_interval w" "\<forall>x. v_read v \<noteq> Inr (Some x)"
    "v_now v < liveness_due w \<and> liveness_due w1 = liveness_due w \<or> still_queued v \<and> liveness_due w1 = v_now v + w_interval w"
    using c probe_None(1-3) [OF w0] by (auto simp: still_queued_def)
  show "if io_failed v then read_error_since w1 = Some (case read_error_since w of None \<Rightarrow> v_now v | Some t \<Rightarrow> t) \<and>
       (\<forall>t. read_error_since w = Some t \<longrightarrow> v_now v - t < w_interval w)
     else read_error_since w1 = None"
    using c probe_None(4) [OF w0] by auto
qed

lemma wait_loop_ConsE:
  assumes "wait_loop (v # vs) w = (Inr None, w')"
  obtains w1 where "poll v w = (Inr None, w1)" "wait_loop vs w1 = (Inr None, w')"
  using assms by (auto split: prod.splits sum.splits option.splits)

lemma wait_loop_liveness:
  "wait_loop vs w = (Inr None, w') \<Longrightarrow> 0 < w_interval w \<Longrightarrow> i < length vs \<Longrightarrow>
     v_now (vs ! i) < liveness_due w \<or> (\<exists>j \<le> i. still_queued (vs ! j) \<and> v_now (vs ! i) < v_now (vs ! j) + w_interval w)"
proof (induction vs arbitrary: w i)
  case (Cons v vs)
  obtain w1 where p: "poll v w = (Inr None, w1)" and rest: "wait_loop vs w1 = (Inr None, w')"
    by (rule wait_loop_ConsE [OF Cons.prems(1)])
  note now = poll_None(1,3) [OF p]
  show ?case
  proof (cases i)
    case 0
    then show ?thesis using now Cons.prems(2) by auto
  next
    case (Suc k)
    then have "v_now (vs ! k) < liveness_due w1 \<or> (\<exists>j \<le> k. still_queued (vs ! j) \<and> v_now (vs ! k) < v_now (vs ! j) + w_interval w1)"
      using Cons.IH [OF rest] now(1) Cons.prems(2,3) by simp
    then show ?thesis using now Suc by (fastforce intro: exI [of _ 0] exI [of _ "Suc j" for j])
  qed
qed simp

lemma wait_loop_reads:
  "wait_loop vs w = (Inr None, w') \<Longrightarrow> i < length vs \<Longrightarrow> v_read (vs ! i) \<noteq> Inr (Some x)"
proof (induction vs arbitrary: w i)
  case (Cons v vs)
  obtain w1 where p: "poll v w = (Inr None, w1)" and rest: "wait_loop vs w1 = (Inr None, w')"
    by (rule wait_loop_ConsE [OF Cons.prems(1)])
  then show ?case using poll_None(2) [OF p] Cons.IH [OF rest] Cons.prems(2) by (cases i) auto
qed simp

lemma wait_loop_error_run:
  "wait_loop vs w = (Inr None, w') \<Longrightarrow> 0 < w_interval w \<Longrightarrow> j < length vs \<Longrightarrow> \<forall>k \<le> j. io_failed (vs ! k) \<Longrightarrow>
     v_now (vs ! j) - (case read_error_since w of None \<Rightarrow> v_now (vs ! 0) | Some t \<Rightarrow> t) < w_interval w"
proof (induction vs arbitrary: w j)
  case (Cons v vs)
  obtain w1 where p: "poll v w = (Inr None, w1)" and rest: "wait_loop vs w1 = (Inr None, w')"
    by (rule wait_loop_ConsE [OF Cons.prems(1)])
  have e: "read_error_since w1 = Some (case read_error_since w of None \<Rightarrow> v_now v | Some t \<Rightarrow> t)"
    "\<forall>t. read_error_since w = Some t \<longrightarrow> v_now v - t < w_interval w"
    using poll_None(4) [OF p] Cons.prems(4) by (auto split: if_splits)
  show ?case
  proof (cases j)
    case 0
    then show ?thesis using e(2) Cons.prems(2) by (auto split: option.splits)
  next
    case (Suc k)
    then have "\<forall>i \<le> k. io_failed (vs ! i)" using Cons.prems(4) by (metis Suc_le_mono nth_Cons_Suc)
    then show ?thesis using Suc Cons.IH [OF rest, of k] poll_None(1) [OF p] Cons.prems(2,3) e(1) by (auto split: option.splits)
  qed
qed simp

lemma wait_loop_errors:
  "wait_loop vs w = (Inr None, w') \<Longrightarrow> 0 < w_interval w \<Longrightarrow> sorted (map v_now vs) \<Longrightarrow>
     \<forall>t. read_error_since w = Some t \<longrightarrow> (\<forall>v \<in> set vs. t \<le> v_now v) \<Longrightarrow>
     i \<le> j \<Longrightarrow> j < length vs \<Longrightarrow> \<forall>k. i \<le> k \<and> k \<le> j \<longrightarrow> io_failed (vs ! k) \<Longrightarrow> v_now (vs ! j) - v_now (vs ! i) < w_interval w"
proof (induction vs arbitrary: w i j)
  case (Cons v vs)
  obtain w1 where p: "poll v w = (Inr None, w1)" and rest: "wait_loop vs w1 = (Inr None, w')"
    by (rule wait_loop_ConsE [OF Cons.prems(1)])
  show ?case
  proof (cases i)
    case 0
    then show ?thesis
      using wait_loop_error_run [OF Cons.prems(1,2,6)] Cons.prems(4,7) by (auto split: option.splits)
  next
    case (Suc i')
    then obtain j' where j: "j = Suc j'" "i' \<le> j'" using Cons.prems(5) by (cases j) auto
    have since: "\<forall>t. read_error_since w1 = Some t \<longrightarrow> (\<forall>v \<in> set vs. t \<le> v_now v)"
      using poll_None(4) [OF p] Cons.prems(3,4) by (auto split: if_splits option.splits)
    have run: "\<forall>k. i' \<le> k \<and> k \<le> j' \<longrightarrow> io_failed (vs ! k)" using Cons.prems(7) Suc j by (metis Suc_le_mono nth_Cons_Suc)
    show ?thesis
      using Cons.IH [OF rest _ _ since j(2) _ run] poll_None(1) [OF p] Cons.prems(2,3,6) Suc j by simp
  qed
qed simp

text \<open>C33: A wait goes on only for a reason. As long as polling a staged job returns nothing, at every poll no result
  could be read, the job was seen in the queue or with the worker within the last interval (or the first
  interval is not over), and no run of failing reads has lasted a whole interval. So a lost job or an
  unreadable result ends the wait at the first poll after one interval.\<close>

theorem waiting_is_justified:
  assumes "wait_loop vs (new_waiter start interval stage) = (Inr None, w)" "0 < interval" "sorted (map v_now vs)"
    and "i \<le> j" "j < length vs"
  shows "(\<forall>x. v_read (vs ! j) \<noteq> Inr (Some x)) \<and>
    (v_now (vs ! j) < start + interval \<or> (\<exists>k \<le> j. still_queued (vs ! k) \<and> v_now (vs ! j) < v_now (vs ! k) + interval)) \<and>
    ((\<forall>k. i \<le> k \<and> k \<le> j \<longrightarrow> io_failed (vs ! k)) \<longrightarrow> v_now (vs ! j) - v_now (vs ! i) < interval)"
  using wait_loop_reads [OF assms(1,5)] wait_loop_liveness [OF assms(1) _ assms(5)]
    wait_loop_errors [OF assms(1) _ assms(3) _ assms(4,5)] assms(2) by (simp add: new_waiter_def)

theorem waiting_is_justified_witness:
  "\<exists>w. wait_loop [\<lparr>v_now = 1, v_read = Inr None, v_claimed = Inr True, v_state = Inr CLAIMED, v_read_again = Inr (None :: nat option)\<rparr>]
      (new_waiter 0 1 ''queued'') = (Inr None, w) \<and> w_stage w = ''running'' \<and> (1::real) < 1 + 1"
proof -
  let ?v = "\<lparr>v_now = 1, v_read = Inr None, v_claimed = Inr True, v_state = Inr CLAIMED, v_read_again = Inr (None :: nat option)\<rparr>"
  obtain w where w: "wait_loop [?v] (new_waiter 0 1 ''queued'') = (Inr None, w)" "w_stage w = ''running''"
    by (simp add: new_waiter_def poll_def probe_def report_def emit_def check_timeout_state_def)
  then show ?thesis using waiting_is_justified [OF w(1), of 0 0] by simp
qed

subsection \<open>Finalization\<close>

definition is_claim :: "claim_node option \<Rightarrow> bool" where
  "is_claim c = (case c of Some (Claim m) \<Rightarrow> True | _ \<Rightarrow> False)"

text \<open>What a claim must have after finalization: the result it had, else one with the terminal payload.\<close>

definition finalized_as :: "string \<Rightarrow> receipt option \<Rightarrow> pyval dict option \<Rightarrow> pyval dict \<Rightarrow> bool" where
  "finalized_as reason receipt_found old d = (case old of
     Some d0 \<Rightarrow> d = d0
   | None \<Rightarrow> \<forall>k v. dget (terminal_payload reason receipt_found) k = Some v \<longrightarrow> dget d k = Some (sorted_json v))"

lemma terminal_payload_ok: "worker_payload (terminal_payload reason r)"
  by (auto simp: terminal_payload_def worker_payload_def has_key_def split: option.splits)

lemma read_result_same_file:
  "dget es' (result_name c) = dget es (result_name c) \<Longrightarrow> read_result env c (RResults m es') = read_result env c (RResults m es)"
  by (simp add: read_result_def verify_results_directory_def)

lemma finalize_claim_step:
  assumes "validate_job_id (VStr c) = Inr c" "read_result env c (RResults m es) = Inr old" "owner_matches env m"
    "verify_results_directory (default_root env) (RResults m es) = Inr (Some m)" "dget claims c = Some (Claim mf)"
  obtains es' d where
    "finalize_claims env now reason r (c # cs) claims (RResults m es) n = finalize_claims env now reason r cs (dpop c claims) (RResults m es') (Suc n)"
    "read_result env c (RResults m es') = Inr (Some d)" "finalized_as reason (committed_receipt_for_active_job (Claim mf) c r) old d"
    "\<forall>k. k \<noteq> c \<longrightarrow> dget es' (result_name k) = dget es (result_name k)"
proof (cases old)
  case (Some d)
  then show thesis using that [of es d] assms by (simp add: finalized_as_def)
next
  case None
  obtain es' d where "write_result env now c (terminal_payload reason (committed_receipt_for_active_job (Claim mf) c r)) (RResults m es) = Inr (RResults m es')"
    "read_result env c (RResults m es') = Inr (Some d)"
    "\<forall>k v. dget (terminal_payload reason (committed_receipt_for_active_job (Claim mf) c r)) k = Some v \<longrightarrow> dget d k = Some (sorted_json v)"
    "\<forall>k. k \<noteq> c \<longrightarrow> dget es' (result_name k) = dget es (result_name k)"
    using write_read [OF assms(1) terminal_payload_ok assms(3,4) refl] by blast
  then show thesis using that [of es' d] None assms by (simp add: finalized_as_def)
qed

definition finalize_post ::
  "worker_env \<Rightarrow> string \<Rightarrow> receipt option \<Rightarrow> (string \<Rightarrow> pyval dict option) \<Rightarrow> string list \<Rightarrow> claim_node dict \<Rightarrow> meta \<Rightarrow>
     rnode dict \<Rightarrow> nat \<Rightarrow> nat res \<times> claim_node dict \<times> results_path \<Rightarrow> bool" where
  "finalize_post env reason r old cs claims m es n out =
     (\<exists>claims' es'. out = (Inr (n + length (filter (\<lambda>c. is_claim (dget claims c)) cs)), claims', RResults m es') \<and>
      (\<forall>k. dget claims' k = (if k \<in> set cs then None else dget claims k)) \<and>
      (\<forall>k. k \<notin> set cs \<longrightarrow> dget es' (result_name k) = dget es (result_name k)) \<and>
      (\<forall>c \<in> set cs. \<forall>mf. dget claims c = Some (Claim mf) \<longrightarrow> (\<exists>d. read_result env c (RResults m es') = Inr (Some d) \<and>
         finalized_as reason (committed_receipt_for_active_job (Claim mf) c r) (old c) d)))"

lemma finalize_post_claim:
  assumes "finalize_post env reason r old cs (dpop c claims) m es1 (Suc n) out" "c \<notin> set cs" "dget claims c = Some (Claim mf)"
    and "read_result env c (RResults m es1) = Inr (Some d)" "finalized_as reason (committed_receipt_for_active_job (Claim mf) c r) (old c) d"
    and "\<forall>k. k \<noteq> c \<longrightarrow> dget es1 (result_name k) = dget es (result_name k)"
  shows "finalize_post env reason r old (c # cs) claims m es n out"
proof -
  have keep: "dget (dpop c claims) k = dget claims k" if "k \<in> set cs" for k using that assms(2) by auto
  then have "filter (\<lambda>k. is_claim (dget (dpop c claims) k)) cs = filter (\<lambda>k. is_claim (dget claims k)) cs"
    by (intro filter_cong) auto
  moreover have "is_claim (dget claims c)" by (simp add: is_claim_def assms(3))
  moreover have "read_result env c (RResults m es') = Inr (Some d)" if "\<forall>k. k \<notin> set cs \<longrightarrow> dget es' (result_name k) = dget es1 (result_name k)" for es'
    using assms(2,4) that read_result_same_file [of es' c es1] by simp
  ultimately show ?thesis using assms(1-3,5,6) keep unfolding finalize_post_def by (elim exE) (intro exI, auto)
qed

lemma finalize_post_other:
  assumes "finalize_post env reason r old cs claims1 m es n out" "c \<notin> set cs" "\<not> is_claim (dget claims c)"
    and "\<And>k. dget claims1 k = (if k = c then None else dget claims k)"
  shows "finalize_post env reason r old (c # cs) claims m es n out"
proof -
  have keep: "dget claims1 k = dget claims k" if "k \<in> set cs" for k using that assms(2,4) by auto
  then have "filter (\<lambda>k. is_claim (dget claims1 k)) cs = filter (\<lambda>k. is_claim (dget claims k)) (c # cs)"
    using assms(3) by (auto intro!: filter_cong)
  moreover have "dget claims c \<noteq> Some (Claim mf)" for mf using assms(3) by (auto simp: is_claim_def)
  ultimately show ?thesis using assms(1,2,4) keep unfolding finalize_post_def by (elim exE) (intro exI, auto)
qed

lemma finalize_claims_ok:
  assumes "owner_matches env m"
  shows "distinct cs \<Longrightarrow> verify_results_directory (default_root env) (RResults m es) = Inr (Some m) \<Longrightarrow>
    \<forall>c \<in> set cs. is_claim (dget claims c) \<longrightarrow> validate_job_id (VStr c) = Inr c \<and> read_result env c (RResults m es) = Inr (old c) \<Longrightarrow>
    finalize_post env reason r old cs claims m es n (finalize_claims env now reason r cs claims (RResults m es) n)"
proof (induction cs arbitrary: claims es n)
  case (Cons c cs)
  have v: "verify_results_directory (default_root env) (RResults m e) = Inr (Some m)" for e
    using Cons.prems(2) by (simp add: verify_results_directory_def)
  have c: "c \<notin> set cs" "distinct cs" using Cons.prems(1) by auto
  show ?case
  proof (cases "is_claim (dget claims c)")
    case True
    then obtain mf where mf: "dget claims c = Some (Claim mf)" by (auto simp: is_claim_def split: option.splits claim_node.splits)
    have j: "validate_job_id (VStr c) = Inr c" "read_result env c (RResults m es) = Inr (old c)"
      using Cons.prems(3) True by auto
    obtain es1 d where s: "finalize_claims env now reason r (c # cs) claims (RResults m es) n =
        finalize_claims env now reason r cs (dpop c claims) (RResults m es1) (Suc n)"
      "read_result env c (RResults m es1) = Inr (Some d)" "finalized_as reason (committed_receipt_for_active_job (Claim mf) c r) (old c) d"
      "\<forall>k. k \<noteq> c \<longrightarrow> dget es1 (result_name k) = dget es (result_name k)"
      using finalize_claim_step [OF j assms v mf, of now reason r cs n] by blast
    have "\<forall>k \<in> set cs. is_claim (dget (dpop c claims) k) \<longrightarrow> validate_job_id (VStr k) = Inr k \<and> read_result env k (RResults m es1) = Inr (old k)"
      using Cons.prems(3) s(4) c(1) read_result_same_file by (metis dget_delete list.set_intros(2))
    then show ?thesis unfolding s(1) using finalize_post_claim [OF Cons.IH [OF c(2) v] c(1) mf s(2-4)] by blast
  next
    case False
    define claims1 where "claims1 = (if dget claims c = None then claims else dpop c claims)"
    have step: "finalize_claims env now reason r (c # cs) claims p n = finalize_claims env now reason r cs claims1 p n" for p
      using False by (auto simp: claims1_def is_claim_def split: option.splits claim_node.splits)
    have l: "dget claims1 k = (if k = c then None else dget claims k)" for k by (auto simp: claims1_def)
    have "\<forall>k \<in> set cs. is_claim (dget claims1 k) \<longrightarrow> validate_job_id (VStr k) = Inr k \<and> read_result env k (RResults m es) = Inr (old k)"
      using Cons.prems(3) c(1) by (auto simp: l)
    then show ?thesis unfolding step by (rule finalize_post_other [OF Cons.IH [OF c(2) v] c(1) False l])
  qed
qed (simp add: finalize_post_def)

lemma interpret_terminal:
  assumes "finalized_as reason receipt_found None d"
  shows "\<exists>s. interpret_staged_result d = Inr s \<and> (case receipt_found of
    Some rc \<Rightarrow> sr_succeeded s \<and> VDict (sr_payload s) = sorted_json (VDict (result rc))
  | None \<Rightarrow> \<not> sr_succeeded s \<and> sr_error s = Some reason)"
  using assms by (auto simp: finalized_as_def terminal_payload_def interpret_staged_result_def get_or_def split: option.splits)

lemma ensure_results_ok:
  assumes "verify_results_directory (default_root env) (RResults m es) = Inr (Some m)" "euid env = 0 \<or> euid env = uid m"
  obtains m' where "ensure_results env (RResults m es) = RResults m' es" "owner_matches env m'"
    "verify_results_directory (default_root env) (RResults m' es) = Inr (Some m')"
    "\<And>c. read_result env c (RResults m' es) = read_result env c (RResults m es)"
proof (rule that)
  let ?m = "m\<lparr>mode := results_dir_mode\<rparr>"
  have w: "\<not> group_world_writable results_dir_mode" by (simp add: group_world_writable_def results_dir_mode_def)
  show v: "verify_results_directory (default_root env) (RResults ?m es) = Inr (Some ?m)"
    using assms(1) w by (auto simp: verify_results_directory_def split: if_splits)
  show "ensure_results env (RResults m es) = RResults ?m es" using assms(2) by (simp add: ensure_results_def)
  show "owner_matches env ?m" using assms(2) by (auto simp: owner_matches_def results_dir_mode_def)
  show "read_result env c (RResults ?m es) = read_result env c (RResults m es)" for c
    by (simp add: read_result_def v assms(1) split: option.split rnode.split)
qed

text \<open>C32: After a worker stopped, finalization publishes a terminal result for every claim and removes the claim. A
  result that was published is kept. A claim without one succeeds, with the recorded payload, exactly when
  the committed apply receipt is its own (same job, same source digest in its manifest), and fails with
  the given reason otherwise; so a job is never reported failed when its configuration was committed.\<close>

theorem finalize_publishes_every_claim:
  assumes "verify_results_directory (default_root env) (RResults m es) = Inr (Some m)" "euid env = 0 \<or> euid env = uid m"
    and "distinct (dkeys claims)"
    and "\<forall>c mf. dget claims c = Some (Claim mf) \<longrightarrow> validate_job_id (VStr c) = Inr c \<and> read_result env c (RResults m es) = Inr (old c)"
  shows "\<exists>p. finalize_abandoned_active_jobs env now reason r claims (RResults m es) =
      (Inr (length (filter (\<lambda>c. is_claim (dget claims c)) (dkeys claims))), [], p) \<and>
    (\<forall>c mf. dget claims c = Some (Claim mf) \<longrightarrow> (\<exists>d. read_result env c p = Inr (Some d) \<and> (case old c of
       Some d0 \<Rightarrow> d = d0
     | None \<Rightarrow> (\<exists>s. interpret_staged_result d = Inr s \<and> (case committed_receipt_for_active_job (Claim mf) c r of
         Some rc \<Rightarrow> sr_succeeded s \<and> VDict (sr_payload s) = sorted_json (VDict (result rc))
       | None \<Rightarrow> \<not> sr_succeeded s \<and> sr_error s = Some reason)))))"
proof -
  obtain m' where m': "ensure_results env (RResults m es) = RResults m' es" "owner_matches env m'"
    "verify_results_directory (default_root env) (RResults m' es) = Inr (Some m')"
    "\<And>c. read_result env c (RResults m' es) = read_result env c (RResults m es)"
    using ensure_results_ok [OF assms(1,2)] by metis
  let ?cs = "sort (dkeys claims)"
  have "\<forall>c \<in> set ?cs. is_claim (dget claims c) \<longrightarrow> validate_job_id (VStr c) = Inr c \<and> read_result env c (RResults m' es) = Inr (old c)"
    using assms(4) m'(4) by (auto simp: is_claim_def split: option.splits claim_node.splits)
  then obtain claims' es' where f: "finalize_claims env now reason r ?cs claims (RResults m' es) 0 =
      (Inr (0 + length (filter (\<lambda>c. is_claim (dget claims c)) ?cs)), claims', RResults m' es')"
    "\<forall>k. dget claims' k = (if k \<in> set ?cs then None else dget claims k)"
    "\<forall>c \<in> set ?cs. \<forall>mf. dget claims c = Some (Claim mf) \<longrightarrow> (\<exists>d. read_result env c (RResults m' es') = Inr (Some d) \<and>
         finalized_as reason (committed_receipt_for_active_job (Claim mf) c r) (old c) d)"
    using finalize_claims_ok [OF m'(2) _ m'(3), of ?cs claims old reason r 0 now] assms(3)
    unfolding finalize_post_def by auto
  have "dget claims' k = None" for k
    using f(2) map_of_eq_None_iff [of claims k] by (cases "k \<in> set ?cs") simp_all
  then have none: "claims' = []" by (cases claims') (auto, metis option.distinct(1))
  have len: "length (filter (\<lambda>c. is_claim (dget claims c)) ?cs) = length (filter (\<lambda>c. is_claim (dget claims c)) (dkeys claims))"
    by (simp add: filter_sort flip: sort_key_simps)
  have fin: "\<exists>d. read_result env c (RResults m' es') = Inr (Some d) \<and> (case old c of
       Some d0 \<Rightarrow> d = d0
     | None \<Rightarrow> (\<exists>s. interpret_staged_result d = Inr s \<and> (case committed_receipt_for_active_job (Claim mf) c r of
         Some rc \<Rightarrow> sr_succeeded s \<and> VDict (sr_payload s) = sorted_json (VDict (result rc))
       | None \<Rightarrow> \<not> sr_succeeded s \<and> sr_error s = Some reason)))" if claim: "dget claims c = Some (Claim mf)" for c mf
  proof -
    have "c \<in> set ?cs" using map_of_SomeD [OF claim] by force
    then obtain d where d: "read_result env c (RResults m' es') = Inr (Some d)"
      "finalized_as reason (committed_receipt_for_active_job (Claim mf) c r) (old c) d" using f(3) claim by blast
    show ?thesis
    proof (cases "old c")
      case None
      then show ?thesis using d interpret_terminal by (intro exI [of _ d]) simp
    qed (use d in \<open>simp add: finalized_as_def\<close>)
  qed
  show ?thesis
    unfolding finalize_abandoned_active_jobs_def results_path.case m'(1) f(1) none len add_0
    by (rule exI [of _ "RResults m' es'"]) (intro conjI refl allI impI, rule fin)
qed

theorem finalize_publishes_every_claim_witness:
  "\<exists>p d s. finalize_abandoned_active_jobs board_worker 1 ''stopped'' None [(''job-1'', Claim None)] (RResults \<lparr>mode = 1512, uid = 0, gid = 990\<rparr> []) = (Inr 1, [], p) \<and>
    read_result board_worker ''job-1'' p = Inr (Some d) \<and> interpret_staged_result d = Inr s \<and> sr_error s = Some ''stopped''"
proof -
  let ?m = "\<lparr>mode = 1512, uid = 0, gid = 990\<rparr>"
  have a: "verify_results_directory (default_root board_worker) (RResults ?m []) = Inr (Some ?m)"
    by (simp add: verify_results_directory_def group_world_writable_def board_worker_def)
  have b: "euid board_worker = 0 \<or> euid board_worker = uid ?m" by (simp add: board_worker_def)
  have c: "distinct (dkeys [(''job-1'', Claim None)])" by simp
  have j: "validate_job_id (VStr ''job-1'') = Inr ''job-1''" by code_simp
  have d: "\<forall>c mf. dget [(''job-1'', Claim None)] c = Some (Claim mf) \<longrightarrow>
      validate_job_id (VStr c) = Inr c \<and> read_result board_worker c (RResults ?m []) = Inr ((\<lambda>c. None) c)"
    using a j by (auto simp: read_result_def)
  have "is_claim (dget [(''job-1'', Claim None)] ''job-1'')" by (simp add: is_claim_def)
  then show ?thesis
    using finalize_publishes_every_claim [OF a b c d, of 1 "''stopped''" None]
    by (fastforce simp: committed_receipt_for_active_job_def)
qed

end
