(* ===== verification/Job_Manager.thy ===== *)
theory Job_Manager
  imports Staged_Results
begin

text \<open>
  \<^verbatim>\<open>jobs.py\<close>: the job records that API clients poll, the single-flight manager, and the manager of
  staged jobs whose results come from the privileged worker.

  Jobs are objects: the heap is a list of records, a reference an index into it, and
  \<^verbatim>\<open>self._current_job is job\<close> compares references. The event loop is a step relation: between two
  \<^verbatim>\<open>await\<close>s a coroutine runs without interruption, and each such segment is one step. The clock is an
  argument; \<^verbatim>\<open>elapsed_seconds\<close> is kept unrounded.
\<close>

section \<open>Definitions\<close>

subsection \<open>Jobs\<close>

datatype job_state = SUBMITTED | RUNNING | SUCCEEDED | FAILED

record job_event =
  ev_step :: string
  ev_elapsed :: real
  ev_message :: "string option"

record job =
  j_id :: string
  j_state :: job_state
  submitted_at :: real
  started_at :: "real option"
  completed_at :: "real option"
  j_result :: "pyval dict"
  j_error :: "string option"
  j_rollback_status :: "string option"
  j_stage :: string
  j_events :: "job_event list"

definition new_job :: "string \<Rightarrow> real \<Rightarrow> job" where
  "new_job i now = \<lparr>j_id = i, j_state = SUBMITTED, submitted_at = now, started_at = None, completed_at = None,
     j_result = [], j_error = None, j_rollback_status = None, j_stage = ''submitted'', j_events = []\<rparr>"

definition set_stage :: "real \<Rightarrow> string \<Rightarrow> string option \<Rightarrow> job \<Rightarrow> job" where
  "set_stage now name detail j = j\<lparr>j_stage := name, j_events := j_events j @
     [\<lparr>ev_step = name, ev_elapsed = now - submitted_at j,
       ev_message = (case detail of None \<Rightarrow> None | Some d \<Rightarrow> if d = [] then None else Some d)\<rparr>]\<rparr>"

definition unfinished :: "job \<Rightarrow> bool" where
  "unfinished j = (j_state j = SUBMITTED \<or> j_state j = RUNNING)"

definition start_job :: "real \<Rightarrow> job \<Rightarrow> job" where
  "start_job now j = set_stage now ''running'' None (j\<lparr>j_state := RUNNING, started_at := Some now\<rparr>)"

text \<open>How a unit of work ends: a result, an exception (its text and rollback status), or cancellation.\<close>

datatype work_outcome =
    Work_Result "pyval dict"
  | Work_Error string "string option"
  | Work_Cancelled

definition finish_job :: "real \<Rightarrow> work_outcome \<Rightarrow> job \<Rightarrow> job" where
  "finish_job now out j =
     (case out of
        Work_Result r \<Rightarrow> (set_stage now ''completed'' None (j\<lparr>j_state := SUCCEEDED\<rparr>))\<lparr>j_result := r\<rparr>
      | Work_Error e rbs \<Rightarrow> j\<lparr>j_state := FAILED, j_error := Some e,
            j_rollback_status := (case rbs of None \<Rightarrow> j_rollback_status j | Some s \<Rightarrow> Some s)\<rparr>
      | Work_Cancelled \<Rightarrow> j\<lparr>j_state := FAILED, j_error := Some ''job was cancelled''\<rparr>)\<lparr>completed_at := Some now\<rparr>"

subsection \<open>The single-flight manager\<close>

record manager =
  heap :: "job list"
  jobs :: "nat dict"
  current_job :: "nat option"

definition new_manager :: manager where
  "new_manager = \<lparr>heap = [], jobs = [], current_job = None\<rparr>"

definition max_retained_jobs :: nat where "max_retained_jobs = 64"

definition is_busy :: "manager \<Rightarrow> bool" where
  "is_busy m = (case current_job m of None \<Rightarrow> False | Some r \<Rightarrow> unfinished (heap m ! r))"

definition evict_old_jobs :: "manager \<Rightarrow> manager" where
  "evict_old_jobs m =
     (if length (jobs m) < max_retained_jobs then m
      else let completed = sort_key (\<lambda>(i, r). submitted_at (heap m ! r)) (filter (\<lambda>(i, r). \<not> unfinished (heap m ! r)) (jobs m));
               to_remove = length (jobs m) - max_retained_jobs + 1 in
           m\<lparr>jobs := fold (\<lambda>(i, r). dpop i) (take to_remove completed) (jobs m)\<rparr>)"

definition submit :: "real \<Rightarrow> string \<Rightarrow> manager \<Rightarrow> nat option \<times> manager" where
  "submit now uuid m =
     (if is_busy m then (None, m)
      else let m1 = evict_old_jobs m; r = length (heap m1) in
           (Some r, m1\<lparr>heap := heap m1 @ [new_job uuid now], jobs := dset uuid r (jobs m1), current_job := Some r\<rparr>))"

definition run_start :: "real \<Rightarrow> nat \<Rightarrow> manager \<Rightarrow> manager" where
  "run_start now r m = m\<lparr>heap := (heap m)[r := start_job now (heap m ! r)]\<rparr>"

definition run_finish :: "real \<Rightarrow> work_outcome \<Rightarrow> nat \<Rightarrow> manager \<Rightarrow> manager" where
  "run_finish now out r m = m\<lparr>heap := (heap m)[r := finish_job now out (heap m ! r)]\<rparr>"

definition run_clear :: "nat \<Rightarrow> manager \<Rightarrow> manager" where
  "run_clear r m = (if current_job m = Some r then m\<lparr>current_job := None\<rparr> else m)"

text \<open>\<^verbatim>\<open>run_sync\<close> up to the call of the work: its job is not retained.\<close>

definition run_sync_begin :: "real \<Rightarrow> manager \<Rightarrow> nat option \<times> manager" where
  "run_sync_begin now m =
     (if is_busy m then (None, m)
      else let r = length (heap m) in
           (Some r, run_start now r (m\<lparr>heap := heap m @ [new_job ''sync'' now], current_job := Some r\<rparr>)))"

definition get_job :: "string \<Rightarrow> manager \<Rightarrow> job option" where
  "get_job i m = map_option (\<lambda>r. heap m ! r) (dget (jobs m) i)"

text \<open>
  The coroutines of the event loop: a submitted job's task is scheduled, then at work, then between the end
  of its work and the lock that guards \<^verbatim>\<open>_current_job\<close>, then done.
\<close>

datatype task_phase = Scheduled | Working | Finishing | Finished

type_synonym event_loop = "manager \<times> task_phase list"

inductive loop_step :: "event_loop \<Rightarrow> event_loop \<Rightarrow> bool" where
  step_submit: "submit now uuid m = (Some r, m1) \<Longrightarrow> loop_step (m, ts) (m1, ts @ [Scheduled])"
| step_submit_busy: "submit now uuid m = (None, m1) \<Longrightarrow> loop_step (m, ts) (m1, ts)"
| step_sync: "run_sync_begin now m = (Some r, m1) \<Longrightarrow> loop_step (m, ts) (m1, ts @ [Working])"
| step_start: "r < length ts \<Longrightarrow> ts ! r = Scheduled \<Longrightarrow> loop_step (m, ts) (run_start now r m, ts[r := Working])"
| step_finish: "r < length ts \<Longrightarrow> ts ! r = Working \<Longrightarrow> loop_step (m, ts) (run_finish now out r m, ts[r := Finishing])"
| step_clear: "r < length ts \<Longrightarrow> ts ! r = Finishing \<Longrightarrow> loop_step (m, ts) (run_clear r m, ts[r := Finished])"

inductive loop_reachable :: "event_loop \<Rightarrow> bool" where
  reach_init: "loop_reachable (new_manager, [])"
| reach_step: "loop_reachable s \<Longrightarrow> loop_step s s1 \<Longrightarrow> loop_reachable s1"

inductive_cases loop_stepE: "loop_step (m, ts) s"

subsection \<open>Staged jobs\<close>

definition interpret_result :: "pyval dict option res \<Rightarrow> staged_result option res" where
  "interpret_result read = rbind read (\<lambda>found. case found of
     None \<Rightarrow> Inr None
   | Some d \<Rightarrow> rbind (interpret_staged_result d) (\<lambda>s. Inr (Some s)))"

definition apply_result :: "real \<Rightarrow> staged_result \<Rightarrow> job \<Rightarrow> job" where
  "apply_result now s j =
     (let j1 = j\<lparr>completed_at := Some (case completed_at j of None \<Rightarrow> now | Some t \<Rightarrow> if t = 0 then now else t)\<rparr> in
      if sr_succeeded s
      then j1\<lparr>j_state := SUCCEEDED, j_result := sr_payload s, j_error := None, j_stage := ''completed''\<rparr>
      else j1\<lparr>j_state := FAILED, j_error := sr_error s, j_rollback_status := sr_rollback_status s, j_stage := ''failed''\<rparr>)"

text \<open>
  \<^verbatim>\<open>_refresh_from_result\<close>, given what \<^verbatim>\<open>read_result\<close> returned. A result that does not
  interpret raises before the job is touched.
\<close>

definition refresh_from_result :: "real \<Rightarrow> pyval dict option res \<Rightarrow> job \<Rightarrow> bool res \<times> job" where
  "refresh_from_result now read j = (case interpret_result read of
     Inl e \<Rightarrow> (Inl e, j)
   | Inr None \<Rightarrow> (Inr False, j)
   | Inr (Some s) \<Rightarrow> (Inr True, apply_result now s j))"

definition mark_queued :: "real \<Rightarrow> string list \<Rightarrow> job \<Rightarrow> job" where
  "mark_queued now maintenance_errors j = set_stage now ''queued'' (Some (''waiting for privileged apply worker'' @
     (if maintenance_errors = [] then []
      else ''; post-publication reservation maintenance failed: '' @ join ''; '' maintenance_errors))) j"

definition mark_failed :: "real \<Rightarrow> string \<Rightarrow> string option \<Rightarrow> job \<Rightarrow> job" where
  "mark_failed now e rbs j = j\<lparr>j_state := FAILED, j_error := Some e,
     j_rollback_status := (case rbs of None \<Rightarrow> j_rollback_status j | Some s \<Rightarrow> Some s), completed_at := Some now\<rparr>"

fun error_text :: "error \<Rightarrow> string" where
  "error_text (ProvisionError s) = s"
| "error_text (ProvisionSystemError s) = s"
| "error_text (StagedQueueBusyError s) = s"
| "error_text (ActivationPolicyError s) = s"
| "error_text (ValueErr s) = s"
| "error_text (OSErr s) = s"
| "error_text (PyExc s) = s"

text \<open>
  What staging a reserved job meets: refreshing the reservation, the work (or a second cancellation while
  it runs), the heartbeat task, and releasing the reservation.
\<close>

datatype stage_work = Staged | Stage_Error error "string option" | Stage_Cancelled

record stage_view =
  sv_refresh :: "unit res"
  sv_work :: stage_work
  sv_heartbeat :: "error option"
  sv_refresh_again :: "unit res"
  sv_release :: "unit res"

text \<open>How \<^verbatim>\<open>_stage_and_monitor\<close> ends: the job, whether it is monitored, whether its reservation was released.\<close>

datatype stage_end =
    Returned job bool bool
  | Raised error job bool
  | Cancelled job bool

definition heartbeat_cleanup :: "real \<Rightarrow> bool \<Rightarrow> stage_view \<Rightarrow> job \<Rightarrow> job" where
  "heartbeat_cleanup now started v j = (case sv_heartbeat v of
     Some e \<Rightarrow> (if started then mark_failed now (error_text e) None j else j) | None \<Rightarrow> j)"

definition staging_failed :: "real \<Rightarrow> bool \<Rightarrow> stage_view \<Rightarrow> error \<Rightarrow> string option \<Rightarrow> job \<Rightarrow> stage_end" where
  "staging_failed now heartbeat v e rbs j =
     (let (failure, frb, released) = (case sv_release v of Inr u \<Rightarrow> (e, rbs, True) | Inl ce \<Rightarrow> (ce, None, False));
          j1 = mark_failed now (error_text failure) frb j;
          j2 = heartbeat_cleanup now heartbeat v j1 in
      case failure of StagedQueueBusyError s \<Rightarrow> Raised e j2 released | _ \<Rightarrow> Returned j2 False released)"

definition stage_and_monitor :: "real \<Rightarrow> stage_view \<Rightarrow> job \<Rightarrow> stage_end" where
  "stage_and_monitor now v j0 =
     (let j = start_job now j0 in
      case sv_refresh v of
        Inl e \<Rightarrow> staging_failed now False v e None j
      | Inr u \<Rightarrow>
          (case sv_work v of
             Stage_Error e rbs \<Rightarrow> staging_failed now True v e rbs j
           | Stage_Cancelled \<Rightarrow>
               (case sv_release v of
                  Inl e \<Rightarrow> Raised e (heartbeat_cleanup now True v (mark_failed now (error_text e) None j)) False
                | Inr w \<Rightarrow> Cancelled (heartbeat_cleanup now True v (mark_failed now ''staged job manager task was cancelled'' None j)) True)
           | Staged \<Rightarrow>
               (let errors = (case sv_heartbeat v of None \<Rightarrow> [] | Some e \<Rightarrow> [error_text e]) @
                             (case sv_refresh_again v of Inr w \<Rightarrow> [] | Inl e \<Rightarrow> [error_text e]) in
                Returned (mark_queued now errors j) True False)))"

text \<open>
  \<^verbatim>\<open>_stage_with_busy_translation\<close>: a busy queue removes the job again; any other exception leaves it to the
  caller as it is. A cancellation passes through.
\<close>

datatype admission = Admitted job bool | Rejected | Admission_Cancelled job

definition stage_with_busy_translation :: "real \<Rightarrow> stage_view \<Rightarrow> job \<Rightarrow> admission" where
  "stage_with_busy_translation now v j = (case stage_and_monitor now v j of
     Returned j1 monitored released \<Rightarrow> Admitted j1 monitored
   | Raised e j1 released \<Rightarrow> (case e of StagedQueueBusyError s \<Rightarrow> Rejected | _ \<Rightarrow> Admitted j1 False)
   | Cancelled j1 released \<Rightarrow> Admission_Cancelled j1)"

text \<open>The jobs a staged manager keeps, by value, and the ids it monitors.\<close>

record staged_manager =
  s_jobs :: "job dict"
  s_monitored :: "string list"

definition staged_is_busy :: "staged_manager \<Rightarrow> bool" where
  "staged_is_busy m = list_ex (\<lambda>(i, j). unfinished j) (s_jobs m)"

definition s_evict_old_jobs :: "staged_manager \<Rightarrow> staged_manager" where
  "s_evict_old_jobs m =
     (if length (s_jobs m) < max_retained_jobs then m
      else m\<lparr>s_jobs := fold (\<lambda>(i, j). dpop i)
             (take (length (s_jobs m) - max_retained_jobs + 1)
               (sort_key (\<lambda>(i, j). submitted_at j) (filter (\<lambda>(i, j). \<not> unfinished j) (s_jobs m)))) (s_jobs m)\<rparr>)"

definition start_monitor :: "string \<Rightarrow> staged_manager \<Rightarrow> staged_manager" where
  "start_monitor i m = (if i \<in> set (s_monitored m) then m else m\<lparr>s_monitored := i # s_monitored m\<rparr>)"

text \<open>\<^verbatim>\<open>_submit_staged\<close>, given what the reservation of a slot returned.\<close>

definition submit_staged :: "real \<Rightarrow> string \<Rightarrow> bool res \<Rightarrow> stage_view \<Rightarrow> staged_manager \<Rightarrow> job option \<times> staged_manager" where
  "submit_staged now uuid reserved v m0 =
     (let m = s_evict_old_jobs m0; j = new_job uuid now in
      case reserved of
        Inr False \<Rightarrow> (None, m)
      | Inl e \<Rightarrow> (let j1 = j\<lparr>j_state := FAILED, j_error := Some (error_text e), completed_at := Some now\<rparr> in
                 (Some j1, m\<lparr>s_jobs := dset uuid j1 (s_jobs m)\<rparr>))
      | Inr True \<Rightarrow>
          (case stage_with_busy_translation now v j of
             Rejected \<Rightarrow> (None, m\<lparr>s_jobs := dpop uuid (s_jobs m)\<rparr>)
           | Admitted j1 monitored \<Rightarrow>
               (let m1 = m\<lparr>s_jobs := dset uuid j1 (s_jobs m)\<rparr> in (Some j1, if monitored then start_monitor uuid m1 else m1))
           | Admission_Cancelled j1 \<Rightarrow> (None, m\<lparr>s_jobs := dset uuid j1 (s_jobs m)\<rparr>)))"

text \<open>\<^verbatim>\<open>_job_from_result\<close> and \<^verbatim>\<open>get\<close>: the event loop runs, so recovered pending jobs are monitored.\<close>

definition job_from_result ::
  "real \<Rightarrow> string \<Rightarrow> pyval dict option res \<Rightarrow> presence res \<Rightarrow> staged_manager \<Rightarrow> job option res \<times> staged_manager" where
  "job_from_result now i read present m =
     (case refresh_from_result now read (new_job i now) of
        (Inl e, j) \<Rightarrow> (Inl e, m)
      | (Inr True, j) \<Rightarrow> (Inr (Some j), m)
      | (Inr False, j) \<Rightarrow>
          (case present of
             Inl e \<Rightarrow> (Inl e, m)
           | Inr Queued \<Rightarrow> (Inr (Some (set_stage now ''queued'' (Some ''waiting for privileged apply worker'') j)), start_monitor i m)
           | Inr Active \<Rightarrow> (Inr (Some (set_stage now ''running'' (Some ''privileged apply worker is running'')
                   (j\<lparr>j_state := RUNNING, started_at := Some now\<rparr>))), start_monitor i m)
           | Inr Missing \<Rightarrow> (Inr None, m)))"

definition staged_get ::
  "real \<Rightarrow> string \<Rightarrow> pyval dict option res \<Rightarrow> presence res \<Rightarrow> staged_manager \<Rightarrow> job option res \<times> staged_manager" where
  "staged_get now i read present m = (case validate_job_id (VStr i) of
     Inl e \<Rightarrow> (Inr None, m)
   | Inr u \<Rightarrow>
       (case dget (s_jobs m) i of
          Some j \<Rightarrow> (case refresh_from_result now read j of
             (Inl e, j1) \<Rightarrow> (Inl e, m)
           | (Inr b, j1) \<Rightarrow> (Inr (Some j1), m\<lparr>s_jobs := dset i j1 (s_jobs m)\<rparr>))
        | None \<Rightarrow> (case job_from_result now i read present m of
             (Inr (Some j), m1) \<Rightarrow> (Inr (Some j), m1\<lparr>s_jobs := dset i j (s_jobs m1)\<rparr>)
           | r \<Rightarrow> r)))"

text \<open>
  \<^verbatim>\<open>_monitor_staged\<close> over the polls it makes: the waiter's reads apply a published result to the job, its
  progress goes to the job's events, and an exception fails the job.
\<close>

definition monitor_view :: "pyval dict poll_view \<Rightarrow> staged_result poll_view" where
  "monitor_view v = \<lparr>v_now = v_now v, v_read = interpret_result (v_read v), v_claimed = v_claimed v,
     v_state = v_state v, v_read_again = interpret_result (v_read_again v)\<rparr>"

definition monitor_staged :: "real \<Rightarrow> real \<Rightarrow> real \<Rightarrow> pyval dict poll_view list \<Rightarrow> job \<Rightarrow> job" where
  "monitor_staged start now interval vs j =
     (case wait_loop (map monitor_view vs) (new_waiter start interval (j_stage j)) of (r, w) \<Rightarrow>
        let j1 = fold (\<lambda>(s, d). set_stage now s (Some d)) (emitted w) j in
        case r of
          Inl e \<Rightarrow> mark_failed now (error_text e) None j1
        | Inr None \<Rightarrow> j1
        | Inr (Some s) \<Rightarrow> apply_result now s j1)"

section \<open>Theorems\<close>

subsection \<open>Single flight\<close>

lemma length_dpop: "distinct (dkeys d) \<Longrightarrow> k \<in> set (dkeys d) \<Longrightarrow> length (dpop k d) = length d - 1"
  by (metis delete_keys distinct_remove1_removeAll length_map length_remove1)

lemma length_dset: "length (dset k v d) \<le> Suc (length d)"
  by (induction d) (auto split: prod.splits)

lemma length_fold_dpop:
  "distinct (dkeys d) \<Longrightarrow> distinct (map fst xs) \<Longrightarrow> fst ` set xs \<subseteq> fst ` set d \<Longrightarrow>
     length (fold (\<lambda>(i, r). dpop i) xs d) = length d - length xs"
proof (induction xs arbitrary: d)
  case (Cons x xs)
  obtain i r where x: "x = (i, r)" by fastforce
  have "set (dkeys (dpop i d)) = set (dkeys d) - {i}" unfolding delete_keys by simp
  moreover have "i \<notin> fst ` set xs" using Cons.prems(2) by (simp add: x)
  ultimately have "fst ` set xs \<subseteq> fst ` set (dpop i d)" using Cons.prems(3) by auto
  then show ?case
    using Cons.IH [of "dpop i d"] Cons.prems length_dpop [of d i] distinct_dpop [of d i] by (simp add: x)
qed simp

lemma distinct_fold_dpop: "distinct (dkeys d) \<Longrightarrow> distinct (dkeys (fold (\<lambda>(i, r). dpop i) xs d))"
  by (induction xs arbitrary: d) (auto simp: distinct_dpop)

lemma set_fold_dpop: "set (fold (\<lambda>(i, r). dpop i) xs d) \<subseteq> set d"
proof (induction xs arbitrary: d)
  case (Cons x xs)
  have "set (dpop (fst x) d) \<subseteq> set d" by (auto simp: AList.delete_eq)
  then show ?case using Cons.IH [of "dpop (fst x) d"] by (auto simp: case_prod_beta)
qed simp

lemma evict_old_jobs_props:
  "heap (evict_old_jobs m) = heap m" "current_job (evict_old_jobs m) = current_job m"
  "set (jobs (evict_old_jobs m)) \<subseteq> set (jobs m)" "distinct (dkeys (jobs m)) \<Longrightarrow> distinct (dkeys (jobs (evict_old_jobs m)))"
  using set_fold_dpop by (auto simp: evict_old_jobs_def Let_def intro: distinct_fold_dpop)

lemma evict_old_jobs_length:
  assumes "distinct (dkeys (jobs m))" "\<forall>(i, r) \<in> set (jobs m). \<not> unfinished (heap m ! r)"
  shows "length (jobs (evict_old_jobs m)) < max_retained_jobs"
proof (cases "length (jobs m) < max_retained_jobs")
  case False
  let ?n = "length (jobs m) - max_retained_jobs + 1"
  let ?c = "take ?n (sort_key (\<lambda>(i, r). submitted_at (heap m ! r)) (jobs m))"
  have all: "filter (\<lambda>(i, r). \<not> unfinished (heap m ! r)) (jobs m) = jobs m" using assms(2) by (auto simp: filter_id_conv)
  have "distinct (map fst (sort_key (\<lambda>(i, r). submitted_at (heap m ! r)) (jobs m)))"
    using assms(1) by (simp add: distinct_map inj_on_def)
  then have "distinct (map fst ?c)" by (metis distinct_take take_map)
  moreover have "fst ` set ?c \<subseteq> fst ` set (jobs m)" by (metis image_mono set_sort set_take_subset)
  ultimately have "length (jobs (evict_old_jobs m)) = length (jobs m) - length ?c"
    using False length_fold_dpop [OF assms(1), of ?c] by (simp add: evict_old_jobs_def all Let_def del: length_take)
  then show ?thesis using False by (simp add: max_retained_jobs_def min_def)
qed (simp add: evict_old_jobs_def)

text \<open>The invariant: phases and states agree, an unfinished job is the current one, and the store is bounded.\<close>

definition phase_ok :: "task_phase \<Rightarrow> job_state \<Rightarrow> bool" where
  "phase_ok t s = (case t of Scheduled \<Rightarrow> s = SUBMITTED | Working \<Rightarrow> s = RUNNING | _ \<Rightarrow> s = SUCCEEDED \<or> s = FAILED)"

definition is_current :: "manager \<Rightarrow> nat \<Rightarrow> bool" where
  "is_current m r = (current_job m = Some r)"

definition loop_ok :: "event_loop \<Rightarrow> bool" where
  "loop_ok s = (case s of (m, ts) \<Rightarrow>
     length ts = length (heap m) \<and> (\<forall>r < length ts. phase_ok (ts ! r) (j_state (heap m ! r))) \<and>
     (\<forall>r < length ts. unfinished (heap m ! r) \<longrightarrow> is_current m r) \<and>
     (case current_job m of None \<Rightarrow> True | Some r \<Rightarrow> r < length (heap m)) \<and>
     (\<forall>(i, r) \<in> set (jobs m). r < length ts) \<and> distinct (dkeys (jobs m)) \<and> length (jobs m) \<le> max_retained_jobs)"

lemma loop_okD:
  assumes "loop_ok (m, ts)"
  shows "length ts = length (heap m)" "\<And>r. r < length (heap m) \<Longrightarrow> phase_ok (ts ! r) (j_state (heap m ! r))"
    "\<And>r. r < length (heap m) \<Longrightarrow> unfinished (heap m ! r) \<Longrightarrow> is_current m r"
    "case current_job m of None \<Rightarrow> True | Some r \<Rightarrow> r < length (heap m)" "distinct (dkeys (jobs m))"
    "\<And>i r. (i, r) \<in> set (jobs m) \<Longrightarrow> r < length (heap m)" "length (jobs m) \<le> max_retained_jobs"
  using assms unfolding loop_ok_def by auto

lemma loop_okI:
  assumes "length ts = length (heap m)" "\<And>r. r < length (heap m) \<Longrightarrow> phase_ok (ts ! r) (j_state (heap m ! r))"
    "\<And>r. r < length (heap m) \<Longrightarrow> unfinished (heap m ! r) \<Longrightarrow> is_current m r"
    "case current_job m of None \<Rightarrow> True | Some r \<Rightarrow> r < length (heap m)" "distinct (dkeys (jobs m))"
    "\<And>i r. (i, r) \<in> set (jobs m) \<Longrightarrow> r < length (heap m)" "length (jobs m) \<le> max_retained_jobs"
  shows "loop_ok (m, ts)"
  using assms unfolding loop_ok_def by auto

lemma job_state_simps [simp]:
  "j_state (new_job i now) = SUBMITTED" "j_state (start_job now j) = RUNNING" "j_state (set_stage now n d j) = j_state j"
  by (simp_all add: new_job_def start_job_def set_stage_def)

lemma finish_job_state: "j_state (finish_job now out j) = SUCCEEDED \<or> j_state (finish_job now out j) = FAILED"
  by (auto simp: finish_job_def split: work_outcome.splits)

lemma idle_all_finished:
  assumes "loop_ok (m, ts)" "\<not> is_busy m" "r < length (heap m)"
  shows "\<not> unfinished (heap m ! r)"
  using assms(2,3) loop_okD(3) [OF assms(1)] by (auto simp: is_busy_def is_current_def)

lemma loop_ok_new_job:
  assumes ok: "loop_ok (m, ts)" and idle: "\<not> is_busy m" and j: "phase_ok t (j_state j)"
    and d: "set d \<subseteq> insert (i, length (heap m)) (set (jobs m))" "distinct (dkeys d)" "length d \<le> max_retained_jobs"
  shows "loop_ok (m\<lparr>heap := heap m @ [j], jobs := d, current_job := Some (length (heap m))\<rparr>, ts @ [t])"
proof -
  have "b < Suc (length (heap m))" if "(a, b) \<in> set d" for a b
  proof -
    have "(a, b) = (i, length (heap m)) \<or> (a, b) \<in> set (jobs m)" using that d(1) by blast
    then show ?thesis using loop_okD(6) [OF ok, of a b] by auto
  qed
  then show ?thesis
    by (intro loop_okI) (use loop_okD(1,2) [OF ok] d(2,3) j idle_all_finished [OF ok idle] in
      \<open>auto simp: nth_append less_Suc_eq is_current_def split: if_splits\<close>)
qed

lemma loop_ok_submit:
  assumes ok: "loop_ok (m, ts)" and s: "submit now uuid m = (Some r, m1)"
  shows "loop_ok (m1, ts @ [Scheduled])"
proof -
  let ?e = "evict_old_jobs m"
  have idle: "\<not> is_busy m" using s by (auto simp: submit_def split: if_splits)
  note keys = loop_okD(5) [OF ok]
  have "\<forall>(i, r) \<in> set (jobs m). \<not> unfinished (heap m ! r)" using loop_okD(6) [OF ok] idle_all_finished [OF ok idle] by auto
  then have "length (jobs ?e) < max_retained_jobs" by (rule evict_old_jobs_length [OF keys])
  then have "length (dset uuid (length (heap m)) (jobs ?e)) \<le> max_retained_jobs"
    using length_dset [of uuid "length (heap m)" "jobs ?e"] by linarith
  moreover have "set (dset uuid (length (heap m)) (jobs ?e)) \<subseteq> insert (uuid, length (heap m)) (set (jobs m))"
    using evict_old_jobs_props(3) [of m] set_dset by fastforce
  moreover have "distinct (dkeys (dset uuid (length (heap m)) (jobs ?e)))" using evict_old_jobs_props(4) [OF keys] by simp
  ultimately have "loop_ok (m\<lparr>heap := heap m @ [new_job uuid now], jobs := dset uuid (length (heap m)) (jobs ?e), current_job := Some (length (heap m))\<rparr>, ts @ [Scheduled])"
    by (intro loop_ok_new_job [OF ok idle]) (simp_all add: phase_ok_def)
  moreover have "m1 = m\<lparr>heap := heap m @ [new_job uuid now], jobs := dset uuid (length (heap m)) (jobs ?e), current_job := Some (length (heap m))\<rparr>"
    using s idle by (auto simp: submit_def Let_def evict_old_jobs_props)
  ultimately show ?thesis by simp
qed

lemma loop_ok_update:
  assumes ok: "loop_ok (m, ts)" and r: "r < length ts" and t: "phase_ok t (j_state j)"
    and u: "unfinished j \<Longrightarrow> unfinished (heap m ! r)"
  shows "loop_ok (m\<lparr>heap := (heap m)[r := j]\<rparr>, ts[r := t])"
  by (intro loop_okI) (use loop_okD [OF ok] r t u in \<open>auto simp: nth_list_update is_current_def split: if_splits option.splits\<close>)

lemma loop_ok_step: "loop_step s s1 \<Longrightarrow> loop_ok s \<Longrightarrow> loop_ok s1"
proof (induction rule: loop_step.induct)
  case (step_sync now m r m1 ts)
  have idle: "\<not> is_busy m" using step_sync.hyps by (auto simp: run_sync_begin_def split: if_splits)
  then have "m1 = m\<lparr>heap := heap m @ [start_job now (new_job ''sync'' now)], jobs := jobs m, current_job := Some (length (heap m))\<rparr>"
    using step_sync.hyps by (auto simp: run_sync_begin_def run_start_def Let_def)
  then show ?case
    using loop_ok_new_job [OF step_sync.prems idle, of Working "start_job now (new_job ''sync'' now)" "jobs m"]
      loop_okD(5,7) [OF step_sync.prems] by (auto simp: phase_ok_def)
next
  case (step_start r ts m now)
  have "j_state (heap m ! r) = SUBMITTED"
    using loop_okD(1) [OF step_start.prems] loop_okD(2) [OF step_start.prems, of r] step_start.hyps by (simp add: phase_ok_def)
  then show ?case unfolding run_start_def
    by (intro loop_ok_update [OF step_start.prems step_start.hyps(1)]) (simp_all add: phase_ok_def unfinished_def)
next
  case (step_finish r ts m now out)
  then show ?case unfolding run_finish_def using finish_job_state [of now out "heap m ! r"]
    by (intro loop_ok_update) (auto simp: phase_ok_def unfinished_def)
next
  case (step_clear r ts m)
  have fin: "\<not> unfinished (heap m ! r)"
    using loop_okD(1) [OF step_clear.prems] loop_okD(2) [OF step_clear.prems, of r] step_clear.hyps by (auto simp: phase_ok_def unfinished_def)
  have same: "heap (run_clear r m) = heap m" "jobs (run_clear r m) = jobs m" by (simp_all add: run_clear_def)
  note ok = loop_okD [OF step_clear.prems]
  have cur: "is_current (run_clear r m) r'" if "r' < length (heap m)" "unfinished (heap m ! r')" for r'
  proof -
    have "is_current m r'" by (rule ok(3) [OF that])
    moreover have "r' \<noteq> r" using fin that(2) by blast
    ultimately show ?thesis by (simp add: is_current_def run_clear_def)
  qed
  have "phase_ok (ts[r := Finished] ! i) (j_state (heap m ! i))" if "i < length (heap m)" for i
    using ok(2) [OF that] step_clear.hyps that ok(1) by (cases "i = r") (simp_all add: phase_ok_def)
  then show ?case
    by (intro loop_okI; unfold same) (use ok(1,4-7) cur in \<open>simp_all add: run_clear_def split: option.splits\<close>)
qed (auto simp: submit_def Let_def intro: loop_ok_submit split: if_splits)

lemma loop_reachable_ok: "loop_reachable s \<Longrightarrow> loop_ok s"
proof (induction rule: loop_reachable.induct)
  case reach_init
  show ?case by (intro loop_okI) (simp_all add: new_manager_def max_retained_jobs_def)
qed (rule loop_ok_step)

text \<open>C34: The manager is single-flight under every interleaving of submissions, synchronous runs and the segments of
  running jobs: at most one job is unfinished, \<^verbatim>\<open>is_busy\<close> is true exactly when one is (so a job that ends
  late never frees the slot of its successor, and no slot stays occupied), and at most 64 jobs are
  retained.\<close>

theorem jobs_single_flight:
  assumes "loop_reachable (m, ts)"
  shows "(\<forall>r r'. r < length (heap m) \<and> r' < length (heap m) \<and> unfinished (heap m ! r) \<and> unfinished (heap m ! r') \<longrightarrow> r = r') \<and>
    (is_busy m \<longleftrightarrow> (\<exists>r < length (heap m). unfinished (heap m ! r))) \<and>
    length (jobs m) \<le> 64"
proof -
  note ok = loop_okD [OF loop_reachable_ok [OF assms]]
  have "is_busy m \<longleftrightarrow> (\<exists>r < length (heap m). unfinished (heap m ! r))"
    using ok(3,4) by (auto simp: is_busy_def is_current_def split: option.splits)
  moreover have "r = r'" if "r < length (heap m)" "r' < length (heap m)" "unfinished (heap m ! r)" "unfinished (heap m ! r')" for r r'
    using ok(3) [OF that(1,3)] ok(3) [OF that(2,4)] by (simp add: is_current_def)
  ultimately show ?thesis using ok(7) by (auto simp: max_retained_jobs_def)
qed

theorem jobs_single_flight_witness:
  "\<exists>m. loop_reachable (m, [Scheduled]) \<and> is_busy m \<and> length (jobs m) \<le> 64"
proof -
  have "submit 0 ''a'' new_manager = (Some 0, snd (submit 0 ''a'' new_manager))"
    by (simp add: submit_def new_manager_def is_busy_def evict_old_jobs_def max_retained_jobs_def Let_def)
  then have "loop_reachable (snd (submit 0 ''a'' new_manager), [Scheduled])"
    using loop_reachable.intros(1) loop_reachable.intros(2) [OF _ step_submit] by fastforce
  from this jobs_single_flight [OF this] show ?thesis
    by (intro exI [of _ "snd (submit 0 ''a'' new_manager)"])
      (simp add: submit_def new_manager_def is_busy_def evict_old_jobs_def max_retained_jobs_def unfinished_def Let_def)
qed

subsection \<open>Staging and results\<close>

lemma mark_failed_simps [simp]: "j_state (mark_failed now e r j) = FAILED" "j_error (mark_failed now e r j) = Some e"
  "completed_at (mark_failed now e r j) = Some now"
  by (simp_all add: mark_failed_def)

lemma heartbeat_cleanup_failed:
  "j_state j = FAILED \<Longrightarrow> j_error j \<noteq> None \<Longrightarrow> completed_at j \<noteq> None \<Longrightarrow>
     j_state (heartbeat_cleanup now b v j) = FAILED \<and> j_error (heartbeat_cleanup now b v j) \<noteq> None \<and>
     completed_at (heartbeat_cleanup now b v j) \<noteq> None"
  by (auto simp: heartbeat_cleanup_def split: option.splits)

definition failed_job :: "job \<Rightarrow> bool" where
  "failed_job j = (j_state j = FAILED \<and> j_error j \<noteq> None \<and> completed_at j \<noteq> None)"

lemma failed_job_cleanup: "failed_job (heartbeat_cleanup now b v (mark_failed now e r j))"
  unfolding failed_job_def by (rule heartbeat_cleanup_failed) simp_all

lemma staging_failed_outcome:
  "case staging_failed now b v e r j of
     Returned j1 monitored released \<Rightarrow> \<not> monitored \<and> failed_job j1 \<and> (released \<longleftrightarrow> sv_release v = Inr ())
   | Raised e1 j1 released \<Rightarrow> e1 = e \<and> failed_job j1 \<and> (released \<longleftrightarrow> sv_release v = Inr ())
   | Cancelled j1 released \<Rightarrow> False"
  using failed_job_cleanup by (auto simp: staging_failed_def Let_def split: sum.splits error.splits)

text \<open>C35: Staging a reserved job has no third way. It is monitored exactly when its work was staged, and then it is
  left unfinished and queued whatever fails afterwards (the heartbeat, the last refresh), with its
  reservation kept for the worker. Otherwise it is failed, with an error and a completion time, and its
  reservation is released unless releasing it failed itself.\<close>

theorem staging_outcomes:
  "case stage_and_monitor now v j of
     Returned j1 monitored released \<Rightarrow>
       (monitored \<longleftrightarrow> sv_refresh v = Inr () \<and> sv_work v = Staged) \<and>
       (if monitored then unfinished j1 \<and> j_stage j1 = ''queued'' \<and> \<not> released
        else failed_job j1 \<and> (released \<longleftrightarrow> sv_release v = Inr ()))
   | Raised e j1 released \<Rightarrow>
       (sv_refresh v = Inl e \<or> (\<exists>e1 r. sv_work v = Stage_Error e1 r) \<or> sv_work v = Stage_Cancelled) \<and> failed_job j1 \<and> (released \<longleftrightarrow> sv_release v = Inr ())
   | Cancelled j1 released \<Rightarrow> sv_work v = Stage_Cancelled \<and> failed_job j1 \<and> released"
proof (cases "sv_refresh v")
  case (Inl e)
  then show ?thesis using staging_failed_outcome [of v e now False None "start_job now j"]
    by (auto simp: stage_and_monitor_def split: stage_end.splits)
next
  case (Inr u)
  show ?thesis
  proof (cases "sv_work v")
    case (Stage_Error e r)
    then show ?thesis using Inr staging_failed_outcome [of v e now True r "start_job now j"]
      by (auto simp: stage_and_monitor_def split: stage_end.splits)
  next
    case Staged
    then show ?thesis using Inr by (simp add: stage_and_monitor_def mark_queued_def set_stage_def unfinished_def start_job_def Let_def)
  next
    case Stage_Cancelled
    then show ?thesis using Inr failed_job_cleanup by (auto simp: stage_and_monitor_def Let_def split: sum.splits)
  qed
qed

theorem staging_outcomes_witness:
  "case stage_and_monitor 1 \<lparr>sv_refresh = Inr (), sv_work = Staged, sv_heartbeat = None, sv_refresh_again = Inr (), sv_release = Inr ()\<rparr>
     (new_job ''j'' 0) of
     Returned j1 monitored released \<Rightarrow> monitored \<and> unfinished j1 \<and> j_stage j1 = ''queued'' \<and> \<not> released
   | Raised e j1 released \<Rightarrow> False
   | Cancelled j1 released \<Rightarrow> False"
  using staging_outcomes [where now = 1 and v = "\<lparr>sv_refresh = Inr (), sv_work = Staged, sv_heartbeat = None,
      sv_refresh_again = Inr (), sv_release = Inr ()\<rparr>" and j = "new_job ''j'' 0"]
  by (auto split: stage_end.splits)

lemma apply_result_terminal:
  "\<not> unfinished (apply_result now s j)" "completed_at (apply_result now s j) \<noteq> None"
  "j_state (apply_result now s j) = (if sr_succeeded s then SUCCEEDED else FAILED)"
  "sr_succeeded s \<Longrightarrow> j_result (apply_result now s j) = sr_payload s \<and> j_error (apply_result now s j) = None"
  "\<not> sr_succeeded s \<Longrightarrow> j_error (apply_result now s j) = sr_error s \<and> j_rollback_status (apply_result now s j) = sr_rollback_status s"
  by (simp_all add: apply_result_def unfinished_def Let_def)

text \<open>The published result has the last word. For a valid job id whose result was read and interpreted,
  \<^verbatim>\<open>get\<close> returns and stores a finished job with the outcome of that result: its payload and no error on
  success, its error and rollback status on failure. This holds whatever the manager knew before, also
  for a job it lost in a restart or had marked failed itself.\<close>

theorem get_reports_result:
  assumes "validate_job_id (VStr i) = Inr i" "read = Inr (Some d)" "interpret_staged_result d = Inr s"
  shows "\<exists>j m1. staged_get now i read present m = (Inr (Some j), m1) \<and> dget (s_jobs m1) i = Some j \<and> \<not> unfinished j \<and>
    j_state j = (if sr_succeeded s then SUCCEEDED else FAILED) \<and>
    (if sr_succeeded s then j_result j = sr_payload s \<and> j_error j = None
     else j_error j = sr_error s \<and> j_rollback_status j = sr_rollback_status s)"
proof -
  have "refresh_from_result now read j = (Inr True, apply_result now s j)" for j
    using assms(2,3) by (simp add: refresh_from_result_def interpret_result_def)
  then have "\<exists>j0 m1. staged_get now i read present m = (Inr (Some (apply_result now s j0)), m1) \<and>
      dget (s_jobs m1) i = Some (apply_result now s j0)"
    using assms(1) by (cases "dget (s_jobs m) i") (auto simp: staged_get_def job_from_result_def)
  then show ?thesis using apply_result_terminal by fastforce
qed

theorem get_reports_result_witness:
  "\<exists>j m1. staged_get 5 ''job-1'' (Inr (Some [(''status'', VStr ''failed''), (''error'', VStr ''x'')])) (Inr Missing) \<lparr>s_jobs = [], s_monitored = []\<rparr> =
     (Inr (Some j), m1) \<and> j_state j = FAILED \<and> j_error j = Some ''x''"
proof -
  have a: "validate_job_id (VStr ''job-1'') = Inr ''job-1''" by code_simp
  have b: "interpret_staged_result [(''status'', VStr ''failed''), (''error'', VStr ''x'')] =
      Inr \<lparr>sr_succeeded = False, sr_payload = [], sr_error = Some ''x'', sr_rollback_status = None\<rparr>"
    by (simp add: interpret_staged_result_def get_or_def as_str_def Let_def)
  show ?thesis using get_reports_result [OF a refl b, of 5 "Inr Missing" "\<lparr>s_jobs = [], s_monitored = []\<rparr>"] by auto
qed

lemma monitor_ends:
  assumes "fst (wait_loop (map monitor_view vs) (new_waiter start interval (j_stage j))) \<noteq> Inr None"
  shows "\<not> unfinished (monitor_staged start now interval vs j)"
  using assms apply_result_terminal(1)
  by (auto simp: monitor_staged_def unfinished_def Let_def split: prod.splits sum.splits option.splits)

end
