(* ===== verification/Ip_Address.thy ===== *)
theory Ip_Address
  imports Py_Base "HOL-Library.Word" "HOL-Library.Code_Target_Nat"
begin

text \<open>
  The part of Python's \<^verbatim>\<open>ipaddress\<close> module the sources use: parsing and printing of IPv4
  addresses, IPv4 interfaces and networks, and of addresses of either version.

  An IPv4 address is a 32-bit word, an IPv6 address a natural number below \<open>2 ^ 128\<close> with an
  optional scope. A constructor that raises (\<^verbatim>\<open>AddressValueError\<close>,
  \<^verbatim>\<open>NetmaskValueError\<close>, \<^verbatim>\<open>ValueError\<close>) returns \<open>None\<close>: every caller maps all
  of them to one error of its own.
\<close>

unbundle bit_operations_syntax

section \<open>Definitions\<close>

subsection \<open>IPv4\<close>

type_synonym ipv4 = "32 word"

definition all_digits :: "string \<Rightarrow> bool" where
  "all_digits s = (s \<noteq> [] \<and> list_all is_ascii_digit s)"

definition parse_octet :: "string \<Rightarrow> nat option" where
  "parse_octet s =
     (if \<not> all_digits s \<or> length s > 3 \<or> (s \<noteq> ''0'' \<and> hd s = CHR ''0'') \<or> nat_of_digits s > 255
      then None else Some (nat_of_digits s))"

definition ipv4_of_string :: "string \<Rightarrow> ipv4 option" where
  "ipv4_of_string s = (case map parse_octet (split_on (CHR ''.'') s) of
     [Some a, Some b, Some c, Some d] \<Rightarrow> Some (of_nat (((a * 256 + b) * 256 + c) * 256 + d))
   | _ \<Rightarrow> None)"

definition ipv4_octets :: "ipv4 \<Rightarrow> nat list" where
  "ipv4_octets w = (let n = unat w in
     [n div 16777216, n div 65536 mod 256, n div 256 mod 256, n mod 256])"

definition ipv4_string :: "ipv4 \<Rightarrow> string" where
  "ipv4_string w = join ''.'' (map string_of_nat (ipv4_octets w))"

text \<open>The netmask of a prefix length, and back, from a netmask or a hostmask.\<close>

definition netmask_of :: "nat \<Rightarrow> ipv4" where
  "netmask_of p = (- 1) XOR drop_bit p (- 1)"

definition trailing_zeros :: "ipv4 \<Rightarrow> nat" where
  "trailing_zeros w = length (takeWhile (\<lambda>i. \<not> bit w i) [0..<32])"

definition prefix_from_ip_int :: "ipv4 \<Rightarrow> nat option" where
  "prefix_from_ip_int w = (let z = trailing_zeros w in
     if drop_bit z w = mask (32 - z) then Some (32 - z) else None)"

definition prefix_of_string :: "string \<Rightarrow> nat option" where
  "prefix_of_string s =
     (if all_digits s \<and> nat_of_digits s \<le> 32 then Some (nat_of_digits s)
      else case ipv4_of_string s of
        None \<Rightarrow> None
      | Some w \<Rightarrow> (case prefix_from_ip_int w of
            Some p \<Rightarrow> Some p | None \<Rightarrow> prefix_from_ip_int (NOT w)))"

record ipv4_interface =
  if_ip :: ipv4
  if_prefixlen :: nat

definition interface_of_string :: "string \<Rightarrow> ipv4_interface option" where
  "interface_of_string s = (case split_on (CHR ''/'') s of
     [a] \<Rightarrow> map_option (\<lambda>w. \<lparr>if_ip = w, if_prefixlen = 32\<rparr>) (ipv4_of_string a)
   | [a, m] \<Rightarrow> (case (ipv4_of_string a, prefix_of_string m) of
         (Some w, Some p) \<Rightarrow> Some \<lparr>if_ip = w, if_prefixlen = p\<rparr>
       | _ \<Rightarrow> None)
   | _ \<Rightarrow> None)"

definition if_netmask :: "ipv4_interface \<Rightarrow> ipv4" where
  "if_netmask i = netmask_of (if_prefixlen i)"

definition interface_string :: "ipv4_interface \<Rightarrow> string" where
  "interface_string i = ipv4_string (if_ip i) @ ''/'' @ string_of_nat (if_prefixlen i)"

record ipv4_network =
  net_address :: ipv4
  net_prefixlen :: nat

definition if_network :: "ipv4_interface \<Rightarrow> ipv4_network" where
  "if_network i = \<lparr>net_address = if_ip i AND if_netmask i, net_prefixlen = if_prefixlen i\<rparr>"

text \<open>\<^verbatim>\<open>IPv4Network(s, strict=True)\<close>.\<close>

definition network_of_string :: "string \<Rightarrow> ipv4_network option" where
  "network_of_string s = (case interface_of_string s of
     None \<Rightarrow> None
   | Some i \<Rightarrow> (if if_ip i AND if_netmask i \<noteq> if_ip i then None else Some (if_network i)))"

definition network_string :: "ipv4_network \<Rightarrow> string" where
  "network_string n = ipv4_string (net_address n) @ ''/'' @ string_of_nat (net_prefixlen n)"

definition in_network :: "ipv4 \<Rightarrow> ipv4_network \<Rightarrow> bool" where
  "in_network w n = (w AND netmask_of (net_prefixlen n) = net_address n)"

subsection \<open>IPv6\<close>

definition hex_digit :: "nat \<Rightarrow> char" where
  "hex_digit d = (if d < 10 then char_of (48 + d) else char_of (87 + d))"

definition hex_value :: "char \<Rightarrow> nat option" where
  "hex_value c = (let n = cp c in
     if 48 \<le> n \<and> n \<le> 57 then Some (n - 48)
     else if 97 \<le> n \<and> n \<le> 102 then Some (n - 87)
     else if 65 \<le> n \<and> n \<le> 70 then Some (n - 55) else None)"

fun hex_string :: "nat \<Rightarrow> string" where
  "hex_string n = (if n < 16 then [hex_digit n] else hex_string (n div 16) @ [hex_digit (n mod 16)])"

declare hex_string.simps [simp del]

definition nat_of_hex :: "string \<Rightarrow> nat" where
  "nat_of_hex s = foldl (\<lambda>n c. 16 * n + (case hex_value c of None \<Rightarrow> 0 | Some v \<Rightarrow> v)) 0 s"

definition parse_hextet :: "string \<Rightarrow> nat option" where
  "parse_hextet s =
     (if s = [] \<or> length s > 4 \<or> \<not> list_all (\<lambda>c. hex_value c \<noteq> None) s then None else Some (nat_of_hex s))"

fun parse_hextets :: "nat \<Rightarrow> string list \<Rightarrow> nat option" where
  "parse_hextets acc [] = Some acc"
| "parse_hextets acc (s # ss) = (case parse_hextet s of
     None \<Rightarrow> None | Some h \<Rightarrow> parse_hextets (acc * 65536 + h) ss)"

text \<open>The first \<open>hi\<close> and the last \<open>lo\<close> parts around a \<^verbatim>\<open>::\<close>.\<close>

definition hextets_around :: "nat \<Rightarrow> nat \<Rightarrow> string list \<Rightarrow> nat option" where
  "hextets_around hi lo parts =
     (if hi + lo > 7 then None
      else case parse_hextets 0 (take hi parts) of
        None \<Rightarrow> None
      | Some h \<Rightarrow> parse_hextets (h * 65536 ^ (8 - (hi + lo))) (drop (length parts - lo) parts))"

definition ipv6_of_parts :: "string list \<Rightarrow> nat option" where
  "ipv6_of_parts parts = (let len = length parts in
     if len > 9 then None
     else case filter (\<lambda>i. parts ! i = []) [1..<len - 1] of
       [] \<Rightarrow> (if len \<noteq> 8 \<or> hd parts = [] \<or> last parts = [] then None else parse_hextets 0 parts)
     | [k] \<Rightarrow>
         (let hi = (if hd parts = [] then k - 1 else k);
              lo = (if last parts = [] then len - k - 2 else len - k - 1) in
          if hd parts = [] \<and> hi \<noteq> 0 \<or> last parts = [] \<and> lo \<noteq> 0 then None
          else hextets_around hi lo parts)
     | _ \<Rightarrow> None)"

definition ipv6_int_of_string :: "string \<Rightarrow> nat option" where
  "ipv6_int_of_string s = (let parts = split_on (CHR '':'') s in
     if s = [] \<or> length parts < 3 then None
     else if CHR ''.'' \<in> set (last parts) then
       (case ipv4_of_string (last parts) of
          None \<Rightarrow> None
        | Some w \<Rightarrow> ipv6_of_parts (butlast parts @ [hex_string (unat w div 65536), hex_string (unat w mod 65536)]))
     else ipv6_of_parts parts)"

definition hextets :: "nat \<Rightarrow> nat list" where
  "hextets n = map (\<lambda>i. n div 65536 ^ (7 - i) mod 65536) [0..<8]"

text \<open>The longest run of zero hextets: its start and length, the first of equal length.\<close>

fun best_run :: "nat \<Rightarrow> nat \<Rightarrow> nat \<times> nat \<Rightarrow> string list \<Rightarrow> nat \<times> nat" where
  "best_run i run best [] = best"
| "best_run i run best (h # hs) =
     (if h = ''0'' then best_run (Suc i) (Suc run) (if Suc run > snd best then (i - run, Suc run) else best) hs
      else best_run (Suc i) 0 best hs)"

definition compress_hextets :: "string list \<Rightarrow> string list" where
  "compress_hextets hs = (let (s, l) = best_run 0 0 (0, 0) hs in
     if l > 1 then (if s = 0 then [''''] else []) @ take s hs @ [''''] @ drop (s + l) hs @
       (if s + l = length hs then [''''] else [])
     else hs)"

definition ipv6_string :: "nat \<Rightarrow> string" where
  "ipv6_string n = join '':'' (compress_hextets (map hex_string (hextets n)))"

datatype ip_addr = IPv4 ipv4 | IPv6 nat "string option"

definition ipv6_of_string :: "string \<Rightarrow> ip_addr option" where
  "ipv6_of_string s = (if CHR ''/'' \<in> set s then None else
     case partition_on (CHR ''%'') s of
       (a, None) \<Rightarrow> map_option (\<lambda>n. IPv6 n None) (ipv6_int_of_string a)
     | (a, Some scope) \<Rightarrow> (if scope = [] \<or> CHR ''%'' \<in> set scope then None
         else map_option (\<lambda>n. IPv6 n (Some scope)) (ipv6_int_of_string a)))"

definition ip_address :: "string \<Rightarrow> ip_addr option" where
  "ip_address s = (case ipv4_of_string s of Some w \<Rightarrow> Some (IPv4 w) | None \<Rightarrow> ipv6_of_string s)"

definition ip_string :: "ip_addr \<Rightarrow> string" where
  "ip_string a = (case a of
     IPv4 w \<Rightarrow> ipv4_string w
   | IPv6 n None \<Rightarrow> ipv6_string n
   | IPv6 n (Some scope) \<Rightarrow> (if scope = [] then ipv6_string n else ipv6_string n @ ''%'' @ scope))"

section \<open>Theorems\<close>

subsection \<open>IPv4 round trips\<close>

lemma all_digits_string_of_nat [simp]: "all_digits (string_of_nat n)"
  using string_of_nat_digits by (auto simp: all_digits_def list_all_iff)

lemma parse_octet_string_of_nat: "n < 256 \<Longrightarrow> parse_octet (string_of_nat n) = Some n"
proof -
  assume n: "n < 256"
  then have "length (string_of_nat n) \<le> 3" using length_string_of_nat_le [of n 3] by simp
  moreover have "hd (string_of_nat n) = CHR ''0'' \<Longrightarrow> string_of_nat n = ''0''"
  proof -
    have z: "digit_char 0 = CHR ''0''" by code_simp
    assume "hd (string_of_nat n) = CHR ''0''"
    then have "n = 0" using hd_string_of_nat_zero z by simp
    then show ?thesis by (simp add: string_of_nat.simps [of 0] z)
  qed
  ultimately show ?thesis using n by (auto simp: parse_octet_def)
qed

lemma digits_avoid: "\<not> is_ascii_digit c \<Longrightarrow> c \<notin> set (string_of_nat n)"
  using string_of_nat_digits by blast

lemma ipv4_octets_bound: "n \<in> set (ipv4_octets w) \<Longrightarrow> n < 256"
proof -
  have "unat w < 2 ^ 32" using unsigned_less [of w] by simp
  then have "unat w div 16777216 < 256" by simp
  then show "n \<in> set (ipv4_octets w) \<Longrightarrow> n < 256" by (auto simp: ipv4_octets_def Let_def)
qed

lemma octets_sum:
  fixes n :: nat
  shows "((n div 16777216 * 256 + n div 65536 mod 256) * 256 + n div 256 mod 256) * 256 + n mod 256 = n"
proof -
  have a: "n div 16777216 = n div 65536 div 256" "n div 65536 = n div 256 div 256" by (simp_all add: div_mult2_eq [symmetric])
  have "n div 16777216 * 256 + n div 65536 mod 256 = n div 65536"
    "n div 65536 * 256 + n div 256 mod 256 = n div 256" "n div 256 * 256 + n mod 256 = n"
    unfolding a by (simp_all add: div_mult_mod_eq)
  then show ?thesis by simp
qed

lemma split_ipv4_string: "split_on (CHR ''.'') (ipv4_string w) = map string_of_nat (ipv4_octets w)"
  unfolding ipv4_string_def
proof (rule split_on_join)
  fix v assume "v \<in> set (map string_of_nat (ipv4_octets w))"
  then show "CHR ''.'' \<notin> set v" using digits_avoid [of "CHR ''.''"] by (auto simp: is_ascii_digit_def cp_def)
qed (simp add: ipv4_octets_def Let_def)

lemma ipv4_round_trip [simp]: "ipv4_of_string (ipv4_string w) = Some w"
proof -
  have "map parse_octet (map string_of_nat (ipv4_octets w)) = map Some (ipv4_octets w)"
    using ipv4_octets_bound parse_octet_string_of_nat by simp
  then have "ipv4_of_string (ipv4_string w) =
      Some (of_nat (((unat w div 16777216 * 256 + unat w div 65536 mod 256) * 256 + unat w div 256 mod 256) * 256 + unat w mod 256))"
    unfolding ipv4_of_string_def split_ipv4_string by (simp only: ipv4_octets_def Let_def list.map list.case option.case)
  then show ?thesis unfolding octets_sum by simp
qed

lemma ipv4_string_chars: "c \<in> set (ipv4_string w) \<Longrightarrow> is_ascii_digit c \<or> c = CHR ''.''"
  using string_of_nat_digits by (auto simp: ipv4_string_def ipv4_octets_def Let_def)

lemma ipv4_string_avoid: "\<not> is_ascii_digit c \<Longrightarrow> c \<noteq> CHR ''.'' \<Longrightarrow> c \<notin> set (ipv4_string w)"
  using ipv4_string_chars by blast

lemma ipv4_string_not_Nil [simp]: "ipv4_string w \<noteq> []"
  by (simp add: ipv4_string_def ipv4_octets_def Let_def)

lemma slash_avoid: "CHR ''/'' \<notin> set (ipv4_string w)" "CHR ''/'' \<notin> set (string_of_nat n)"
  using ipv4_string_avoid [of "CHR ''/''"] digits_avoid [of "CHR ''/''"] by (simp_all add: is_ascii_digit_def cp_def)

lemma prefix_string_of_nat: "p \<le> 32 \<Longrightarrow> prefix_of_string (string_of_nat p) = Some p"
  by (simp add: prefix_of_string_def)

lemma cidr_of_string:
  "p \<le> 32 \<Longrightarrow> interface_of_string (ipv4_string w @ ''/'' @ string_of_nat p) = Some \<lparr>if_ip = w, if_prefixlen = p\<rparr>"
  by (simp add: interface_of_string_def split_on_append slash_avoid split_on_no_sep prefix_string_of_nat)

lemma interface_round_trip: "if_prefixlen i \<le> 32 \<Longrightarrow> interface_of_string (interface_string i) = Some i"
  by (simp only: interface_string_def cidr_of_string) simp

lemma network_round_trip:
  "if_prefixlen i \<le> 32 \<Longrightarrow> network_of_string (network_string (if_network i)) = Some (if_network i)"
  by (simp add: network_of_string_def network_string_def cidr_of_string [simplified] if_network_def if_netmask_def and.assoc)

lemma prefix_from_ip_int_le: "prefix_from_ip_int w = Some p \<Longrightarrow> p \<le> 32"
  by (auto simp: prefix_from_ip_int_def Let_def split: if_splits)

lemma prefix_of_string_le: "prefix_of_string s = Some p \<Longrightarrow> p \<le> 32"
  using prefix_from_ip_int_le by (auto simp: prefix_of_string_def split: if_splits option.splits)

lemma interface_of_string_le: "interface_of_string s = Some i \<Longrightarrow> if_prefixlen i \<le> 32"
  using prefix_of_string_le by (auto simp: interface_of_string_def split: list.splits option.splits)

lemma bit_netmask: "p \<le> 32 \<Longrightarrow> bit (netmask_of p) i \<longleftrightarrow> 32 - p \<le> i \<and> i < 32"
  by (auto simp: netmask_of_def bit_xor_iff bit_drop_bit_eq bit_not_iff bit_mask_iff)

lemma prefix_from_netmask: "p \<le> 32 \<Longrightarrow> prefix_from_ip_int (netmask_of p) = Some p"
proof -
  assume p: "p \<le> 32"
  have split: "[0..<32] = [0..<32 - p] @ [32 - p..<32]" using upt_add_eq_append [of 0 "32 - p" p] p by simp
  have "takeWhile (\<lambda>i. \<not> bit (netmask_of p) i) [32 - p..<32] = []"
    using p by (cases "p = 0") (simp_all add: upt_conv_Cons bit_netmask)
  then have "takeWhile (\<lambda>i. \<not> bit (netmask_of p) i) [0..<32] = [0..<32 - p]"
    unfolding split using p by (subst takeWhile_append2) (simp_all add: bit_netmask)
  then have z: "trailing_zeros (netmask_of p) = 32 - p" by (simp add: trailing_zeros_def)
  have "drop_bit (32 - p) (netmask_of p) = mask p"
    using p by (auto intro!: bit_word_eqI simp: bit_drop_bit_eq bit_netmask bit_mask_iff)
  then show ?thesis using p by (simp add: prefix_from_ip_int_def z)
qed

lemma prefix_of_netmask: "p \<le> 32 \<Longrightarrow> prefix_of_string (ipv4_string (netmask_of p)) = Some p"
proof -
  assume "p \<le> 32"
  then have "prefix_from_ip_int (netmask_of p) = Some p" by (rule prefix_from_netmask)
  moreover have "\<not> all_digits (ipv4_string w)" for w
    by (auto simp: all_digits_def ipv4_string_def ipv4_octets_def Let_def is_ascii_digit_def cp_def)
  ultimately show ?thesis by (simp add: prefix_of_string_def)
qed

subsection \<open>IPv6 round trips\<close>

lemma hex_value_digit: "d < 16 \<Longrightarrow> hex_value (hex_digit d) = Some d"
  by (auto simp: hex_value_def hex_digit_def cp_def Let_def)

lemma nat_of_hex_snoc: "nat_of_hex (s @ [c]) = 16 * nat_of_hex s + (case hex_value c of None \<Rightarrow> 0 | Some v \<Rightarrow> v)"
  by (simp add: nat_of_hex_def)

lemma hex_string_digits: "c \<in> set (hex_string n) \<Longrightarrow> \<exists>d < 16. c = hex_digit d"
proof (induction n rule: hex_string.induct)
  case (1 n)
  show ?case
  proof (cases "n < 16")
    case True
    with 1 show ?thesis by (auto simp: hex_string.simps [of n])
  next
    case False
    with "1.prems" have "c \<in> set (hex_string (n div 16)) \<or> c = hex_digit (n mod 16)"
      by (simp add: hex_string.simps [of n] disj_commute)
    moreover have "n mod 16 < 16" by simp
    ultimately show ?thesis using "1.IH" False by blast
  qed
qed

lemma nat_of_hex_string [simp]: "nat_of_hex (hex_string n) = n"
proof (induction n rule: hex_string.induct)
  case (1 n)
  show ?case
  proof (cases "n < 16")
    case True
    then show ?thesis by (simp add: hex_string.simps [of n] nat_of_hex_def hex_value_digit)
  next
    case False
    with 1 show ?thesis by (simp add: hex_string.simps [of n] nat_of_hex_snoc hex_value_digit)
  qed
qed

lemma hex_string_not_Nil [simp]: "hex_string n \<noteq> []"
  by (subst hex_string.simps) simp

lemma length_hex_string: "n < 16 ^ k \<Longrightarrow> 0 < k \<Longrightarrow> length (hex_string n) \<le> k"
proof (induction n arbitrary: k rule: hex_string.induct)
  case (1 n)
  show ?case
  proof (cases "n < 16")
    case True
    with 1 show ?thesis by (simp add: hex_string.simps [of n])
  next
    case False
    with "1.prems" obtain j where k: "k = Suc j" "0 < j" by (cases k; cases "k - 1") auto
    with "1.prems" have "n div 16 < 16 ^ j" by (simp add: less_mult_imp_div_less mult.commute)
    with 1 False k have "length (hex_string (n div 16)) \<le> j" by blast
    with False k show ?thesis by (simp add: hex_string.simps [of n])
  qed
qed

lemma parse_hextet_string: "h < 65536 \<Longrightarrow> parse_hextet (hex_string h) = Some h"
  using length_hex_string [of h 4] hex_string_digits hex_value_digit
  by (fastforce simp: parse_hextet_def list_all_iff)

lemma hex_string_zero: "hex_string h = ''0'' \<Longrightarrow> h = 0"
  using nat_of_hex_string [of h] by (simp add: nat_of_hex_def hex_value_def cp_def)

lemma parse_hextets_strings:
  "(\<And>h. h \<in> set hs \<Longrightarrow> h < 65536) \<Longrightarrow>
     parse_hextets acc (map hex_string hs) = Some (foldl (\<lambda>a h. a * 65536 + h) acc hs)"
  by (induction hs arbitrary: acc) (simp_all add: parse_hextet_string)

lemma hextets_value: "n < 65536 ^ 8 \<Longrightarrow> foldl (\<lambda>a h. a * 65536 + h) 0 (hextets n) = n"
proof -
  have step: "n div (k * 65536) * 65536 + n div k mod 65536 = n div k" for k :: nat
    by (simp add: div_mult2_eq div_mult_mod_eq)
  assume "n < 65536 ^ 8"
  then have "n div 65536 ^ 7 mod 65536 = n div 65536 ^ 7" by (simp add: less_mult_imp_div_less)
  then show ?thesis
    using step [of "65536 ^ 6"] step [of "65536 ^ 5"] step [of "65536 ^ 4"] step [of "65536 ^ 3"] step [of "65536 ^ 2"]
      step [of "65536"] step [of 1]
    by (simp add: hextets_def upt_rec)
qed

lemma hextets_bound: "h \<in> set (hextets n) \<Longrightarrow> h < 65536"
  by (auto simp: hextets_def)

lemma length_hextets [simp]: "length (hextets n) = 8"
  by (simp add: hextets_def)

text \<open>The run found is a block of zero hextets inside the list.\<close>

lemma best_run_block:
  assumes "best_run (length pre) run best hs = (s, l)" "run \<le> length pre"
    and "\<And>i. length pre - run \<le> i \<Longrightarrow> i < length pre \<Longrightarrow> pre ! i = ''0''"
    and "fst best + snd best \<le> length pre" "\<And>i. fst best \<le> i \<Longrightarrow> i < fst best + snd best \<Longrightarrow> pre ! i = ''0''"
  shows "s + l \<le> length (pre @ hs) \<and> (\<forall>i. s \<le> i \<and> i < s + l \<longrightarrow> (pre @ hs) ! i = ''0'')"
  using assms
proof (induction hs arbitrary: pre run best)
  case Nil
  then show ?case by auto
next
  case (Cons h hs)
  let ?pre = "pre @ [h]"
  have nth: "?pre ! i = pre ! i" if "i < length pre" for i using that by (simp add: nth_append)
  show ?case
  proof (cases "h = ''0''")
    case True
    let ?best = "if Suc run > snd best then (length pre - run, Suc run) else best"
    have "best_run (length ?pre) (Suc run) ?best hs = (s, l)" using Cons.prems(1) True by simp
    moreover have "?pre ! i = ''0''" if "length ?pre - Suc run \<le> i" "i < length ?pre" for i
      using Cons.prems(3) [of i] that True by (cases "i < length pre") (auto simp: nth_append)
    moreover have "?pre ! i = ''0''" if "fst ?best \<le> i" "i < fst ?best + snd ?best" for i
    proof (cases "i < length pre")
      case True
      with that nth show ?thesis using Cons.prems(2-) by (auto split: if_splits)
    next
      case False
      with that True Cons.prems(2,4) show ?thesis by (auto simp: nth_append split: if_splits)
    qed
    ultimately show ?thesis using Cons.IH [of ?pre "Suc run" ?best] Cons.prems(2,4) by (simp split: if_splits)
  next
    case False
    then have "best_run (length ?pre) 0 best hs = (s, l)" using Cons.prems(1) by simp
    moreover have "?pre ! i = ''0''" if "fst best \<le> i" "i < fst best + snd best" for i
      using Cons.prems(4,5) that nth by force
    ultimately show ?thesis using Cons.IH [of ?pre 0 best] Cons.prems(4) by simp
  qed
qed

lemma filter_upt_single: "a \<le> k \<Longrightarrow> k < b \<Longrightarrow> (\<And>i. a \<le> i \<Longrightarrow> i < b \<Longrightarrow> P i \<longleftrightarrow> i = k) \<Longrightarrow> filter P [a..<b] = [k]"
proof -
  assume k: "a \<le> k" "k < b" and P: "\<And>i. a \<le> i \<Longrightarrow> i < b \<Longrightarrow> P i \<longleftrightarrow> i = k"
  have "filter P [a..<b] = filter (\<lambda>i. i = k) [a..<b]" using P by (intro filter_cong) auto
  moreover have "[a..<b] = [a..<k] @ k # [Suc k..<b]"
    using k upt_add_eq_append [of a k "b - k"] by (simp add: upt_conv_Cons)
  ultimately show ?thesis by (simp add: filter_empty_conv)
qed

lemma set_join_subset: "set (join sep ws) \<subseteq> set sep \<union> \<Union> (set ` set ws)"
  by (induction sep ws rule: join.induct) auto

lemma foldl_zeros: "foldl (\<lambda>a h. a * 65536 + h) x (replicate l (0 :: nat)) = x * 65536 ^ l"
  by (induction l arbitrary: x) simp_all

lemma fold_hextets_block:
  assumes "s + l \<le> length hs" "\<And>i. s \<le> i \<Longrightarrow> i < s + l \<Longrightarrow> hs ! i = (0 :: nat)"
  shows "foldl (\<lambda>a h. a * 65536 + h) (foldl (\<lambda>a h. a * 65536 + h) 0 (take s hs) * 65536 ^ l) (drop (s + l) hs) =
    foldl (\<lambda>a h. a * 65536 + h) 0 hs"
proof -
  have "take l (drop s hs) = replicate l 0" using assms by (intro nth_equalityI) auto
  moreover have "hs = take s hs @ take l (drop s hs) @ drop (s + l) hs"
    by (metis add.commute append_take_drop_id drop_drop)
  ultimately have "hs = take s hs @ replicate l 0 @ drop (s + l) hs" by simp
  then have "foldl (\<lambda>a h. a * 65536 + h) 0 hs = foldl (\<lambda>a h. a * 65536 + h) 0 (take s hs @ replicate l 0 @ drop (s + l) hs)"
    by (rule arg_cong)
  then show ?thesis by (simp add: foldl_zeros)
qed

lemma ipv6_of_compressed:
  assumes hs: "length hs = 8" "\<And>h. h \<in> set hs \<Longrightarrow> h < 65536"
    and block: "s + l \<le> 8" "1 < l" "\<And>i. s \<le> i \<Longrightarrow> i < s + l \<Longrightarrow> hs ! i = 0"
  defines "H \<equiv> map hex_string hs"
  defines "A \<equiv> (if s = 0 then [[]] else take s H)" and "B \<equiv> (if s + l = 8 then [[]] else drop (s + l) H)"
  shows "ipv6_of_parts (A @ [] # B) = Some (foldl (\<lambda>a h. a * 65536 + h) 0 hs)"
proof -
  let ?parts = "A @ [] # B"
  have H: "length H = 8" "x \<in> set H \<Longrightarrow> x \<noteq> []" for x using hs by (auto simp: H_def)
  have len: "length A = max 1 s" "length B = max 1 (8 - (s + l))" using H(1) block by (auto simp: A_def B_def)
  have skip: "filter (\<lambda>i. ?parts ! i = []) [1..<length ?parts - 1] = [length A]"
  proof (rule filter_upt_single)
    fix i assume i: "1 \<le> i" "i < length ?parts - 1"
    consider "i < length A" | "i = length A" | "length A < i" by linarith
    then show "?parts ! i = [] \<longleftrightarrow> i = length A"
    proof cases
      case 1
      with i len have "A ! i \<in> set H" by (auto simp: A_def intro: in_set_takeD nth_mem)
      with 1 H(2) show ?thesis by (auto simp: nth_append)
    next
      case 3
      with i len have "B ! (i - length A - 1) \<in> set H" "?parts ! i = B ! (i - length A - 1)"
        by (auto simp: B_def nth_append intro: in_set_dropD nth_mem split: if_splits)
      with 3 H(2) show ?thesis by auto
    qed (simp add: nth_append)
  qed (use len in auto)
  have ends: "hd ?parts = [] \<longleftrightarrow> s = 0" "last ?parts = [] \<longleftrightarrow> s + l = 8"
  proof -
    have ne: "A \<noteq> []" "B \<noteq> []" "H \<noteq> []" using len H(1) by auto
    have "hd ?parts = (if s = 0 then [] else hd H)" "last ?parts = (if s + l = 8 then [] else last H)"
      using ne H(1) block(1) by (auto simp: A_def B_def)
    then show "hd ?parts = [] \<longleftrightarrow> s = 0" "last ?parts = [] \<longleftrightarrow> s + l = 8"
      using H(2) [OF hd_in_set [OF ne(3)]] H(2) [OF last_in_set [OF ne(3)]] by auto
  qed
  have pieces: "take s ?parts = map hex_string (take s hs)"
    "drop (length ?parts - (8 - (s + l))) ?parts = map hex_string (drop (s + l) hs)"
    using H(1) block len by (auto simp: A_def B_def H_def take_map drop_map)
  have bound: "h \<in> set (take s hs) \<or> h \<in> set (drop (s + l) hs) \<Longrightarrow> h < 65536" for h
    using hs(2) by (auto dest: in_set_takeD in_set_dropD)
  have total: "length ?parts \<le> 9" using len block by auto
  have hi: "(if hd ?parts = [] then length A - 1 else length A) = s" using ends len by auto
  have lo: "(if last ?parts = [] then length ?parts - length A - 2 else length ?parts - length A - 1) = 8 - (s + l)"
    using ends len block by auto
  have "ipv6_of_parts ?parts = hextets_around s (8 - (s + l)) ?parts"
  proof -
    have "\<not> length ?parts > 9" "\<not> (hd ?parts = [] \<and> s \<noteq> 0)" "\<not> (last ?parts = [] \<and> 8 - (s + l) \<noteq> 0)"
      using total ends by auto
    then show ?thesis unfolding ipv6_of_parts_def skip Let_def list.case hi lo by (simp only: if_False simp_thms)
  qed
  moreover have "8 - (s + (8 - (s + l))) = l" "\<not> s + (8 - (s + l)) > 7" using block by simp_all
  ultimately show ?thesis
    unfolding hextets_around_def pieces using bound block hs(1) by (simp add: parse_hextets_strings fold_hextets_block)
qed

lemma hex_string_avoid: "c = CHR '':'' \<or> c = CHR ''.'' \<or> c = CHR ''%'' \<or> c = CHR ''/'' \<Longrightarrow> c \<notin> set (hex_string h)"
proof
  assume c: "c = CHR '':'' \<or> c = CHR ''.'' \<or> c = CHR ''%'' \<or> c = CHR ''/''" and "c \<in> set (hex_string h)"
  then obtain d where "d < 16" "c = hex_digit d" using hex_string_digits by blast
  then have "hex_value c = Some d" by (simp add: hex_value_digit)
  with c show False by (auto simp: hex_value_def cp_def)
qed

text \<open>The compressed form in the shape the parser lemma uses.\<close>

lemma compress_hextets_cases:
  assumes "length hs = 8"
  obtains "compress_hextets (map hex_string hs) = map hex_string hs"
  | s l where "s + l \<le> 8" "1 < l" "\<And>i. s \<le> i \<Longrightarrow> i < s + l \<Longrightarrow> hs ! i = 0"
    "compress_hextets (map hex_string hs) =
       (if s = 0 then [[]] else take s (map hex_string hs)) @ [] #
       (if s + l = 8 then [[]] else drop (s + l) (map hex_string hs))"
proof -
  let ?H = "map hex_string hs"
  obtain s l where run: "best_run 0 0 (0, 0) ?H = (s, l)" by fastforce
  have block: "s + l \<le> 8 \<and> (\<forall>i. s \<le> i \<and> i < s + l \<longrightarrow> ?H ! i = ''0'')"
    using best_run_block [of "[]" 0 "(0, 0)" ?H s l] run assms by (simp del: nth_map)
  have zero: "hs ! i = 0" if i: "s \<le> i" "i < s + l" for i
  proof (rule hex_string_zero)
    have "?H ! i = ''0''" using block i by blast
    moreover have "i < length hs" using block i assms by linarith
    ultimately show "hex_string (hs ! i) = ''0''" by simp
  qed
  show ?thesis
  proof (cases "1 < l")
    case False
    then show ?thesis using that(1) by (simp add: compress_hextets_def run)
  next
    case True
    then show ?thesis using that(2) [of s l] block zero assms by (auto simp: compress_hextets_def run)
  qed
qed

lemma ipv6_parts_plain:
  assumes "length hs = 8" "\<And>h. h \<in> set hs \<Longrightarrow> h < 65536"
  shows "ipv6_of_parts (map hex_string hs) = Some (foldl (\<lambda>a h. a * 65536 + h) 0 hs)"
proof -
  have "filter (\<lambda>i. map hex_string hs ! i = []) [1..<7] = []" using assms(1) by (auto simp: filter_empty_conv)
  moreover have "hd (map hex_string hs) \<noteq> []" "last (map hex_string hs) \<noteq> []"
    using assms(1) by (cases hs; simp add: last_map)+
  ultimately show ?thesis using assms parse_hextets_strings [of hs 0] by (simp add: ipv6_of_parts_def)
qed

lemma ipv6_round_trip:
  assumes "n < 65536 ^ 8"
  shows "ipv6_int_of_string (ipv6_string n) = Some n"
    and "c \<in> {CHR ''.'', CHR ''%'', CHR ''/''} \<Longrightarrow> c \<notin> set (ipv6_string n)"
    and "CHR '':'' \<in> set (ipv6_string n)"
proof -
  let ?P = "compress_hextets (map hex_string (hextets n))"
  have val: "ipv6_of_parts ?P = Some n" and len: "3 \<le> length ?P" and mem: "x \<in> set ?P \<Longrightarrow> x = [] \<or> x \<in> hex_string ` set (hextets n)" for x
  proof -
    consider "?P = map hex_string (hextets n)" | s l where "s + l \<le> 8" "1 < l" "\<And>i. s \<le> i \<Longrightarrow> i < s + l \<Longrightarrow> hextets n ! i = 0"
      "?P = (if s = 0 then [[]] else take s (map hex_string (hextets n))) @ [] #
         (if s + l = 8 then [[]] else drop (s + l) (map hex_string (hextets n)))"
      by (rule compress_hextets_cases [OF length_hextets, of n]) blast+
    then have "ipv6_of_parts ?P = Some n \<and> 3 \<le> length ?P \<and> (\<forall>x \<in> set ?P. x = [] \<or> x \<in> hex_string ` set (hextets n))"
    proof cases
      case 1
      then show ?thesis using ipv6_parts_plain [OF length_hextets hextets_bound] hextets_value [OF assms] by simp
    next
      case 2
      from ipv6_of_compressed [OF length_hextets hextets_bound 2(1-3)] hextets_value [OF assms] 2(4)
      have "ipv6_of_parts ?P = Some n" by simp
      moreover have "3 \<le> length ?P"
        using 2(1,2) unfolding 2(4) by (cases "s = 0"; cases "s + l = 8") auto
      moreover have "\<forall>x \<in> set ?P. x = [] \<or> x \<in> hex_string ` set (hextets n)"
        using 2(4) by (auto dest: in_set_takeD in_set_dropD split: if_splits)
      ultimately show ?thesis by blast
    qed
    then show "ipv6_of_parts ?P = Some n" "3 \<le> length ?P" "x \<in> set ?P \<Longrightarrow> x = [] \<or> x \<in> hex_string ` set (hextets n)" by blast+
  qed
  have free: "c \<notin> set x" if "x \<in> set ?P" "c = CHR '':'' \<or> c = CHR ''.'' \<or> c = CHR ''%'' \<or> c = CHR ''/''" for x c
    using mem [OF that(1)] hex_string_avoid [OF that(2)] by auto
  have ne: "?P \<noteq> []" using len by auto
  have parts: "split_on (CHR '':'') (ipv6_string n) = ?P"
    unfolding ipv6_string_def using free ne by (intro split_on_join) auto
  have "CHR ''.'' \<notin> set (last ?P)" using free last_in_set [OF ne] by blast
  moreover have "ipv6_string n \<noteq> []"
  proof
    assume "ipv6_string n = []"
    then have "?P = [[]]" using parts by simp
    then show False using len by simp
  qed
  ultimately show "ipv6_int_of_string (ipv6_string n) = Some n"
    using parts val len by (simp add: ipv6_int_of_string_def)
  show "c \<notin> set (ipv6_string n)" if "c \<in> {CHR ''.'', CHR ''%'', CHR ''/''}"
    unfolding ipv6_string_def using free that set_join_subset [of "'':''" ?P] by auto
  show "CHR '':'' \<in> set (ipv6_string n)"
  proof (rule ccontr)
    assume "CHR '':'' \<notin> set (ipv6_string n)"
    then have "?P = [ipv6_string n]" using parts split_on_no_sep by metis
    then show False using len by simp
  qed
qed

subsection \<open>Addresses of either version\<close>

lemma parse_octet_digits: "parse_octet v \<noteq> None \<Longrightarrow> d \<in> set v \<Longrightarrow> is_ascii_digit d"
  by (auto simp: parse_octet_def all_digits_def list_all_iff split: if_splits)

lemma ipv4_of_string_chars:
  assumes "ipv4_of_string s = Some w" "c \<in> set s"
  shows "is_ascii_digit c \<or> c = CHR ''.''"
proof -
  have "list_all (\<lambda>x. x \<noteq> None) (map parse_octet (split_on (CHR ''.'') s))"
    using assms(1) by (auto simp: ipv4_of_string_def split: list.splits option.splits)
  then have "parse_octet v \<noteq> None" if "v \<in> set (split_on (CHR ''.'') s)" for v using that by (auto simp: list_all_iff)
  then have "v \<in> set (split_on (CHR ''.'') s) \<Longrightarrow> d \<in> set v \<Longrightarrow> is_ascii_digit d" for v d
    using parse_octet_digits by blast
  moreover have "c \<in> {CHR ''.''} \<union> \<Union> (set ` set (split_on (CHR ''.'') s))"
    using set_join_subset [of "''.''" "split_on (CHR ''.'') s"] assms(2) by (auto simp: join_split_on)
  ultimately show ?thesis by auto
qed

lemma nat_of_hex_bound: "list_all (\<lambda>c. hex_value c \<noteq> None) s \<Longrightarrow> nat_of_hex s < 16 ^ length s"
proof (induction s rule: rev_induct)
  case (snoc c s)
  then have "nat_of_hex s < 16 ^ length s" by simp
  moreover have "(case hex_value c of None \<Rightarrow> 0 | Some v \<Rightarrow> v) < 16"
    by (auto simp: hex_value_def Let_def)
  ultimately show ?case by (simp add: nat_of_hex_snoc)
qed (simp add: nat_of_hex_def)

lemma parse_hextet_bound: "parse_hextet s = Some h \<Longrightarrow> h < 65536"
proof -
  assume "parse_hextet s = Some h"
  then have "length s \<le> 4" "h < 16 ^ length s"
    using nat_of_hex_bound [of s] by (auto simp: parse_hextet_def split: if_splits)
  moreover from this have "(16::nat) ^ length s \<le> 16 ^ 4" by (intro power_increasing) auto
  ultimately show ?thesis by simp
qed

lemma parse_hextets_bound:
  "parse_hextets acc ss = Some v \<Longrightarrow> acc < 65536 ^ k \<Longrightarrow> v < 65536 ^ (k + length ss)"
proof (induction acc ss arbitrary: k rule: parse_hextets.induct)
  case (2 acc s ss)
  then obtain h where h: "parse_hextet s = Some h" "parse_hextets (acc * 65536 + h) ss = Some v"
    by (auto split: option.splits)
  have "acc * 65536 + h < 65536 ^ Suc k"
    using parse_hextet_bound [OF h(1)] "2.prems"(2) by simp
  from "2.IH" [OF h this] show ?case by simp
qed simp

lemma hextets_around_bound:
  assumes "hextets_around hi lo parts = Some n"
  shows "n < 65536 ^ 8"
proof -
  obtain h where h: "parse_hextets 0 (take hi parts) = Some h" "hi + lo \<le> 7"
    "parse_hextets (h * 65536 ^ (8 - (hi + lo))) (drop (length parts - lo) parts) = Some n"
    using assms by (auto simp: hextets_around_def split: if_splits option.splits)
  have "h < 65536 ^ length (take hi parts)" using parse_hextets_bound [OF h(1), of 0] by simp
  also have "\<dots> \<le> 65536 ^ hi" by (intro power_increasing) auto
  finally have "h * 65536 ^ (8 - (hi + lo)) < 65536 ^ hi * 65536 ^ (8 - (hi + lo))" by simp
  also have "\<dots> = 65536 ^ (8 - lo)" using h(2) by (simp add: power_add [symmetric])
  finally have "n < 65536 ^ (8 - lo + length (drop (length parts - lo) parts))" by (rule parse_hextets_bound [OF h(3)])
  also have "\<dots> \<le> 65536 ^ 8" using h(2) by (intro power_increasing) auto
  finally show ?thesis .
qed

lemma ipv6_of_parts_bound: "ipv6_of_parts parts = Some n \<Longrightarrow> n < 65536 ^ 8"
  using parse_hextets_bound [of 0 parts n 0] hextets_around_bound
  unfolding ipv6_of_parts_def Let_def by (auto split: if_splits list.splits)

lemma ipv6_int_bound: "ipv6_int_of_string s = Some n \<Longrightarrow> n < 65536 ^ 8"
  by (auto simp: ipv6_int_of_string_def Let_def dest!: ipv6_of_parts_bound split: if_splits option.splits)

lemma partition_on_append: "c \<notin> set a \<Longrightarrow> partition_on c (a @ c # b) = (a, Some b)" "c \<notin> set a \<Longrightarrow> partition_on c a = (a, None)"
proof -
  assume "c \<notin> set a"
  then have a: "\<forall>x \<in> set a. x \<noteq> c" by auto
  then have d: "dropWhile (\<lambda>x. x \<noteq> c) a = []" and t: "takeWhile (\<lambda>x. x \<noteq> c) a = a"
    by (simp_all add: dropWhile_eq_Nil_conv takeWhile_eq_all_conv)
  have "takeWhile (\<lambda>x. x \<noteq> c) (a @ c # b) = a" "dropWhile (\<lambda>x. x \<noteq> c) (a @ c # b) = c # b"
    using a by (induction a) simp_all
  then show "partition_on c (a @ c # b) = (a, Some b)" "partition_on c a = (a, None)"
    unfolding partition_on_def d t by simp_all
qed

lemma partition_on_subset: "partition_on c s = (b, Some x) \<Longrightarrow> set x \<subseteq> set s"
proof
  fix y assume "partition_on c s = (b, Some x)" "y \<in> set x"
  then have "y \<in> set (dropWhile (\<lambda>z. z \<noteq> c) s)" by (auto simp: partition_on_def split: list.splits)
  then show "y \<in> set s" by (rule set_dropWhileD)
qed

lemma ip_string_not_Nil: "ip_address s = Some a \<Longrightarrow> ip_string a \<noteq> []"
proof -
  have "ipv6_string n \<noteq> []" if "n < 65536 ^ 8" for n using ipv6_round_trip(3) [OF that] by auto
  then show "ip_address s = Some a \<Longrightarrow> ip_string a \<noteq> []"
    using ipv6_int_bound
    by (auto simp: ip_address_def ipv6_of_string_def ip_string_def split: option.splits prod.splits if_splits)
qed

lemma ip_round_trip:
  assumes "ip_address s = Some a"
  shows "ip_address (ip_string a) = Some a"
proof (cases a)
  case (IPv4 w)
  then show ?thesis by (simp add: ip_address_def ip_string_def)
next
  case (IPv6 n scope)
  have v6: "ipv6_of_string s = Some (IPv6 n scope)" using assms IPv6 by (auto simp: ip_address_def split: option.splits)
  obtain b p where part: "partition_on (CHR ''%'') s = (b, p)" by fastforce
  have n: "n < 65536 ^ 8" and scope: "scope = p" "scope \<noteq> Some []" "\<And>x. scope = Some x \<Longrightarrow> CHR ''%'' \<notin> set x"
    using v6 part ipv6_int_bound by (auto simp: ipv6_of_string_def split: if_splits option.splits)
  have slash: "CHR ''/'' \<notin> set x" if "scope = Some x" for x
  proof -
    have "set x \<subseteq> set s" using that part scope(1) partition_on_subset by blast
    moreover have "CHR ''/'' \<notin> set s" using v6 by (auto simp: ipv6_of_string_def split: if_splits)
    ultimately show ?thesis by blast
  qed
  have colon: "ipv4_of_string (ip_string a) = None"
  proof (cases "ipv4_of_string (ip_string a)")
    case (Some w)
    have "CHR '':'' \<in> set (ip_string a)" using ipv6_round_trip(3) [OF n] IPv6 by (auto simp: ip_string_def split: option.splits)
    from ipv4_of_string_chars [OF Some this] show ?thesis by (simp add: is_ascii_digit_def cp_def)
  qed
  have "ipv6_of_string (ip_string a) = Some a"
    using ipv6_round_trip [OF n] IPv6 scope slash
    by (auto simp: ipv6_of_string_def ip_string_def partition_on_append split: option.splits)
  with colon show ?thesis by (simp add: ip_address_def)
qed

end
