(* ===== verification/Config_Values.thy ===== *)
theory Config_Values
  imports Ip_Address
begin

text \<open>
  The typed validation helpers of \<^verbatim>\<open>config.py\<close> (names, strings, lists, SSH keys, DNS names,
  addresses, ports, URLs) and what they use of Python's standard library: \<^verbatim>\<open>base64\<close> with
  \<^verbatim>\<open>validate=True\<close> and \<^verbatim>\<open>urllib.parse.urlsplit\<close>.

  Every helper takes a parsed value and the location it is at and returns the normalized value or
  the \<^verbatim>\<open>ProvisionError\<close> that names the location.
\<close>

section \<open>Definitions\<close>

subsection \<open>Names\<close>

definition name_char :: "char \<Rightarrow> bool" where
  "name_char c = (is_alnum c \<or> c = CHR ''_'' \<or> c = CHR ''-'')"

definition validate_name :: "string \<Rightarrow> string res" where
  "validate_name name =
     (let bad = Inl (ProvisionError ''invalid quadlet unit name'') in
      if name = [] \<or> \<not> (is_alnum (hd name) \<or> hd name = CHR ''_'') \<or> CHR ''/'' \<in> set name \<or>
         CHR 0x00 \<in> set name \<or> CHR ''.'' \<in> set name \<or> name \<in> {''.'', ''..''} then bad
      else if list_ex (\<lambda>c. \<not> name_char c) name then bad else Inr name)"

definition reserved_usernames :: "string list" where
  "reserved_usernames = [''appsvc'', ''bin'', ''chrony'', ''daemon'', ''dnsmasq'', ''nobody'', ''root'',
     ''systemd-network'', ''systemd-resolve'', ''systemd-timesync'']"

definition username_re :: "string \<Rightarrow> bool" where
  "username_re s = (s \<noteq> [] \<and> length s \<le> 32 \<and> (is_ascii_lower (hd s) \<or> hd s = CHR ''_'') \<and>
     list_all (\<lambda>c. is_ascii_lower c \<or> is_ascii_digit c \<or> c = CHR ''_'' \<or> c = CHR ''-'') (tl s))"

definition validate_username :: "string \<Rightarrow> string res" where
  "validate_username name =
     (if \<not> username_re name then Inl (ProvisionError ''invalid user name'')
      else if name \<in> set reserved_usernames then Inl (ProvisionError ''reserved user name'')
      else Inr name)"

text \<open>\<^verbatim>\<open>wan|lan|eth[0-9]+\<close>\<close>

definition supported_interface :: "string \<Rightarrow> bool" where
  "supported_interface s = (s = ''wan'' \<or> s = ''lan'' \<or>
     (starts_with ''eth'' s \<and> drop 3 s \<noteq> [] \<and> list_all is_ascii_digit (drop 3 s)))"

definition validate_interface_name :: "string \<Rightarrow> string res" where
  "validate_interface_name name =
     (if supported_interface name then Inr name else Inl (ProvisionError ''unsupported network interface name''))"

subsection \<open>Tables, strings, lists and numbers\<close>

definition require_mapping :: "pyval \<Rightarrow> string \<Rightarrow> pyval dict res" where
  "require_mapping v path = (case v of VDict d \<Rightarrow> Inr d | _ \<Rightarrow> Inl (ProvisionError (''expected table at '' @ path)))"

definition non_empty_error :: "string \<Rightarrow> error" where
  "non_empty_error path = ProvisionError (''expected non-empty string at '' @ path)"

definition require_string :: "pyval \<Rightarrow> string \<Rightarrow> string res" where
  "require_string v path = (case v of
     VStr s \<Rightarrow> (if strip s = [] then Inl (non_empty_error path) else Inr (strip s))
   | _ \<Rightarrow> Inl (non_empty_error path))"

definition item_path :: "string \<Rightarrow> nat \<Rightarrow> string" where
  "item_path path i = path @ ''['' @ string_of_nat i @ '']''"

definition require_string_list :: "pyval \<Rightarrow> string \<Rightarrow> string list res" where
  "require_string_list v path = (case v of
     VList xs \<Rightarrow> (if xs = [] then Inl (ProvisionError (''expected non-empty array at '' @ path))
                else rmapi 0 (\<lambda>i x. require_string x (item_path path i)) xs)
   | _ \<Rightarrow> Inl (ProvisionError (''expected non-empty array at '' @ path)))"

definition require_optional_string_list :: "pyval \<Rightarrow> string \<Rightarrow> string list res" where
  "require_optional_string_list v path = (case v of
     VNone \<Rightarrow> Inr []
   | VList xs \<Rightarrow> rmapi 0 (\<lambda>i x. require_string x (item_path path i)) xs
   | _ \<Rightarrow> Inl (ProvisionError (''expected array at '' @ path)))"

definition require_bool :: "pyval \<Rightarrow> string \<Rightarrow> bool res" where
  "require_bool v path = (case v of VBool b \<Rightarrow> Inr b | _ \<Rightarrow> Inl (ProvisionError (''expected boolean at '' @ path)))"

definition require_int_range :: "pyval \<Rightarrow> string \<Rightarrow> int \<Rightarrow> int \<Rightarrow> int res" where
  "require_int_range v path lo hi =
     (let bad = Inl (ProvisionError (''expected integer in range at '' @ path)) in
      case v of VInt i \<Rightarrow> (if i < lo \<or> i > hi then bad else Inr i) | _ \<Rightarrow> bad)"

definition require_port :: "pyval \<Rightarrow> string \<Rightarrow> int res" where
  "require_port v path =
     (let bad = Inl (ProvisionError (''expected port integer in range 1..65535 at '' @ path)) in
      case v of VInt i \<Rightarrow> (if i < 1 \<or> i > 65535 then bad else Inr i) | _ \<Rightarrow> bad)"

definition require_port_list :: "pyval \<Rightarrow> string \<Rightarrow> int list res" where
  "require_port_list v path = (case v of
     VList xs \<Rightarrow> rmapi 0 (\<lambda>i x. require_port x (item_path path i)) xs
   | _ \<Rightarrow> Inl (ProvisionError (''expected array at '' @ path)))"

subsection \<open>SSH public keys\<close>

definition ssh_key_types :: "string list" where
  "ssh_key_types = [''ecdsa-sha2-nistp256'', ''ecdsa-sha2-nistp384'', ''ecdsa-sha2-nistp521'',
     ''sk-ecdsa-sha2-nistp256@openssh.com'', ''ssh-ed25519'', ''sk-ssh-ed25519@openssh.com'', ''ssh-rsa'']"

definition base64_value :: "char \<Rightarrow> nat option" where
  "base64_value c =
     (if is_ascii_upper c then Some (cp c - 65) else if is_ascii_lower c then Some (cp c - 71)
      else if is_ascii_digit c then Some (cp c + 4) else if c = CHR ''+'' then Some 62
      else if c = CHR ''/'' then Some 63 else None)"

text \<open>
  The decoder of \<^verbatim>\<open>binascii.a2b_base64(strict_mode=True)\<close>: position in the group of four, bits left
  over, number of pads after the second position, whether a pad was seen.
\<close>

fun b64_loop :: "nat \<Rightarrow> nat \<Rightarrow> nat \<Rightarrow> bool \<Rightarrow> string \<Rightarrow> nat list option" where
  "b64_loop quad left pads padding [] = (if quad = 0 then Some [] else None)"
| "b64_loop quad left pads padding (c # cs) =
     (if c = CHR ''='' then
        (if quad \<ge> 2 then
           (if quad + Suc pads \<ge> 4 then (if cs = [] then Some [] else None)
            else b64_loop quad left (Suc pads) True cs)
         else b64_loop quad left pads True cs)
      else case base64_value c of
        None \<Rightarrow> None
      | Some v \<Rightarrow>
          (if padding then None
           else if quad = 0 then b64_loop 1 v 0 padding cs
           else if quad = 1 then map_option ((#) (left * 4 + v div 16)) (b64_loop 2 (v mod 16) 0 padding cs)
           else if quad = 2 then map_option ((#) (left * 16 + v div 4)) (b64_loop 3 (v mod 4) 0 padding cs)
           else map_option ((#) (left * 64 + v)) (b64_loop 0 0 0 padding cs)))"

definition b64decode :: "string \<Rightarrow> nat list option" where
  "b64decode s = (if s \<noteq> [] \<and> hd s = CHR ''='' then None else b64_loop 0 0 0 False s)"

definition int_from_bytes :: "nat list \<Rightarrow> nat" where
  "int_from_bytes bs = foldl (\<lambda>n b. 256 * n + b) 0 bs"

text \<open>The message of the check a key line fails, if any, without its location.\<close>

definition key_blob_error :: "string \<Rightarrow> nat list \<Rightarrow> string option" where
  "key_blob_error kind blob =
     (let len = int_from_bytes (take 4 blob); embedded = take len (drop 4 blob) in
      if length blob < 4 \<or> len = 0 \<or> 4 + len > length blob \<or> list_ex (\<lambda>b. b \<ge> 128) embedded
      then Some ''invalid SSH public key blob at ''
      else if embedded \<noteq> map cp kind then Some ''SSH public key type mismatch at '' else None)"

definition ssh_key_error :: "string \<Rightarrow> string option" where
  "ssh_key_error key =
     (if list_ex is_control key then Some ''invalid SSH public key (control characters) at ''
      else if length (split_ws key) < 2 then Some ''invalid SSH public key at ''
      else if split_ws key ! 0 \<notin> set ssh_key_types then Some ''unsupported SSH public key type at ''
      else case b64decode (split_ws key ! 1) of
        None \<Rightarrow> Some ''invalid SSH public key data at ''
      | Some blob \<Rightarrow> key_blob_error (split_ws key ! 0) blob)"

definition require_ssh_public_key :: "pyval \<Rightarrow> string \<Rightarrow> string res" where
  "require_ssh_public_key v path =
     rbind (require_string v path) (\<lambda>key. case ssh_key_error key of
       None \<Rightarrow> Inr key | Some message \<Rightarrow> Inl (ProvisionError (message @ path)))"

subsection \<open>DNS names and addresses\<close>

text \<open>\<^verbatim>\<open>[A-Za-z0-9](?:[A-Za-z0-9-]{0,61}[A-Za-z0-9])?\<close>\<close>

definition dns_label :: "string \<Rightarrow> bool" where
  "dns_label s = (s \<noteq> [] \<and> length s \<le> 63 \<and> is_ascii_alnum (hd s) \<and> is_ascii_alnum (last s) \<and>
     list_all (\<lambda>c. is_ascii_alnum c \<or> c = CHR ''-'') s)"

definition require_dns_name :: "pyval \<Rightarrow> string \<Rightarrow> string res" where
  "require_dns_name v path = rbind (require_string v path) (\<lambda>s.
     let name = rstrip (\<lambda>c. c = CHR ''.'') (lower s) in
     if name = [] then Inl (non_empty_error path)
     else if length name > 253 then Inl (ProvisionError (''invalid DNS name (longer than 253 characters) at '' @ path))
     else if list_ex (\<lambda>l. \<not> dns_label l) (split_on (CHR ''.'') name) then Inl (ProvisionError (''invalid DNS name at '' @ path))
     else Inr name)"

definition space_or_control :: "char \<Rightarrow> bool" where
  "space_or_control c = (is_space c \<or> is_control c)"

definition check_ntp_server :: "string \<Rightarrow> string \<Rightarrow> unit res" where
  "check_ntp_server path server =
     (if list_ex space_or_control server
      then Inl (ProvisionError (''invalid NTP server (whitespace and control characters) at '' @ path))
      else case ip_address server of
        Some a \<Rightarrow> Inr ()
      | None \<Rightarrow> rbind (require_dns_name (VStr server) path) (\<lambda>n. Inr ()))"

definition require_ntp_server_list :: "pyval \<Rightarrow> string \<Rightarrow> string list res" where
  "require_ntp_server_list v path = rbind (require_string_list v path) (\<lambda>servers.
     rbind (rmapi 0 (\<lambda>i server. check_ntp_server (item_path path i) server) servers) (\<lambda>u. Inr servers))"

definition require_ip_address :: "pyval \<Rightarrow> string \<Rightarrow> string res" where
  "require_ip_address v path = rbind (require_string v path) (\<lambda>raw. case ip_address raw of
     Some a \<Rightarrow> Inr (ip_string a)
   | None \<Rightarrow> Inl (ProvisionError (''invalid IP address at '' @ path)))"

definition require_ipv4_address :: "pyval \<Rightarrow> string \<Rightarrow> string res" where
  "require_ipv4_address v path = rbind (require_string v path) (\<lambda>raw. case ipv4_of_string raw of
     Some w \<Rightarrow> Inr (ipv4_string w)
   | None \<Rightarrow> Inl (ProvisionError (''invalid IPv4 address at '' @ path)))"

definition require_ip_address_list :: "pyval \<Rightarrow> string \<Rightarrow> string list res" where
  "require_ip_address_list v path = rbind (require_string_list v path) (\<lambda>items.
     rmapi 0 (\<lambda>i item. require_ip_address (VStr item) (item_path path i)) items)"

definition require_dns_search_domains :: "pyval \<Rightarrow> string \<Rightarrow> string list res" where
  "require_dns_search_domains v path = rbind (require_string_list v path) (\<lambda>items.
     rmapi 0 (\<lambda>i item. require_dns_name (VStr item) (item_path path i)) items)"

definition require_ipv4_interface :: "pyval \<Rightarrow> string \<Rightarrow> ipv4_interface res" where
  "require_ipv4_interface v path = rbind (require_string v path) (\<lambda>raw. case interface_of_string raw of
     Some i \<Rightarrow> Inr i
   | None \<Rightarrow> Inl (ProvisionError (''invalid IPv4 CIDR at '' @ path)))"

subsection \<open>URLs\<close>

record split_url =
  url_scheme :: string
  url_netloc :: string
  url_path :: string
  url_query :: string
  url_fragment :: string

definition is_scheme_char :: "char \<Rightarrow> bool" where
  "is_scheme_char c = (is_ascii_alnum c \<or> c = CHR ''+'' \<or> c = CHR ''-'' \<or> c = CHR ''.'')"

definition after_last_at :: "string \<Rightarrow> string" where
  "after_last_at s = (if CHR ''@'' \<in> set s then last (split_on (CHR ''@'') s) else s)"

text \<open>Host and port text of a network location; an empty port is no port.\<close>

definition hostinfo :: "string \<Rightarrow> string \<times> string option" where
  "hostinfo netloc =
     (let info = after_last_at netloc;
          (host, port) = (case partition_on (CHR ''['') info of
             (b, Some bracketed) \<Rightarrow>
               (case partition_on (CHR '']'') bracketed of
                  (h, None) \<Rightarrow> (h, None)
                | (h, Some r) \<Rightarrow> (h, snd (partition_on (CHR '':'') r)))
           | (b, None) \<Rightarrow> partition_on (CHR '':'') info) in
      (host, if port = Some [] then None else port))"

text \<open>\<^verbatim>\<open>_check_bracketed_netloc\<close> and \<^verbatim>\<open>_check_bracketed_host\<close>; the address version matters.\<close>

definition bracketed_host_ok :: "string \<Rightarrow> bool" where
  "bracketed_host_ok h =
     (if starts_with ''v'' h then
        (let hex = takeWhile (\<lambda>c. hex_value c \<noteq> None) (tl h); rest = dropWhile (\<lambda>c. hex_value c \<noteq> None) (tl h) in
         hex \<noteq> [] \<and> length rest \<ge> 2 \<and> hd rest = CHR ''.'' \<and> CHR 0x0A \<notin> set rest)
      else case ip_address h of Some (IPv6 n s) \<Rightarrow> True | _ \<Rightarrow> False)"

definition bracketed_netloc_ok :: "string \<Rightarrow> bool" where
  "bracketed_netloc_ok netloc =
     (let info = after_last_at netloc in
      case partition_on (CHR ''['') info of
        (b, Some bracketed) \<Rightarrow>
          b = [] \<and> (case partition_on (CHR '']'') bracketed of
             (h, None) \<Rightarrow> bracketed_host_ok h
           | (h, Some port) \<Rightarrow> (port = [] \<or> hd port = CHR '':'') \<and> bracketed_host_ok h)
      | (b, None) \<Rightarrow> bracketed_host_ok (fst (partition_on (CHR '':'') info)))"

definition split_at :: "char \<Rightarrow> string \<Rightarrow> string \<times> string" where
  "split_at c s = (case partition_on c s of (a, None) \<Rightarrow> (a, []) | (a, Some b) \<Rightarrow> (a, b))"

text \<open>
  \<^verbatim>\<open>urlsplit\<close> on text without white space and control characters, which its caller has excluded. The
  NFKC test of a network location never fails on code points below 256.
\<close>

definition urlsplit :: "string \<Rightarrow> split_url res" where
  "urlsplit url =
     (let (scheme, url1) = (case partition_on (CHR '':'') url of
            (s, Some r) \<Rightarrow>
              (if s \<noteq> [] \<and> (is_ascii_lower (hd s) \<or> is_ascii_upper (hd s)) \<and> list_all is_scheme_char s
               then (lower s, r) else ([], url))
          | (s, None) \<Rightarrow> ([], url));
          is_delim = (\<lambda>c. c = CHR ''/'' \<or> c = CHR ''?'' \<or> c = CHR ''#'');
          has_net = starts_with ''//'' url1;
          netloc = (if has_net then takeWhile (\<lambda>c. \<not> is_delim c) (drop 2 url1) else []);
          url2 = (if has_net then dropWhile (\<lambda>c. \<not> is_delim c) (drop 2 url1) else url1);
          opened = CHR ''['' \<in> set netloc; closed = CHR '']'' \<in> set netloc in
      if opened \<noteq> closed \<or> (opened \<and> \<not> bracketed_netloc_ok netloc) then Inl (ValueErr ''Invalid IPv6 URL'')
      else let (url3, fragment) = split_at (CHR ''#'') url2; (path, query) = split_at (CHR ''?'') url3 in
        Inr \<lparr>url_scheme = scheme, url_netloc = netloc, url_path = path, url_query = query, url_fragment = fragment\<rparr>)"

definition url_hostname :: "split_url \<Rightarrow> string option" where
  "url_hostname u = (case fst (hostinfo (url_netloc u)) of
     [] \<Rightarrow> None
   | h \<Rightarrow> Some (case partition_on (CHR ''%'') h of
         (a, None) \<Rightarrow> lower a | (a, Some zone) \<Rightarrow> lower a @ ''%'' @ zone))"

definition url_port_ok :: "split_url \<Rightarrow> bool" where
  "url_port_ok u = (case snd (hostinfo (url_netloc u)) of
     None \<Rightarrow> True | Some p \<Rightarrow> all_digits p \<and> nat_of_digits p \<le> 65535)"

definition require_https_url :: "pyval \<Rightarrow> string \<Rightarrow> string res" where
  "require_https_url v path = rbind (require_string v path) (\<lambda>url.
     if list_ex space_or_control url then Inl (ProvisionError (''invalid URL (whitespace/control characters) at '' @ path))
     else rbind (urlsplit url) (\<lambda>parsed.
       case url_hostname parsed of
         None \<Rightarrow> Inl (ProvisionError (path @ '' must be an https:// URL''))
       | Some host \<Rightarrow>
           if url_scheme parsed \<noteq> ''https'' then Inl (ProvisionError (path @ '' must be an https:// URL''))
           else if \<not> url_port_ok parsed then Inl (ProvisionError (''invalid URL port at '' @ path))
           else if CHR ''@'' \<in> set (url_netloc parsed) then Inl (ProvisionError (path @ '' must not include credentials''))
           else if url_query parsed \<noteq> [] \<or> url_fragment parsed \<noteq> []
           then Inl (ProvisionError (path @ '' must not include a query string or fragment''))
           else case ip_address host of
             Some a \<Rightarrow> Inr (rstrip (\<lambda>c. c = CHR ''/'') url)
           | None \<Rightarrow> rbind (require_dns_name (VStr host) path) (\<lambda>n. Inr (rstrip (\<lambda>c. c = CHR ''/'') url))))"

section \<open>Theorems\<close>

subsection \<open>Strings\<close>

lemma strip_id: "s \<noteq> [] \<Longrightarrow> \<not> is_space (hd s) \<Longrightarrow> \<not> is_space (last s) \<Longrightarrow> strip s = s"
proof -
  assume a: "s \<noteq> []" "\<not> is_space (hd s)" "\<not> is_space (last s)"
  have "dropWhile is_space s = s" using a by (cases s) auto
  moreover have "dropWhile is_space (rev s) = rev s" using a by (cases s rule: rev_cases) auto
  ultimately show ?thesis by (simp add: strip_def lstrip_def rstrip_def)
qed

lemma strip_ends:
  assumes "strip s \<noteq> []"
  shows "\<not> is_space (hd (strip s))" "\<not> is_space (last (strip s))"
proof -
  let ?l = "dropWhile is_space s"
  have r: "strip s = rev (dropWhile is_space (rev ?l))" by (simp add: strip_def lstrip_def rstrip_def)
  have ne: "dropWhile is_space (rev ?l) \<noteq> []" using assms r by simp
  show "\<not> is_space (last (strip s))" using hd_dropWhile [OF ne] ne by (simp add: r last_rev)
  obtain z where z: "rev ?l = z @ dropWhile is_space (rev ?l)" by (metis takeWhile_dropWhile_id)
  then have l: "?l = strip s @ rev z" unfolding r by (metis rev_append rev_rev_ident)
  then have "?l \<noteq> []" "hd ?l = hd (strip s)" using assms by auto
  then show "\<not> is_space (hd (strip s))" using hd_dropWhile by metis
qed

lemma strip_strip [simp]: "strip (strip s) = strip s"
proof (cases "strip s = []")
  case True
  have "strip [] = []" by (simp add: strip_def lstrip_def rstrip_def)
  then show ?thesis by (simp only: True)
qed (intro strip_id strip_ends)

lemma require_string_Inr: "require_string v path = Inr r \<Longrightarrow> (\<exists>s. v = VStr s \<and> r = strip s) \<and> r \<noteq> [] \<and> strip r = r"
  by (auto simp: require_string_def split: pyval.splits if_splits)

lemma require_string_stripped: "strip r = r \<Longrightarrow> r \<noteq> [] \<Longrightarrow> require_string (VStr r) path = Inr r"
  by (simp add: require_string_def)

lemma require_string_list_Inr:
  "require_string_list v path = Inr rs \<Longrightarrow> rs \<noteq> [] \<and> (\<forall>r \<in> set rs. r \<noteq> [] \<and> strip r = r)"
  by (auto simp: require_string_list_def rmapi_eq_Inr in_set_conv_nth split: pyval.splits if_splits)
    (metis require_string_Inr)+

lemma rmapi_set:
  assumes "rmapi i f xs = Inr ys" "y \<in> set ys"
  shows "\<exists>k x. x \<in> set xs \<and> f k x = Inr y"
  using assms by (auto simp: rmapi_eq_Inr in_set_conv_nth)

lemma rmap_set:
  assumes "rmap f xs = Inr ys" "y \<in> set ys"
  shows "\<exists>x \<in> set xs. f x = Inr y"
  using assms by (auto simp: rmap_eq_Inr list_all2_conv_all_nth in_set_conv_nth) (metis nth_mem)

lemma last_replace: "p \<noteq> [] \<Longrightarrow> q \<noteq> [] \<Longrightarrow> s \<noteq> [] \<Longrightarrow> replace p q s \<noteq> [] \<and> last (replace p q s) \<in> {last q, last s}"
proof (induction p q s rule: replace.induct)
  case (2 p q x xs)
  show ?case
  proof (cases "starts_with p (x # xs)")
    case True
    show ?thesis
    proof (cases "drop (length p) (x # xs) = []")
      case False
      then show ?thesis using "2.IH"(1) True "2.prems" by auto
    qed (use True "2.prems" in simp)
  next
    case False
    then show ?thesis using "2.IH"(2) "2.prems" by (cases xs) auto
  qed
qed simp

lemma hd_replace: "p \<noteq> [] \<Longrightarrow> q \<noteq> [] \<Longrightarrow> s \<noteq> [] \<Longrightarrow> hd (replace p q s) \<in> {hd q, hd s}"
  by (cases s) auto

lemma set_replace: "set (replace p q s) \<subseteq> set q \<union> set s" "p \<noteq> [] \<Longrightarrow> set s \<subseteq> set p \<union> set (replace p q s)"
proof (induction p q s rule: replace.induct)
  case (2 p q x xs)
  {
    case 1
    have "set (drop (length p) (x # xs)) \<subseteq> set (x # xs)" by (rule set_drop_subset)
    moreover have "set (replace p q (drop (length p) (x # xs))) \<subseteq> set q \<union> set (drop (length p) (x # xs))"
      if "p \<noteq> [] \<and> starts_with p (x # xs)" using "2.IH"(1) that by blast
    moreover have "set (replace p q xs) \<subseteq> set q \<union> set xs" if "\<not> (p \<noteq> [] \<and> starts_with p (x # xs))"
      using "2.IH"(3) that by blast
    ultimately show ?case by (cases "p \<noteq> [] \<and> starts_with p (x # xs)") (simp_all, blast+)
  next
    case 2
    show ?case
    proof (cases "starts_with p (x # xs)")
      case True
      have "set (x # xs) = set (take (length p) (x # xs)) \<union> set (drop (length p) (x # xs))"
        by (metis append_take_drop_id set_append)
      with True 2 show ?thesis using "2.IH"(2) by (auto simp: starts_with_def)
    next
      case False
      then show ?thesis using "2.IH"(4) 2 by auto
    qed
  }
qed simp_all

subsection \<open>DNS names\<close>

lemma cp_lower_char:
  "cp (lower_char c) = (if is_ascii_upper c \<or> (192 \<le> cp c \<and> cp c \<le> 222 \<and> cp c \<noteq> 215) then cp c + 32 else cp c)"
  by (auto simp: lower_char_def cp_def is_ascii_upper_def)

lemma cp_inject: "cp c = cp d \<longleftrightarrow> c = d"
  by (simp add: cp_def)

lemma lower_char_alnum: "is_ascii_alnum (lower_char c) \<Longrightarrow> is_ascii_alnum c"
  by (auto simp: is_ascii_alnum_def is_ascii_digit_def is_ascii_lower_def is_ascii_upper_def cp_lower_char split: if_splits)

lemma lower_char_punct: "cp d < 48 \<Longrightarrow> lower_char c = d \<longleftrightarrow> c = d"
proof -
  assume d: "cp d < 48"
  have "lower_char c = d \<longleftrightarrow> cp (lower_char c) = cp d" by (simp add: cp_inject)
  also have "\<dots> \<longleftrightarrow> cp c = cp d" using d by (auto simp: cp_lower_char is_ascii_upper_def)
  finally show ?thesis by (simp add: cp_inject)
qed

lemma lower_char_dot: "lower_char c = CHR ''.'' \<longleftrightarrow> c = CHR ''.''" "lower_char c = CHR ''-'' \<longleftrightarrow> c = CHR ''-''"
  by (rule lower_char_punct, simp add: cp_def)+

lemma split_on_lower: "split_on (CHR ''.'') (lower s) = map lower (split_on (CHR ''.'') s)"
proof (induction s)
  case (Cons x s)
  then show ?case
    using lower_char_dot(1) [of x] by (cases "split_on (CHR ''.'') s") (auto simp: lower_def)
qed (simp add: lower_def)

lemma dns_label_lower: "dns_label (lower l) \<Longrightarrow> dns_label l"
  by (auto simp: dns_label_def lower_def hd_map last_map list_all_iff lower_char_dot dest: lower_char_alnum)

definition dns_name :: "string \<Rightarrow> bool" where
  "dns_name n = (length n \<le> 253 \<and> list_all dns_label (split_on (CHR ''.'') n))"

lemma dns_name_not_Nil: "dns_name n \<Longrightarrow> n \<noteq> []"
  by (auto simp: dns_name_def dns_label_def)

lemma dns_name_lower: "dns_name (lower s) \<Longrightarrow> dns_name s"
  using dns_label_lower by (auto simp: dns_name_def split_on_lower list_all_iff) (simp add: lower_def)

lemma require_dns_name_Inr: "require_dns_name v path = Inr n \<Longrightarrow> dns_name n"
  by (auto simp: require_dns_name_def Let_def res_simps dns_name_def list_all_iff list_ex_iff split: if_splits)

lemma dns_name_chars: "dns_name n \<Longrightarrow> c \<in> set n \<Longrightarrow> is_ascii_alnum c \<or> c = CHR ''-'' \<or> c = CHR ''.''"
proof -
  assume n: "dns_name n" "c \<in> set n"
  have "c \<in> {CHR ''.''} \<union> \<Union> (set ` set (split_on (CHR ''.'') n))"
    using set_join_subset [of "''.''" "split_on (CHR ''.'') n"] n(2) by (auto simp: join_split_on)
  with n(1) show ?thesis by (auto simp: dns_name_def dns_label_def list_all_iff)
qed

text \<open>Without a final dot, a value that passes is a DNS name as it stands, up to case.\<close>

lemma require_dns_name_plain:
  assumes "require_dns_name (VStr s) path = Inr n" "strip s = s" "last s \<noteq> CHR ''.''"
  shows "dns_name s"
proof -
  have s: "s \<noteq> []" and n: "n = rstrip (\<lambda>c. c = CHR ''.'') (lower s)"
    using assms(1,2) by (auto simp: require_dns_name_def require_string_def Let_def res_simps split: if_splits)
  have "hd (rev (lower s)) \<noteq> CHR ''.''" using s assms(3) lower_char_dot by (simp add: lower_def hd_rev last_map)
  then have "n = lower s" using n s by (cases "rev (lower s)") (auto simp: rstrip_def lower_def rev_swap)
  with require_dns_name_Inr [OF assms(1)] show ?thesis by (simp add: dns_name_lower)
qed

subsection \<open>Addresses\<close>

lemma require_ip_address_Inr:
  "require_ip_address v path = Inr x \<Longrightarrow> \<exists>a. ip_address x = Some a \<and> x = ip_string a \<and> x \<noteq> []"
  using ip_round_trip ip_string_not_Nil by (fastforce simp: require_ip_address_def res_simps split: option.splits)

lemma require_ipv4_address_Inr: "require_ipv4_address v path = Inr x \<Longrightarrow> \<exists>w. x = ipv4_string w"
  by (auto simp: require_ipv4_address_def res_simps split: option.splits)

lemma require_ip_address_list_Inr:
  "require_ip_address_list v path = Inr xs \<Longrightarrow> x \<in> set xs \<Longrightarrow> \<exists>a. ip_address x = Some a \<and> x = ip_string a \<and> x \<noteq> []"
  by (auto simp: require_ip_address_list_def res_simps dest!: rmapi_set require_ip_address_Inr)

lemma require_dns_search_domains_Inr:
  "require_dns_search_domains v path = Inr xs \<Longrightarrow> x \<in> set xs \<Longrightarrow> dns_name x"
  by (auto simp: require_dns_search_domains_def res_simps dest!: rmapi_set require_dns_name_Inr)

lemma require_ipv4_interface_Inr:
  "require_ipv4_interface v path = Inr i \<Longrightarrow> if_prefixlen i \<le> 32"
  using interface_of_string_le by (auto simp: require_ipv4_interface_def res_simps split: option.splits)

subsection \<open>SSH keys\<close>

text \<open>
  An accepted SSH key is one line that can be put into an \<^verbatim>\<open>authorized_keys\<close> or allowed-signers
  file: it has no control characters below U+0080, its first word is a supported key type, and
  its decoded blob starts with the length-prefixed name of that same type. Validating it again accepts
  it unchanged.
\<close>

theorem ssh_key_single_line:
  assumes "require_ssh_public_key v path = Inr key"
  shows "list_all (\<lambda>c. \<not> is_control c) key \<and>
    (\<exists>kind data rest blob. split_ws key = kind # data # rest \<and> kind \<in> set ssh_key_types \<and> b64decode data = Some blob \<and>
       int_from_bytes (take 4 blob) = length kind \<and> take (length kind) (drop 4 blob) = map cp kind) \<and>
    require_ssh_public_key (VStr key) path' = Inr key"
proof -
  have req: "require_string v path = Inr key" and ok: "ssh_key_error key = None"
    using assms by (auto simp: require_ssh_public_key_def res_simps split: option.splits)
  have again: "require_ssh_public_key (VStr key) path' = Inr key"
    using require_string_Inr [OF req] ok by (simp add: require_ssh_public_key_def require_string_stripped)
  have line: "list_all (\<lambda>c. \<not> is_control c) key" and len: "\<not> length (split_ws key) < 2"
    and kind: "split_ws key ! 0 \<in> set ssh_key_types"
    using ok by (auto simp: ssh_key_error_def list_all_iff list_ex_iff split: if_splits)
  obtain kind data rest where words: "split_ws key = kind # data # rest"
    using len by (cases "split_ws key"; cases "tl (split_ws key)") auto
  obtain blob where blob: "b64decode data = Some blob" "key_blob_error kind blob = None"
    using ok words kind by (auto simp: ssh_key_error_def split: if_splits option.splits)
  have "take (int_from_bytes (take 4 blob)) (drop 4 blob) = map cp kind" "4 + int_from_bytes (take 4 blob) \<le> length blob"
    using blob(2) by (auto simp: key_blob_error_def Let_def split: if_splits)
  then have "int_from_bytes (take 4 blob) = length kind \<and> take (length kind) (drop 4 blob) = map cp kind"
    by (metis length_map length_take length_drop min_absorb2 add_le_imp_le_diff add.commute)
  with again line words kind blob(1) show ?thesis by auto
qed

theorem ssh_key_single_line_witness:
  "require_ssh_public_key (VStr '' ssh-rsa AAAAB3NzaC1yc2EAAAA= me'') ''users.a.ssh_key'' = Inr ''ssh-rsa AAAAB3NzaC1yc2EAAAA= me'' \<and>
   list_all (\<lambda>c. \<not> is_control c) ''ssh-rsa AAAAB3NzaC1yc2EAAAA= me''"
proof -
  have run: "require_ssh_public_key (VStr '' ssh-rsa AAAAB3NzaC1yc2EAAAA= me'') ''users.a.ssh_key'' = Inr ''ssh-rsa AAAAB3NzaC1yc2EAAAA= me''"
    by code_simp
  from run ssh_key_single_line [OF run] show ?thesis by blast
qed

end
