(* ===== verification/Config_Sections.thy ===== *)
theory Config_Sections
  imports Config_Values
begin

text \<open>
  The section loaders of \<^verbatim>\<open>config.py\<close>: users, LAN settings, interfaces, host network, inbound
  firewall, activation policy, and \<^verbatim>\<open>load_config\<close> on the parsed document.

  A loader returns the normalized section as the dict the code builds, or the exception of the first
  check that fails, in the order of the code. \<^verbatim>\<open>load_config\<close> takes the parsed TOML table and the
  schema validator (the \<^verbatim>\<open>jsonschema\<close> package) as arguments; reading the file and parsing TOML come
  before it. The fallback LAN values are those of \<^verbatim>\<open>defaults/lan.json\<close>.
\<close>

section \<open>Definitions\<close>

subsection \<open>LAN settings\<close>

definition default_lan_gateway_cidr :: string where "default_lan_gateway_cidr = ''172.20.30.1/24''"
definition default_lan_dhcp_start :: string where "default_lan_dhcp_start = ''172.20.30.10''"
definition default_lan_dhcp_end :: string where "default_lan_dhcp_end = ''172.20.30.254''"
definition default_lan_domain :: string where "default_lan_domain = ''local''"
definition default_lan_gateway_aliases :: "string list" where "default_lan_gateway_aliases = [''atomixos'']"
definition default_lan_hostname_pattern :: string where "default_lan_hostname_pattern = ''''"
definition default_ntp_servers :: "string list" where "default_ntp_servers = [''time.cloudflare.com'']"

text \<open>\<^verbatim>\<open>list(dict.fromkeys(xs))\<close>: the first of equal elements stays.\<close>

definition dict_fromkeys :: "'a list \<Rightarrow> 'a list" where
  "dict_fromkeys xs = rev (remdups (rev xs))"

text \<open>A dict displayed with keys and values that are evaluated in order.\<close>

abbreviation strs :: "string list \<Rightarrow> pyval" where
  "strs xs \<equiv> VList (map VStr xs)"

definition mac_probe :: "string \<Rightarrow> string" where
  "mac_probe pattern = replace ''{mac}'' ''001122334455'' pattern"

definition lan_hostname_pattern :: "pyval dict \<Rightarrow> string \<Rightarrow> string res" where
  "lan_hostname_pattern lan path =
     rbind (case get_val lan ''hostname_pattern'' of
              VNone \<Rightarrow> Inr default_lan_hostname_pattern
            | VStr [] \<Rightarrow> Inr default_lan_hostname_pattern
            | v \<Rightarrow> require_string (if py_truthy v then v else VStr default_lan_hostname_pattern) (path @ ''.hostname_pattern''))
     (\<lambda>pattern.
      if pattern = [] then Inr pattern
      else if \<not> contains ''{mac}'' pattern then Inl (ProvisionError (path @ ''.hostname_pattern must include {mac}''))
      else rbind (require_dns_name (VStr (mac_probe pattern)) (path @ ''.hostname_pattern'')) (\<lambda>n. Inr pattern))"

definition lan_gateway_aliases :: "pyval dict \<Rightarrow> string \<Rightarrow> string list res" where
  "lan_gateway_aliases lan path =
     rbind (require_optional_string_list (get_val lan ''gateway_aliases'') (path @ ''.gateway_aliases'')) (\<lambda>given.
     rbind (rmap (\<lambda>a. require_dns_name (VStr a) (path @ ''.gateway_aliases''))
              (if given = [] then default_lan_gateway_aliases else given)) (\<lambda>aliases.
     Inr (dict_fromkeys aliases)))"

definition load_dhcp_range :: "pyval dict \<Rightarrow> string \<Rightarrow> ipv4_interface \<Rightarrow> (ipv4 \<times> ipv4) res" where
  "load_dhcp_range lan path gateway =
     rbind (require_string (get_or (VStr default_lan_dhcp_start) lan ''dhcp_start'') (path @ ''.dhcp_start'')) (\<lambda>start_raw.
     rbind (require_string (get_or (VStr default_lan_dhcp_end) lan ''dhcp_end'') (path @ ''.dhcp_end'')) (\<lambda>end_raw.
     case (ipv4_of_string start_raw, ipv4_of_string end_raw) of
       (Some dhcp_start, Some dhcp_end) \<Rightarrow>
         rbind (rguard (in_network dhcp_start (if_network gateway) \<and> in_network dhcp_end (if_network gateway))
                  (ProvisionError (path @ ''.dhcp_start and '' @ path @ ''.dhcp_end must be inside '' @ network_string (if_network gateway)))) (\<lambda>u1.
         rbind (rguard (dhcp_start \<le> dhcp_end)
                  (ProvisionError (path @ ''.dhcp_start must be less than or equal to '' @ path @ ''.dhcp_end''))) (\<lambda>u2.
         rbind (rguard (\<not> (dhcp_start \<le> if_ip gateway \<and> if_ip gateway \<le> dhcp_end))
                  (ProvisionError (path @ ''.dhcp_start and '' @ path @ ''.dhcp_end must not include the gateway IP''))) (\<lambda>u3.
         Inr (dhcp_start, dhcp_end))))
     | _ \<Rightarrow> Inl (ProvisionError (''invalid IPv4 address in '' @ path @ ''.dhcp_start or '' @ path @ ''.dhcp_end''))))"

definition lan_dict ::
  "ipv4_interface \<Rightarrow> ipv4 \<Rightarrow> ipv4 \<Rightarrow> string \<Rightarrow> string \<Rightarrow> string list \<Rightarrow> pyval dict" where
  "lan_dict gateway dhcp_start dhcp_end domain pattern aliases =
     [(''gateway_cidr'', VStr (interface_string gateway)),
      (''gateway_ip'', VStr (ipv4_string (if_ip gateway))),
      (''subnet_cidr'', VStr (network_string (if_network gateway))),
      (''netmask'', VStr (ipv4_string (if_netmask gateway))),
      (''dhcp_start'', VStr (ipv4_string dhcp_start)),
      (''dhcp_end'', VStr (ipv4_string dhcp_end)),
      (''domain'', VStr domain),
      (''hostname_pattern'', VStr pattern),
      (''gateway_aliases'', strs aliases)]"

definition load_lan_settings :: "pyval \<Rightarrow> string \<Rightarrow> pyval dict res" where
  "load_lan_settings lan_value path =
     rbind (require_mapping (if lan_value = VNone then VDict [] else lan_value) path) (\<lambda>lan.
     rbind (require_ipv4_interface (get_or (VStr default_lan_gateway_cidr) lan ''gateway_cidr'') (path @ ''.gateway_cidr'')) (\<lambda>gateway.
     rbind (rguard (16 \<le> if_prefixlen gateway \<and> if_prefixlen gateway \<le> 30)
              (ProvisionError (path @ ''.gateway_cidr prefix must be between /16 and /30''))) (\<lambda>u.
     rbind (load_dhcp_range lan path gateway) (\<lambda>(dhcp_start, dhcp_end).
     rbind (require_dns_name (get_or (VStr default_lan_domain) lan ''domain'') (path @ ''.domain'')) (\<lambda>domain.
     rbind (lan_hostname_pattern lan path) (\<lambda>pattern.
     rbind (lan_gateway_aliases lan path) (\<lambda>aliases.
     Inr (lan_dict gateway dhcp_start dhcp_end domain pattern aliases))))))))"

subsection \<open>Users\<close>

definition load_ssh_key :: "pyval \<Rightarrow> string \<Rightarrow> string res" where
  "load_ssh_key raw path = (case raw of
     VStr s \<Rightarrow> (if strip s = [] then Inr [] else require_ssh_public_key raw path)
   | _ \<Rightarrow> Inl (ProvisionError (''expected string at '' @ path)))"

text \<open>Set membership of a list or a dict raises a \<^verbatim>\<open>TypeError\<close>.\<close>

definition load_shell :: "pyval \<Rightarrow> string \<Rightarrow> string option res" where
  "load_shell raw path = (case raw of
     VNone \<Rightarrow> Inr None
   | VStr s \<Rightarrow> (if s \<in> {''bash'', ''sh'', ''zsh''} then Inr (Some s)
              else Inl (ProvisionError (path @ '' must be one of: bash, sh, zsh'')))
   | VList xs \<Rightarrow> Inl (PyExc ''TypeError'')
   | VDict d \<Rightarrow> Inl (PyExc ''TypeError'')
   | _ \<Rightarrow> Inl (ProvisionError (path @ '' must be one of: bash, sh, zsh'')))"

record user_entry =
  user_name :: string
  user_is_admin :: bool
  user_ssh_key :: string
  user_shell :: "string option"

definition load_user :: "string \<times> pyval \<Rightarrow> user_entry res" where
  "load_user u = (let username = fst u; path = ''users.'' @ username in
     rbind (validate_username username) (\<lambda>n.
     rbind (require_mapping (snd u) path) (\<lambda>user.
     rbind (require_bool (get_or (VBool False) user ''isAdmin'') (path @ ''.isAdmin'')) (\<lambda>is_admin.
     rbind (load_ssh_key (get_or (VStr []) user ''ssh_key'') (path @ ''.ssh_key'')) (\<lambda>ssh_key.
     rbind (load_shell (get_val user ''shell'') (path @ ''.shell'')) (\<lambda>shell.
     Inr \<lparr>user_name = username, user_is_admin = is_admin, user_ssh_key = ssh_key, user_shell = shell\<rparr>))))))"

definition user_dict :: "user_entry \<Rightarrow> pyval" where
  "user_dict u = VDict ([(''isAdmin'', VBool (user_is_admin u)), (''ssh_key'', VStr (user_ssh_key u))] @
     (case user_shell u of None \<Rightarrow> [] | Some s \<Rightarrow> [(''shell'', VStr s)]))"

definition load_users :: "pyval \<Rightarrow> (pyval dict \<times> string list) res" where
  "load_users users_value =
     rbind (require_mapping users_value ''users'') (\<lambda>users.
     rbind (rmap load_user users) (\<lambda>us.
     let admin_keys = map user_ssh_key (filter (\<lambda>u. user_is_admin u \<and> user_ssh_key u \<noteq> []) us) in
     if admin_keys = [] then Inl (ProvisionError ''users must define at least one admin user with a non-empty ssh_key'')
     else Inr (map (\<lambda>u. (user_name u, user_dict u)) us, admin_keys)))"

subsection \<open>Interfaces and host network\<close>

text \<open>An optional key: the entry it adds to the normalized dict, if it is present.\<close>

definition optional_entry :: "pyval dict \<Rightarrow> string \<Rightarrow> (pyval \<Rightarrow> pyval res) \<Rightarrow> pyval dict res" where
  "optional_entry d k f = (case dget d k of
     None \<Rightarrow> Inr []
   | Some v \<Rightarrow> rbind (f v) (\<lambda>x. Inr [(k, x)]))"

definition interface_address :: "string \<Rightarrow> string \<Rightarrow> pyval dict \<Rightarrow> pyval dict res" where
  "interface_address path mode d =
     (if mode = ''static'' then
        (case dget d ''address'' of
           None \<Rightarrow> Inl (ProvisionError (''missing required keys at '' @ path @ '': address''))
         | Some v \<Rightarrow> rbind (require_ipv4_interface v (path @ ''.address'')) (\<lambda>i. Inr [(''address'', VStr (interface_string i))]))
      else if has_key d ''address'' then Inl (ProvisionError (path @ ''.address is only supported when mode is static''))
      else Inr [])"

definition load_interface :: "string \<times> pyval \<Rightarrow> (string \<times> pyval) res" where
  "load_interface e = (let name = fst e; path = ''network.interfaces.'' @ name in
     rbind (validate_interface_name name) (\<lambda>n.
     rbind (require_mapping (snd e) path) (\<lambda>interface.
     rbind (case dget interface ''mode'' of None \<Rightarrow> Inl (PyExc ''KeyError: mode'') | Some v \<Rightarrow> require_string v (path @ ''.mode'')) (\<lambda>mode.
     rbind (rguard (mode \<in> {''dhcp'', ''static''}) (ProvisionError (path @ ''.mode must be one of: dhcp, static''))) (\<lambda>u1.
     rbind (rguard (name \<noteq> ''lan'' \<or> mode = ''static'')
              (ProvisionError ''network.interfaces.lan.mode must be static because lan is the LAN gateway'')) (\<lambda>u2.
     rbind (interface_address path mode interface) (\<lambda>address.
     rbind (optional_entry interface ''gateway'' (\<lambda>v. rbind (require_ipv4_address v (path @ ''.gateway'')) (\<lambda>g. Inr (VStr g)))) (\<lambda>gateway.
     rbind (optional_entry interface ''dns_servers'' (\<lambda>v. rbind (require_ip_address_list v (path @ ''.dns_servers'')) (\<lambda>xs. Inr (strs xs)))) (\<lambda>dns.
     rbind (optional_entry interface ''dns_search_domains''
              (\<lambda>v. rbind (require_dns_search_domains v (path @ ''.dns_search_domains'')) (\<lambda>xs. Inr (strs xs)))) (\<lambda>domains.
     Inr (name, VDict ([(''mode'', VStr mode)] @ address @ gateway @ dns @ domains))))))))))))"

definition load_network_interfaces :: "pyval \<Rightarrow> pyval dict res" where
  "load_network_interfaces v =
     (if v = VNone then Inr []
      else rbind (require_mapping v ''network.interfaces'') (\<lambda>interfaces. rmap load_interface interfaces))"

definition as_table :: "pyval \<Rightarrow> pyval" where
  "as_table v = (if v = VNone then VDict [] else v)"

definition load_host_network_settings :: "pyval \<Rightarrow> pyval dict res" where
  "load_host_network_settings network_value =
     rbind (require_mapping (as_table network_value) ''network'') (\<lambda>network.
     rbind (case dget network ''dns_servers'' of
              None \<Rightarrow> Inr [] | Some v \<Rightarrow> require_ip_address_list v ''network.dns_servers'') (\<lambda>dns.
     rbind (case dget network ''dns_search_domains'' of
              None \<Rightarrow> Inr [] | Some v \<Rightarrow> require_dns_search_domains v ''network.dns_search_domains'') (\<lambda>domains.
     rbind (load_network_interfaces (get_val network ''interfaces'')) (\<lambda>interfaces.
     rbind (optional_entry network ''default_gateway''
              (\<lambda>v. rbind (require_ipv4_address v ''network.default_gateway'') (\<lambda>g. Inr (VStr g)))) (\<lambda>gateway.
     Inr ([(''dns_servers'', strs dns), (''dns_search_domains'', strs domains), (''interfaces'', VDict interfaces)] @ gateway))))))"

subsection \<open>The network section\<close>

definition check_dnsmasq :: "pyval dict \<Rightarrow> unit res" where
  "check_dnsmasq dnsmasq =
     rbind (case dget dnsmasq ''enable'' of
              None \<Rightarrow> Inr ()
            | Some v \<Rightarrow> rbind (require_bool v ''network.dnsmasq.enable'') (\<lambda>b.
                rguard b (ProvisionError ''network.dnsmasq.enable must remain true''))) (\<lambda>u.
     case dget dnsmasq ''interface'' of
       None \<Rightarrow> Inr ()
     | Some v \<Rightarrow> rbind (require_string v ''network.dnsmasq.interface'') (\<lambda>i.
         rguard (i = ''lan'') (ProvisionError ''network.dnsmasq.interface must be lan'')))"

text \<open>The address of a static \<^verbatim>\<open>lan\<close> interface becomes the gateway of the LAN.\<close>

definition lan_gateway_input :: "pyval dict \<Rightarrow> pyval dict \<Rightarrow> pyval dict res" where
  "lan_gateway_input interfaces lan_input = (case dget interfaces ''lan'' of
     Some (VDict lan) \<Rightarrow>
       (if get_val lan ''mode'' = VStr ''static'' then
          (case dget lan ''address'' of
             None \<Rightarrow> Inl (PyExc ''KeyError: address'')
           | Some a \<Rightarrow>
               rbind (require_ipv4_interface a ''network.interfaces.lan.address'') (\<lambda>lan_gateway.
               rbind (case dget lan_input ''gateway_cidr'' of
                        None \<Rightarrow> Inr None
                      | Some v \<Rightarrow> rbind (require_ipv4_interface v ''network.dnsmasq.gateway_cidr'') (\<lambda>g. Inr (Some g))) (\<lambda>dnsmasq_gateway.
               rbind (rguard (dnsmasq_gateway = None \<or> dnsmasq_gateway = Some lan_gateway)
                        (ProvisionError ''network.interfaces.lan.address must match network.dnsmasq.gateway_cidr'')) (\<lambda>u.
               Inr (dset ''gateway_cidr'' (VStr (interface_string lan_gateway)) lan_input)))))
        else Inr lan_input)
   | _ \<Rightarrow> Inr lan_input)"

definition load_network_settings :: "pyval \<Rightarrow> pyval dict res" where
  "load_network_settings network_value =
     rbind (require_mapping (as_table network_value) ''network'') (\<lambda>network.
     rbind (require_mapping (get_or (VDict []) network ''dnsmasq'') ''network.dnsmasq'') (\<lambda>dnsmasq.
     rbind (check_dnsmasq dnsmasq) (\<lambda>u.
     rbind (load_network_interfaces (get_val network ''interfaces'')) (\<lambda>interfaces.
     rbind (lan_gateway_input interfaces (filter (\<lambda>e. fst e \<notin> {''enable'', ''interface''}) dnsmasq)) (\<lambda>lan_input.
     rbind (load_lan_settings (VDict lan_input) ''network.dnsmasq'') (\<lambda>lan_settings.
     rbind (require_mapping (get_or (VDict []) network ''ntp'') ''network.ntp'') (\<lambda>ntp.
     rbind (require_ntp_server_list (get_or (strs default_ntp_servers) ntp ''servers'') ''network.ntp.servers'') (\<lambda>servers.
     Inr (dset ''ntp_servers'' (strs servers) lan_settings)))))))))"

subsection \<open>Inbound firewall\<close>

abbreviation ints :: "int list \<Rightarrow> pyval" where
  "ints xs \<equiv> VList (map VInt xs)"

definition scope_ports :: "pyval dict \<Rightarrow> string \<Rightarrow> string \<Rightarrow> (string \<times> int list) list res" where
  "scope_ports scope path proto = (case dget scope proto of
     None \<Rightarrow> Inr []
   | Some v \<Rightarrow> rbind (require_port_list v (path @ ''.'' @ proto)) (\<lambda>ports.
       Inr (if ports = [] then [] else [(proto, ports)])))"

definition normalize_firewall_scope :: "pyval \<Rightarrow> string \<Rightarrow> (string \<times> int list) list res" where
  "normalize_firewall_scope v path =
     (if v = VNone then Inr []
      else rbind (require_mapping v path) (\<lambda>scope.
        rbind (scope_ports scope path ''tcp'') (\<lambda>tcp.
        rbind (scope_ports scope path ''udp'') (\<lambda>udp. Inr (tcp @ udp)))))"

definition scope_value :: "(string \<times> int list) list \<Rightarrow> pyval" where
  "scope_value scope = VDict (map (\<lambda>(proto, ports). (proto, ints ports)) scope)"

definition load_firewall_inbound :: "pyval \<Rightarrow> pyval dict res" where
  "load_firewall_inbound network_value =
     rbind (require_mapping (as_table network_value) ''network'') (\<lambda>network.
     rbind (require_mapping (get_or (VDict []) network ''firewall'') ''network.firewall'') (\<lambda>firewall.
     rbind (require_mapping (get_or (VDict []) firewall ''inbound'') ''network.firewall.inbound'') (\<lambda>inbound.
     rbind (normalize_firewall_scope (get_val inbound ''wan'') ''network.firewall.inbound.wan'') (\<lambda>wan.
     rbind (rguard (8080 \<notin> set (case dget wan ''tcp'' of None \<Rightarrow> [] | Some ports \<Rightarrow> ports))
              (ProvisionError ''network.firewall.inbound.wan.tcp must not include reserved bootstrap port 8080'')) (\<lambda>u.
     rbind (normalize_firewall_scope (get_val inbound ''lan'') ''network.firewall.inbound.lan'') (\<lambda>lan.
     Inr ((if wan = [] then [] else [(''wan'', scope_value wan)]) @
          (if lan = [] then [] else [(''lan'', scope_value lan)]))))))))"

subsection \<open>Activation policy and the document\<close>

record activation_policy =
  required_units :: "string list"
  timeout_seconds :: int
  settle_seconds :: int
  restart_units :: "string list"
  allow_degraded :: "string list"
  allow_degraded_configured :: bool

definition check_known_units :: "string list \<Rightarrow> string \<Rightarrow> string list \<Rightarrow> unit res" where
  "check_known_units known field units =
     (case find (\<lambda>u. u \<notin> set known) units of
        None \<Rightarrow> Inr ()
      | Some u \<Rightarrow> Inl (ProvisionError (field @ '' references unknown unit: '' @ u)))"

definition load_activation_policy :: "pyval \<Rightarrow> string list \<Rightarrow> activation_policy res" where
  "load_activation_policy v known =
     rbind (require_mapping v ''activation'') (\<lambda>activation.
     rbind (require_string_list (get_val activation ''required'') ''activation.required'') (\<lambda>required.
     rbind (require_optional_string_list (get_val activation ''restart'') ''activation.restart'') (\<lambda>restart.
     rbind (require_optional_string_list (get_val activation ''allow_degraded'') ''activation.allow_degraded'') (\<lambda>degraded.
     rbind (check_known_units known ''activation.required'' required) (\<lambda>u1.
     rbind (check_known_units known ''activation.restart'' restart) (\<lambda>u2.
     rbind (check_known_units known ''activation.allow_degraded'' degraded) (\<lambda>u3.
     rbind (rguard (list_all (\<lambda>u. u \<notin> set degraded) required)
              (ProvisionError ''activation.allow_degraded must not include required units'')) (\<lambda>u4.
     rbind (rguard (get_or (VStr ''rollback'') activation ''strategy'' = VStr ''rollback'')
              (ProvisionError ''activation.strategy must be rollback'')) (\<lambda>u5.
     rbind (require_int_range (get_or (VInt 300) activation ''timeout_seconds'') ''activation.timeout_seconds'' 1 3600) (\<lambda>timeout.
     rbind (require_int_range (get_or (VInt 0) activation ''settle_seconds'') ''activation.settle_seconds'' 0 300) (\<lambda>settle.
     Inr \<lparr>required_units = required, timeout_seconds = timeout, settle_seconds = settle, restart_units = restart,
          allow_degraded = degraded, allow_degraded_configured = has_key activation ''allow_degraded''\<rparr>)))))))))))"

record loaded_config =
  cfg_ssh_keys :: "string list"
  cfg_users :: "pyval dict"
  cfg_firewall_inbound :: "pyval dict"
  cfg_lan_settings :: "pyval dict"
  cfg_host_network :: "pyval dict"
  cfg_os_upgrade :: "string option"
  cfg_activation_policy :: activation_policy
  cfg_containers :: "pyval dict"
  cfg_networks :: pyval
  cfg_volumes :: pyval
  cfg_builds :: pyval

definition load_os_upgrade :: "pyval \<Rightarrow> string option res" where
  "load_os_upgrade v =
     (if v = VNone then Inr None
      else rbind (require_mapping v ''os_upgrade'') (\<lambda>d.
        rbind (require_https_url (get_val d ''server_url'') ''os_upgrade.server_url'') (\<lambda>url. Inr (Some url))))"

definition load_config :: "(pyval \<Rightarrow> unit res) \<Rightarrow> pyval dict \<Rightarrow> loaded_config res" where
  "load_config validate_schema doc =
     rbind (validate_schema (VDict doc)) (\<lambda>u.
     rbind (load_users (get_val doc ''users'')) (\<lambda>(users, ssh_keys).
     rbind (load_firewall_inbound (get_val doc ''network'')) (\<lambda>firewall.
     rbind (load_network_settings (get_val doc ''network'')) (\<lambda>lan_settings.
     rbind (load_host_network_settings (get_val doc ''network'')) (\<lambda>host_network.
     rbind (load_os_upgrade (get_val doc ''os_upgrade'')) (\<lambda>os_upgrade.
     rbind (require_mapping (get_val doc ''containers'') ''containers'') (\<lambda>containers.
     rbind (require_mapping (get_val containers ''container'') ''containers.container'') (\<lambda>container_table.
     rbind (load_activation_policy (get_val doc ''activation'') (dkeys container_table)) (\<lambda>policy.
     Inr \<lparr>cfg_ssh_keys = ssh_keys, cfg_users = users, cfg_firewall_inbound = firewall, cfg_lan_settings = lan_settings,
          cfg_host_network = host_network, cfg_os_upgrade = os_upgrade, cfg_activation_policy = policy,
          cfg_containers = container_table, cfg_networks = get_val containers ''network'',
          cfg_volumes = get_val containers ''volume'', cfg_builds = get_val containers ''build''\<rparr>)))))))))"

section \<open>Theorems\<close>

subsection \<open>LAN settings\<close>

definition dhcp_range_ok :: "ipv4_interface \<Rightarrow> ipv4 \<Rightarrow> ipv4 \<Rightarrow> bool" where
  "dhcp_range_ok gateway dhcp_start dhcp_end =
     (16 \<le> if_prefixlen gateway \<and> if_prefixlen gateway \<le> 30 \<and>
      in_network dhcp_start (if_network gateway) \<and> in_network dhcp_end (if_network gateway) \<and>
      dhcp_start \<le> dhcp_end \<and> \<not> (dhcp_start \<le> if_ip gateway \<and> if_ip gateway \<le> dhcp_end))"

lemma load_dhcp_range_Inr:
  assumes "load_dhcp_range lan path gateway = Inr (dhcp_start, dhcp_end)"
    and "16 \<le> if_prefixlen gateway \<and> if_prefixlen gateway \<le> 30"
  shows "dhcp_range_ok gateway dhcp_start dhcp_end"
  using assms by (auto simp: load_dhcp_range_def dhcp_range_ok_def res_simps split: option.splits)

lemma load_lan_settings_Inr:
  assumes "load_lan_settings v path = Inr s"
  obtains lan gateway dhcp_start dhcp_end domain pattern aliases where
    "s = lan_dict gateway dhcp_start dhcp_end domain pattern aliases" "dhcp_range_ok gateway dhcp_start dhcp_end"
    "dns_name domain" "lan_hostname_pattern lan path = Inr pattern" "lan_gateway_aliases lan path = Inr aliases"
    "require_mapping (if v = VNone then VDict [] else v) path = Inr lan"
    "require_ipv4_interface (get_or (VStr default_lan_gateway_cidr) lan ''gateway_cidr'') (path @ ''.gateway_cidr'') = Inr gateway"
proof -
  obtain lan gateway u dhcp_start dhcp_end domain pattern aliases where
    1: "require_mapping (if v = VNone then VDict [] else v) path = Inr lan"
      "require_ipv4_interface (get_or (VStr default_lan_gateway_cidr) lan ''gateway_cidr'') (path @ ''.gateway_cidr'') = Inr gateway"
    and 2: "16 \<le> if_prefixlen gateway \<and> if_prefixlen gateway \<le> 30" "load_dhcp_range lan path gateway = Inr (dhcp_start, dhcp_end)"
    and 3: "require_dns_name (get_or (VStr default_lan_domain) lan ''domain'') (path @ ''.domain'') = Inr domain"
      "lan_hostname_pattern lan path = Inr pattern" "lan_gateway_aliases lan path = Inr aliases"
      "s = lan_dict gateway dhcp_start dhcp_end domain pattern aliases"
    using assms unfolding load_lan_settings_def rbind_eq_Inr rguard_eq_Inr by (auto simp: res_simps)
  show thesis
    by (rule that [OF 3(4) load_dhcp_range_Inr [OF 2(2,1)] require_dns_name_Inr [OF 3(1)] 3(2,3) 1])
qed

lemma load_network_settings_Inr:
  assumes "load_network_settings v = Inr s"
  obtains network dnsmasq interfaces lan_input lan servers where
    "require_mapping (as_table v) ''network'' = Inr network"
    "load_network_interfaces (get_val network ''interfaces'') = Inr interfaces"
    "lan_gateway_input interfaces (filter (\<lambda>e. fst e \<notin> {''enable'', ''interface''}) dnsmasq) = Inr lan_input"
    "load_lan_settings (VDict lan_input) ''network.dnsmasq'' = Inr lan"
    "\<exists>w. require_ntp_server_list w ''network.ntp.servers'' = Inr servers"
    "s = dset ''ntp_servers'' (strs servers) lan"
  using assms unfolding load_network_settings_def rbind_eq_Inr
  by (elim exE conjE) (rule that, (assumption | blast | simp)+)

subsection \<open>Interfaces\<close>

text \<open>The normalized form of an interface, with its optional entries.\<close>

definition interface_dict ::
  "string \<Rightarrow> string option \<Rightarrow> string option \<Rightarrow> string list option \<Rightarrow> string list option \<Rightarrow> pyval dict" where
  "interface_dict mode address gateway dns domains =
     [(''mode'', VStr mode)] @
     (case address of None \<Rightarrow> [] | Some a \<Rightarrow> [(''address'', VStr a)]) @
     (case gateway of None \<Rightarrow> [] | Some g \<Rightarrow> [(''gateway'', VStr g)]) @
     (case dns of None \<Rightarrow> [] | Some xs \<Rightarrow> [(''dns_servers'', strs xs)]) @
     (case domains of None \<Rightarrow> [] | Some xs \<Rightarrow> [(''dns_search_domains'', strs xs)])"

definition normal_ip :: "string \<Rightarrow> bool" where
  "normal_ip x = (x \<noteq> [] \<and> (\<exists>a. ip_address x = Some a \<and> x = ip_string a))"

definition normal_interface ::
  "string \<Rightarrow> string \<Rightarrow> string option \<Rightarrow> string option \<Rightarrow> string list option \<Rightarrow> string list option \<Rightarrow> bool" where
  "normal_interface name mode address gateway dns domains =
     (supported_interface name \<and> mode \<in> {''dhcp'', ''static''} \<and> (name = ''lan'' \<longrightarrow> mode = ''static'') \<and>
      (if mode = ''static'' then \<exists>i. if_prefixlen i \<le> 32 \<and> address = Some (interface_string i) else address = None) \<and>
      (\<forall>g. gateway = Some g \<longrightarrow> (\<exists>w. g = ipv4_string w)) \<and>
      (\<forall>xs. dns = Some xs \<longrightarrow> list_all normal_ip xs) \<and> (\<forall>xs. domains = Some xs \<longrightarrow> list_all dns_name xs))"

lemma optional_entry_Inr:
  assumes "optional_entry d k (\<lambda>v. rbind (f v) (\<lambda>x. Inr (h x))) = Inr e"
  shows "\<exists>val. e = (case val of None \<Rightarrow> [] | Some x \<Rightarrow> [(k, h x)]) \<and> (\<forall>x. val = Some x \<longrightarrow> (\<exists>v. f v = Inr x))"
proof (cases "dget d k")
  case None
  then show ?thesis using assms by (intro exI [of _ None]) (simp add: optional_entry_def)
next
  case (Some v)
  then obtain x where "f v = Inr x" "e = [(k, h x)]" using assms by (auto simp: optional_entry_def res_simps)
  then show ?thesis by (intro exI [of _ "Some x"]) auto
qed

lemma interface_address_Inr:
  assumes "interface_address path mode d = Inr e"
  shows "\<exists>address. e = (case address of None \<Rightarrow> [] | Some a \<Rightarrow> [(''address'', VStr a)]) \<and>
    (if mode = ''static'' then \<exists>i. if_prefixlen i \<le> 32 \<and> address = Some (interface_string i) else address = None)"
proof (cases "mode = ''static''")
  case True
  then obtain v i where "require_ipv4_interface v (path @ ''.address'') = Inr i" "e = [(''address'', VStr (interface_string i))]"
    using assms by (auto simp: interface_address_def res_simps split: option.splits)
  then show ?thesis using True require_ipv4_interface_Inr by (intro exI [of _ "Some (interface_string i)"]) auto
next
  case False
  then show ?thesis using assms by (intro exI [of _ None]) (auto simp: interface_address_def split: if_splits)
qed

lemma ip_address_list_normal: "require_ip_address_list v path = Inr xs \<Longrightarrow> list_all normal_ip xs"
  unfolding list_all_iff normal_ip_def using require_ip_address_list_Inr by metis

lemma dns_search_domains_names: "require_dns_search_domains v path = Inr xs \<Longrightarrow> list_all dns_name xs"
  unfolding list_all_iff using require_dns_search_domains_Inr by metis

lemma load_interface_Inr:
  assumes "load_interface e = Inr (name, v)"
  obtains mode address gateway dns domains where
    "v = VDict (interface_dict mode address gateway dns domains)" "normal_interface name mode address gateway dns domains"
proof -
  obtain interface path mode a g n s where
    name: "name = fst e" "validate_interface_name (fst e) = Inr name" and
    mode: "mode \<in> {''dhcp'', ''static''}" "name \<noteq> ''lan'' \<or> mode = ''static''" and
    a: "interface_address path mode interface = Inr a" and
    g: "optional_entry interface ''gateway'' (\<lambda>v. rbind (require_ipv4_address v (path @ ''.gateway'')) (\<lambda>g. Inr (VStr g))) = Inr g" and
    n: "optional_entry interface ''dns_servers'' (\<lambda>v. rbind (require_ip_address_list v (path @ ''.dns_servers'')) (\<lambda>xs. Inr (strs xs))) = Inr n" and
    s: "optional_entry interface ''dns_search_domains''
              (\<lambda>v. rbind (require_dns_search_domains v (path @ ''.dns_search_domains'')) (\<lambda>xs. Inr (strs xs))) = Inr s" and
    v: "v = VDict ([(''mode'', VStr mode)] @ a @ g @ n @ s)"
    using assms unfolding load_interface_def Let_def rbind_eq_Inr rguard_eq_Inr
    by (elim exE conjE) (rule that, (assumption | simp add: validate_interface_name_def split: if_splits)+)
  obtain address where a': "a = (case address of None \<Rightarrow> [] | Some a \<Rightarrow> [(''address'', VStr a)])"
    "if mode = ''static'' then \<exists>i. if_prefixlen i \<le> 32 \<and> address = Some (interface_string i) else address = None"
    using interface_address_Inr [OF a] by blast
  obtain gateway where g': "g = (case gateway of None \<Rightarrow> [] | Some g \<Rightarrow> [(''gateway'', VStr g)])"
    "\<forall>g. gateway = Some g \<longrightarrow> (\<exists>w. g = ipv4_string w)"
    using optional_entry_Inr [OF g] require_ipv4_address_Inr by blast
  obtain dns where n': "n = (case dns of None \<Rightarrow> [] | Some xs \<Rightarrow> [(''dns_servers'', strs xs)])"
    "\<forall>xs. dns = Some xs \<longrightarrow> list_all normal_ip xs"
    using optional_entry_Inr [OF n] ip_address_list_normal by blast
  obtain domains where s': "s = (case domains of None \<Rightarrow> [] | Some xs \<Rightarrow> [(''dns_search_domains'', strs xs)])"
    "\<forall>xs. domains = Some xs \<longrightarrow> list_all dns_name xs"
    using optional_entry_Inr [OF s] dns_search_domains_names by blast
  show thesis
    by (rule that [of mode address gateway dns domains])
      (use v a' g' n' s' name mode in \<open>auto simp: interface_dict_def normal_interface_def validate_interface_name_def split: if_splits\<close>)
qed

definition host_dict :: "string list \<Rightarrow> string list \<Rightarrow> pyval dict \<Rightarrow> string option \<Rightarrow> pyval dict" where
  "host_dict dns domains interfaces gateway =
     [(''dns_servers'', strs dns), (''dns_search_domains'', strs domains), (''interfaces'', VDict interfaces)] @
     (case gateway of None \<Rightarrow> [] | Some g \<Rightarrow> [(''default_gateway'', VStr g)])"

lemma load_host_network_settings_Inr:
  assumes "load_host_network_settings v = Inr h"
  obtains network dns domains interfaces gateway where
    "require_mapping (as_table v) ''network'' = Inr network" "list_all normal_ip dns" "list_all dns_name domains"
    "load_network_interfaces (get_val network ''interfaces'') = Inr interfaces"
    "\<forall>g. gateway = Some g \<longrightarrow> (\<exists>w. g = ipv4_string w)" "h = host_dict dns domains interfaces gateway"
proof -
  obtain network dns domains interfaces g where
    a: "require_mapping (as_table v) ''network'' = Inr network"
      "load_network_interfaces (get_val network ''interfaces'') = Inr interfaces" and
    b: "(case dget network ''dns_servers'' of None \<Rightarrow> Inr [] | Some v \<Rightarrow> require_ip_address_list v ''network.dns_servers'') = Inr dns"
      "(case dget network ''dns_search_domains'' of None \<Rightarrow> Inr [] | Some v \<Rightarrow> require_dns_search_domains v ''network.dns_search_domains'') = Inr domains" and
    g: "optional_entry network ''default_gateway''
              (\<lambda>v. rbind (require_ipv4_address v ''network.default_gateway'') (\<lambda>g. Inr (VStr g))) = Inr g" and
    h: "h = [(''dns_servers'', strs dns), (''dns_search_domains'', strs domains), (''interfaces'', VDict interfaces)] @ g"
    using assms unfolding load_host_network_settings_def rbind_eq_Inr by (elim exE conjE) (rule that, (assumption | simp)+)
  have "list_all normal_ip dns" "list_all dns_name domains"
    using b by (auto split: option.splits intro: ip_address_list_normal dns_search_domains_names)
  moreover obtain gateway where "g = (case gateway of None \<Rightarrow> [] | Some g \<Rightarrow> [(''default_gateway'', VStr g)])"
    "\<forall>g. gateway = Some g \<longrightarrow> (\<exists>w. g = ipv4_string w)"
    using optional_entry_Inr [OF g] require_ipv4_address_Inr by blast
  ultimately show thesis using that a h by (simp add: host_dict_def)
qed

lemma load_network_interfaces_entry:
  assumes "load_network_interfaces v = Inr interfaces" "(name, x) \<in> set interfaces"
  shows "\<exists>e. load_interface e = Inr (name, x)"
  using assms by (auto simp: load_network_interfaces_def res_simps split: if_splits dest!: rmap_set)

lemma host_interfaces_lookup:
  assumes "load_host_network_settings v = Inr h" "require_mapping (as_table v) ''network'' = Inr network"
    "load_network_interfaces (get_val network ''interfaces'') = Inr interfaces"
  shows "dget h ''interfaces'' = Some (VDict interfaces)"
  using assms by (elim load_host_network_settings_Inr) (simp add: host_dict_def)

end
