(* ===== verification/Lan_Gateway.thy ===== *)
theory Lan_Gateway
  imports Config_Sections
begin

text \<open>
  \<^verbatim>\<open>scripts/lan-gateway-apply.py\<close>: the boot-time script that validates the stored LAN and host
  network settings again, renders the dnsmasq, chrony, hosts and networkd files, and restarts what
  changed.

  The files the script writes are a dict from path to text, the environment variables and default
  paths a record, and the commands it runs a log; whether a command succeeds is a parameter, as is the
  text of \<^verbatim>\<open>/sys/class/net/<interface>/address\<close>. Temporary files and modes are not represented.
\<close>

section \<open>Definitions\<close>

subsection \<open>Inputs\<close>

record lan_env =
  dnsmasq_config_file :: string
  dnsmasq_hosts_file :: string
  chrony_lan_file :: string
  bootstrap_socket_override :: string
  bootstrap_transport :: string
  network_file :: string
  host_network_config_dir :: string
  wan_network_dropin :: string
  etc_hosts_file :: string
  wan_interface :: string
  lan_interface :: string

definition load_json_object :: "json_file \<Rightarrow> string \<Rightarrow> pyval dict res" where
  "load_json_object f name = (case f of
     Json (VDict d) \<Rightarrow> Inr d
   | Json v \<Rightarrow> Inl (ValueErr (name @ '' must contain a JSON object''))
   | NotJson \<Rightarrow> Inl (ValueErr (''invalid JSON in '' @ name))
   | _ \<Rightarrow> Inl (ValueErr (''unable to read '' @ name)))"

definition validate_dns_name :: "string \<Rightarrow> string \<Rightarrow> string res" where
  "validate_dns_name v key =
     (if length v > 253 \<or> list_ex (\<lambda>l. \<not> dns_label l) (split_on (CHR ''.'') v)
      then Inl (ValueErr (key @ '' must be a valid DNS name'')) else Inr v)"

definition parse_or :: "('a \<Rightarrow> 'b option) \<Rightarrow> string \<Rightarrow> 'a \<Rightarrow> 'b res" where
  "parse_or f msg v = (case f v of None \<Rightarrow> Inl (ValueErr msg) | Some x \<Rightarrow> Inr x)"

definition parse_ipv4_interface :: "string \<Rightarrow> string \<Rightarrow> ipv4_interface res" where
  "parse_ipv4_interface v key = parse_or interface_of_string (key @ '' must be a valid IPv4 interface'') v"

definition parse_ipv4_address :: "string \<Rightarrow> string \<Rightarrow> ipv4 res" where
  "parse_ipv4_address v key = parse_or ipv4_of_string (key @ '' must be a valid IPv4 address'') v"

definition parse_ipv4_network :: "string \<Rightarrow> string \<Rightarrow> ipv4_network res" where
  "parse_ipv4_network v key = parse_or network_of_string (key @ '' must be a valid IPv4 network'') v"

definition parse_ip_address :: "string \<Rightarrow> string \<Rightarrow> ip_addr res" where
  "parse_ip_address v key = parse_or ip_address (key @ '' must be a valid IP address'') v"

subsection \<open>LAN settings\<close>

definition required_string_fields :: "string list" where
  "required_string_fields = [''gateway_cidr'', ''gateway_ip'', ''subnet_cidr'', ''netmask'', ''dhcp_start'', ''dhcp_end'', ''domain'']"

definition payload_string :: "pyval dict \<Rightarrow> string \<Rightarrow> string res" where
  "payload_string payload key = (case dget payload key of
     None \<Rightarrow> Inl (ValueErr (''missing required key '' @ key))
   | Some (VStr s) \<Rightarrow> (if s = [] then Inl (ValueErr (key @ '' must be a non-empty string'')) else Inr s)
   | Some v \<Rightarrow> Inl (ValueErr (key @ '' must be a non-empty string'')))"

definition optional_string :: "pyval dict \<Rightarrow> string \<Rightarrow> string res" where
  "optional_string payload key = (case get_or (VStr []) payload key of
     VStr s \<Rightarrow> Inr s | v \<Rightarrow> Inl (ValueErr (key @ '' must be a string'')))"

text \<open>A list of non-empty strings.\<close>

fun string_items :: "pyval list \<Rightarrow> string list option" where
  "string_items [] = Some []"
| "string_items (VStr s # xs) = (if s = [] then None else map_option ((#) s) (string_items xs))"
| "string_items (v # xs) = None"

definition string_list_of :: "string \<Rightarrow> pyval \<Rightarrow> string list res" where
  "string_list_of key v = (case v of
     VList xs \<Rightarrow> (case string_items xs of
        None \<Rightarrow> Inl (ValueErr (key @ '' must be a list of non-empty strings'')) | Some ss \<Rightarrow> Inr ss)
   | _ \<Rightarrow> Inl (ValueErr (key @ '' must be a list of non-empty strings'')))"

definition gateway_aliases :: "pyval dict \<Rightarrow> string list res" where
  "gateway_aliases payload = string_list_of ''gateway_aliases'' (get_or (VList []) payload ''gateway_aliases'')"

definition check_server :: "string \<Rightarrow> unit res" where
  "check_server server =
     (if list_ex space_or_control server
      then Inl (ValueErr ''ntp_servers must not contain whitespace or control characters'')
      else case ip_address server of
        Some a \<Rightarrow> Inr ()
      | None \<Rightarrow> rbind (validate_dns_name server ''ntp_servers'') (\<lambda>v. Inr ()))"

definition ntp_servers :: "pyval dict \<Rightarrow> string list res" where
  "ntp_servers payload =
     rbind (string_list_of ''ntp_servers'' (get_or (strs default_ntp_servers) payload ''ntp_servers'')) (\<lambda>servers.
     rbind (rmap check_server servers) (\<lambda>u. Inr servers))"

record lan_settings =
  l_gateway :: ipv4_interface
  l_gateway_ip :: ipv4
  l_subnet :: ipv4_network
  l_netmask :: string
  l_dhcp_start :: ipv4
  l_dhcp_end :: ipv4
  l_domain :: string
  l_hostname_pattern :: string
  l_gateway_aliases :: "string list"
  l_ntp_servers :: "string list"

definition check_pattern :: "string \<Rightarrow> unit res" where
  "check_pattern pattern =
     (if pattern = [] then Inr ()
      else if \<not> contains ''{mac}'' pattern then Inl (ValueErr ''hostname_pattern must include {mac}'')
      else rbind (validate_dns_name (mac_probe pattern) ''hostname_pattern'') (\<lambda>v. Inr ()))"

text \<open>The values of the payload, parsed, in the order of the code.\<close>

definition parse_settings :: "pyval dict \<Rightarrow> lan_settings res" where
  "parse_settings payload =
     rbind (rmap (payload_string payload) required_string_fields) (\<lambda>fields.
     rbind (optional_string payload ''hostname_pattern'') (\<lambda>pattern.
     rbind (gateway_aliases payload) (\<lambda>alias_names.
     rbind (ntp_servers payload) (\<lambda>servers.
     rbind (parse_ipv4_interface (fields ! 0) ''gateway_cidr'') (\<lambda>gateway.
     rbind (parse_ipv4_address (fields ! 1) ''gateway_ip'') (\<lambda>gateway_ip.
     rbind (parse_ipv4_network (fields ! 2) ''subnet_cidr'') (\<lambda>subnet.
     rbind (parse_ipv4_address (fields ! 4) ''dhcp_start'') (\<lambda>dhcp_start.
     rbind (parse_ipv4_address (fields ! 5) ''dhcp_end'') (\<lambda>dhcp_end.
     rbind (parse_ipv4_network (''0.0.0.0/'' @ fields ! 3) ''netmask'') (\<lambda>mask_net.
     rbind (validate_dns_name (fields ! 6) ''domain'') (\<lambda>domain.
     rbind (check_pattern pattern) (\<lambda>u.
     rbind (rmap (\<lambda>a. validate_dns_name a ''gateway_aliases'') alias_names) (\<lambda>aliases.
     Inr \<lparr>l_gateway = gateway, l_gateway_ip = gateway_ip, l_subnet = subnet, l_netmask = fields ! 3,
          l_dhcp_start = dhcp_start, l_dhcp_end = dhcp_end, l_domain = domain, l_hostname_pattern = pattern,
          l_gateway_aliases = aliases, l_ntp_servers = servers\<rparr>)))))))))))))"

definition check_settings :: "lan_settings \<Rightarrow> unit res" where
  "check_settings s =
     rbind (rguard (if_ip (l_gateway s) = l_gateway_ip s) (ValueErr ''gateway_ip must match gateway_cidr'')) (\<lambda>u1.
     rbind (rguard (if_network (l_gateway s) = l_subnet s) (ValueErr ''subnet_cidr must match gateway_cidr'')) (\<lambda>u2.
     rbind (rguard (ipv4_string (if_netmask (l_gateway s)) = l_netmask s) (ValueErr ''netmask must match gateway_cidr'')) (\<lambda>u3.
     rbind (rguard (in_network (l_dhcp_start s) (l_subnet s) \<and> in_network (l_dhcp_end s) (l_subnet s))
              (ValueErr ''dhcp_start and dhcp_end must be inside subnet_cidr'')) (\<lambda>u4.
     rbind (rguard (l_dhcp_start s \<le> l_dhcp_end s) (ValueErr ''dhcp_start must be less than or equal to dhcp_end'')) (\<lambda>u5.
     rguard (\<not> (l_dhcp_start s \<le> l_gateway_ip s \<and> l_gateway_ip s \<le> l_dhcp_end s))
       (ValueErr ''dhcp_start and dhcp_end must not include gateway_ip''))))))"

text \<open>The normalized payload; keys that were absent are added.\<close>

definition settings_payload :: "lan_settings \<Rightarrow> pyval dict \<Rightarrow> pyval dict" where
  "settings_payload s payload =
     (let p1 = dset ''hostname_pattern'' (VStr (l_hostname_pattern s)) payload;
          p2 = dset ''gateway_aliases'' (strs (l_gateway_aliases s)) p1;
          p3 = dset ''ntp_servers'' (strs (l_ntp_servers s)) p2;
          p4 = dset ''gateway_cidr'' (VStr (interface_string (l_gateway s))) p3;
          p5 = dset ''gateway_ip'' (VStr (ipv4_string (l_gateway_ip s))) p4;
          p6 = dset ''subnet_cidr'' (VStr (network_string (l_subnet s))) p5;
          p7 = dset ''netmask'' (VStr (ipv4_string (if_netmask (l_gateway s)))) p6;
          p8 = dset ''dhcp_start'' (VStr (ipv4_string (l_dhcp_start s))) p7;
          p9 = dset ''dhcp_end'' (VStr (ipv4_string (l_dhcp_end s))) p8 in
      dset ''domain'' (VStr (l_domain s)) p9)"

definition load_settings :: "json_file \<Rightarrow> (lan_settings \<times> pyval dict) res" where
  "load_settings f =
     rbind (load_json_object f ''lan-settings.json'') (\<lambda>payload.
     rbind (parse_settings payload) (\<lambda>s.
     rbind (check_settings s) (\<lambda>u. Inr (s, settings_payload s payload))))"

subsection \<open>Host network settings\<close>

record host_interface =
  hi_mode :: string
  hi_address :: "string option"
  hi_gateway :: "string option"
  hi_dns_servers :: "string list option"
  hi_dns_search_domains :: "string list option"

record host_settings =
  hs_dns_servers :: "string list"
  hs_dns_search_domains :: "string list"
  hs_default_gateway :: "string option"
  hs_interfaces :: "host_interface dict"

definition require_host_keys :: "pyval dict \<Rightarrow> string list \<Rightarrow> string \<Rightarrow> unit res" where
  "require_host_keys payload allowed path =
     rguard (list_all (\<lambda>k. k \<in> set allowed) (dkeys payload)) (ValueErr (''unsupported keys at '' @ path))"

definition require_host_string :: "pyval dict \<Rightarrow> string \<Rightarrow> string res" where
  "require_host_string payload key = (case get_val payload key of
     VStr s \<Rightarrow> (if s = [] then Inl (ValueErr (key @ '' must be a non-empty string'')) else Inr s)
   | _ \<Rightarrow> Inl (ValueErr (key @ '' must be a non-empty string'')))"

definition host_string_list :: "pyval dict \<Rightarrow> string \<Rightarrow> string list res" where
  "host_string_list payload key = string_list_of key (get_or (VList []) payload key)"

definition normalize_ip :: "string \<Rightarrow> string \<Rightarrow> string res" where
  "normalize_ip key v = rbind (parse_ip_address v key) (\<lambda>a. Inr (ip_string a))"

definition host_ip_list :: "pyval dict \<Rightarrow> string \<Rightarrow> string list res" where
  "host_ip_list payload key = rbind (host_string_list payload key) (\<lambda>vs. rmap (normalize_ip key) vs)"

definition host_search_domains :: "pyval dict \<Rightarrow> string \<Rightarrow> string list res" where
  "host_search_domains payload key = rbind (host_string_list payload key) (\<lambda>vs. rmap (\<lambda>v. validate_dns_name v key) vs)"

text \<open>The value of a key that is checked only when it is present.\<close>

definition when_present :: "pyval dict \<Rightarrow> string \<Rightarrow> 'a res \<Rightarrow> 'a option res" where
  "when_present payload key m = (if has_key payload key then rbind m (\<lambda>x. Inr (Some x)) else Inr None)"

definition host_ipv4 :: "pyval dict \<Rightarrow> string \<Rightarrow> string res" where
  "host_ipv4 payload key =
     rbind (require_host_string payload key) (\<lambda>v. rbind (parse_ipv4_address v key) (\<lambda>w. Inr (ipv4_string w)))"

definition host_interface_address :: "pyval dict \<Rightarrow> string \<Rightarrow> string \<Rightarrow> string option res" where
  "host_interface_address interface path mode =
     (if mode = ''static'' then
        rbind (require_host_string interface ''address'') (\<lambda>v.
        rbind (parse_ipv4_interface v (path @ ''.address'')) (\<lambda>i. Inr (Some (interface_string i))))
      else if has_key interface ''address'' then Inl (ValueErr (path @ ''.address is only supported for static mode''))
      else Inr None)"

definition host_interface_entry :: "lan_env \<Rightarrow> string \<times> pyval \<Rightarrow> (string \<times> host_interface) res" where
  "host_interface_entry env e = (let name = fst e; path = ''interfaces.'' @ name in
     rbind (rguard (supported_interface name) (ValueErr ''unsupported interface name'')) (\<lambda>u1.
     rbind (rguard (\<not> (name \<in> {wan_interface env, lan_interface env} \<and> name \<notin> {''wan'', ''lan''}))
              (ValueErr (path @ '' is the WAN or LAN interface; configure it as wan or lan''))) (\<lambda>u2.
     rbind (case snd e of VDict d \<Rightarrow> Inr d | _ \<Rightarrow> Inl (ValueErr (path @ '' must be an object''))) (\<lambda>interface.
     rbind (require_host_keys interface [''mode'', ''address'', ''gateway'', ''dns_servers'', ''dns_search_domains''] path) (\<lambda>u3.
     rbind (require_host_string interface ''mode'') (\<lambda>mode.
     rbind (rguard (mode \<in> {''dhcp'', ''static''}) (ValueErr (path @ ''.mode must be dhcp or static''))) (\<lambda>u4.
     rbind (rguard (name \<noteq> ''lan'' \<or> mode = ''static'') (ValueErr (path @ ''.mode must be static because it is the LAN gateway''))) (\<lambda>u5.
     rbind (host_interface_address interface path mode) (\<lambda>address.
     rbind (when_present interface ''gateway'' (host_ipv4 interface ''gateway'')) (\<lambda>gateway.
     rbind (when_present interface ''dns_servers'' (host_ip_list interface ''dns_servers'')) (\<lambda>dns.
     rbind (when_present interface ''dns_search_domains'' (host_search_domains interface ''dns_search_domains'')) (\<lambda>domains.
     Inr (name, \<lparr>hi_mode = mode, hi_address = address, hi_gateway = gateway, hi_dns_servers = dns,
                 hi_dns_search_domains = domains\<rparr>)))))))))))))"

definition load_host_settings :: "lan_env \<Rightarrow> json_file \<Rightarrow> host_settings res" where
  "load_host_settings env f =
     (if f = Absent then Inr \<lparr>hs_dns_servers = [], hs_dns_search_domains = [], hs_default_gateway = None, hs_interfaces = []\<rparr>
      else rbind (load_json_object f ''host-network.json'') (\<lambda>payload.
        rbind (require_host_keys payload [''dns_servers'', ''dns_search_domains'', ''default_gateway'', ''interfaces''] ''host-network'') (\<lambda>u.
        rbind (host_ip_list payload ''dns_servers'') (\<lambda>dns.
        rbind (host_search_domains payload ''dns_search_domains'') (\<lambda>domains.
        rbind (when_present payload ''default_gateway'' (host_ipv4 payload ''default_gateway'')) (\<lambda>gateway.
        rbind (case get_or (VDict []) payload ''interfaces'' of
                 VDict d \<Rightarrow> Inr d | _ \<Rightarrow> Inl (ValueErr ''interfaces must be an object'')) (\<lambda>interfaces.
        rbind (rmap (host_interface_entry env) interfaces) (\<lambda>entries.
        Inr \<lparr>hs_dns_servers = dns, hs_dns_search_domains = domains, hs_default_gateway = gateway,
             hs_interfaces = entries\<rparr>))))))))"

subsection \<open>Rendering\<close>

abbreviation nl :: string where "nl \<equiv> [CHR 0x0A]"

definition network_config_path :: "lan_env \<Rightarrow> string \<Rightarrow> string" where
  "network_config_path env interface =
     (if interface = ''wan'' then wan_network_dropin env
      else if interface = ''lan'' then network_file env
      else host_network_config_dir env @ ''/30-atomixos-'' @ interface @ ''.network'')"

definition or_default :: "'a list option \<Rightarrow> bool \<Rightarrow> 'a list \<Rightarrow> 'a list" where
  "or_default v use_default d = (case v of
     None \<Rightarrow> (if use_default then d else [])
   | Some xs \<Rightarrow> (if xs = [] \<and> use_default then d else xs))"

definition render_interface_network ::
  "string \<Rightarrow> host_interface \<Rightarrow> host_settings \<Rightarrow> string \<Rightarrow> string res" where
  "render_interface_network interface settings host lan_gateway_cidr =
     (let wan = (interface = ''wan''); dhcp = (hi_mode settings = ''dhcp'');
          address = (case hi_address settings of None \<Rightarrow> [] | Some a \<Rightarrow> a);
          gateway = or_default (hi_gateway settings) wan (case hs_default_gateway host of None \<Rightarrow> [] | Some g \<Rightarrow> g);
          dns = or_default (hi_dns_servers settings) wan (hs_dns_servers host);
          domains = or_default (hi_dns_search_domains settings) wan (hs_dns_search_domains host);
          dhcp_lines = (if gateway \<noteq> [] \<and> dhcp then [''UseRoutes=false''] else []) @
                       (if dns \<noteq> [] \<and> dhcp then [''UseDNS=false''] else []) in
      if \<not> dhcp \<and> interface = ''lan'' \<and> address \<noteq> lan_gateway_cidr
      then Inl (ValueErr (''interfaces.'' @ interface @ ''.address must match gateway_cidr''))
      else Inr (join nl
        ((if wan \<or> interface = ''lan'' then [] else [''[Match]'', ''Name='' @ interface, '''']) @
         [''[Network]''] @
         (if dhcp then [''DHCP=ipv4'', ''IPv6AcceptRA=false'']
          else [''Address='' @ address, ''DHCP=no'', ''IPv6AcceptRA=false'']) @
         (if gateway = [] then [] else [''Gateway='' @ gateway]) @
         map (\<lambda>s. ''DNS='' @ s) dns @
         (if domains = [] then [] else [''Domains='' @ join '' '' domains]) @
         (if dhcp_lines = [] then [] else ['''', ''[DHCPv4]''] @ dhcp_lines)) @ nl))"

definition planned_interfaces :: "host_settings \<Rightarrow> host_interface dict" where
  "planned_interfaces host =
     (if ((case hs_default_gateway host of None \<Rightarrow> [] | Some g \<Rightarrow> g) \<noteq> [] \<or> hs_dns_servers host \<noteq> [] \<or>
          hs_dns_search_domains host \<noteq> []) \<and> \<not> has_key (hs_interfaces host) ''wan''
      then (''wan'', \<lparr>hi_mode = ''dhcp'', hi_address = None, hi_gateway = None, hi_dns_servers = None,
              hi_dns_search_domains = None\<rparr>) # hs_interfaces host
      else hs_interfaces host)"

fun plan_interfaces :: "lan_env \<Rightarrow> host_settings \<Rightarrow> string \<Rightarrow> host_interface dict \<Rightarrow> string dict \<Rightarrow> string dict res" where
  "plan_interfaces env host cidr [] planned = Inr planned"
| "plan_interfaces env host cidr ((name, settings) # rest) planned =
     rbind (render_interface_network name settings host cidr) (\<lambda>content.
     plan_interfaces env host cidr rest (dset (network_config_path env name) content planned))"

definition plan_host_network_settings :: "lan_env \<Rightarrow> host_settings \<Rightarrow> string \<Rightarrow> string dict res" where
  "plan_host_network_settings env host cidr = plan_interfaces env host cidr (planned_interfaces host) []"

subsection \<open>Applying\<close>

record lan_state =
  files :: "string dict"
  commands :: "string list list"

definition replace_file :: "string \<Rightarrow> string \<Rightarrow> string dict \<Rightarrow> bool \<times> string dict" where
  "replace_file path content fs =
     (if dget fs path = Some content then (False, fs) else (True, dset path content fs))"

fun replace_files :: "string dict \<Rightarrow> string dict \<Rightarrow> bool \<times> string dict" where
  "replace_files [] fs = (False, fs)"
| "replace_files ((path, content) # rest) fs =
     (case replace_file path content fs of (c1, fs1) \<Rightarrow>
      case replace_files rest fs1 of (c2, fs2) \<Rightarrow> (c1 \<or> c2, fs2))"

text \<open>Files of the configuration directory that match \<^verbatim>\<open>30-atomixos-eth*.network\<close>.\<close>

definition generated_network_file :: "lan_env \<Rightarrow> string \<Rightarrow> bool" where
  "generated_network_file env path =
     (let dir = host_network_config_dir env @ ''/'' in
      starts_with dir path \<and>
      (let name = drop (length dir) path in
       CHR ''/'' \<notin> set name \<and> starts_with ''30-atomixos-eth'' name \<and> ends_with ''.network'' name \<and>
       length name \<ge> length ''30-atomixos-eth'' + length ''.network''))"

definition stale_file :: "lan_env \<Rightarrow> string dict \<Rightarrow> string \<Rightarrow> bool" where
  "stale_file env planned p = (\<not> has_key planned p \<and> (p = wan_network_dropin env \<or> generated_network_file env p))"

definition apply_planned_host_network_settings :: "lan_env \<Rightarrow> string dict \<Rightarrow> string dict \<Rightarrow> bool \<times> string dict" where
  "apply_planned_host_network_settings env planned fs =
     (case replace_files planned fs of (c1, fs1) \<Rightarrow>
      (c1 \<or> list_ex (stale_file env planned) (dkeys fs1), filter (\<lambda>e. \<not> stale_file env planned (fst e)) fs1))"

definition read_mac_suffix :: "(string \<Rightarrow> string option) \<Rightarrow> string \<Rightarrow> string" where
  "read_mac_suffix address_of interface = (case address_of interface of
     None \<Rightarrow> []
   | Some raw \<Rightarrow>
       (let octets = split_on (CHR '':'') (lower (strip raw)) in
        if length octets \<noteq> 6 \<or> list_ex (\<lambda>x. length x \<noteq> 2) octets \<or>
           list_ex (list_ex (\<lambda>c. c \<notin> set ''0123456789abcdef'')) octets
        then [] else concat octets))"

definition host_names :: "string \<Rightarrow> string \<Rightarrow> string list" where
  "host_names alias domain =
     dict_fromkeys (if CHR ''.'' \<in> set alias then [alias] else [alias, alias @ ''.'' @ domain])"

definition gateway_marker :: string where "gateway_marker = ''# ATOMIXOS_LAN_GATEWAY''"

definition kept_hosts :: "string option \<Rightarrow> string list" where
  "kept_hosts old = (case old of
     None \<Rightarrow> []
   | Some t \<Rightarrow> rev (dropWhile (\<lambda>l. l = []) (rev (filter (\<lambda>l. \<not> contains gateway_marker l) (splitlines t)))))"

definition gateway_line :: "string \<Rightarrow> string \<Rightarrow> string \<Rightarrow> string" where
  "gateway_line gateway_ip domain alias = gateway_ip @ '' '' @ join '' '' (host_names alias domain)"

definition etc_hosts_text :: "string option \<Rightarrow> string \<Rightarrow> string \<Rightarrow> string list \<Rightarrow> string" where
  "etc_hosts_text old gateway_ip domain names =
     join nl (kept_hosts old @ map (\<lambda>a. gateway_line gateway_ip domain a @ '' '' @ gateway_marker) names) @ nl"

definition resolved_names :: "(string \<Rightarrow> string option) \<Rightarrow> lan_env \<Rightarrow> lan_settings \<Rightarrow> string list" where
  "resolved_names address_of env s =
     (let mac = read_mac_suffix address_of (lan_interface env) in
      dict_fromkeys (filter (\<lambda>n. n \<noteq> [])
        ((if l_hostname_pattern s \<noteq> [] \<and> mac \<noteq> [] then [replace ''{mac}'' mac (l_hostname_pattern s)] else []) @
         l_gateway_aliases s)))"

definition dnsmasq_text :: "lan_env \<Rightarrow> lan_settings \<Rightarrow> string" where
  "dnsmasq_text env s = (let ip = ipv4_string (l_gateway_ip s) in
     ''dhcp-range='' @ ipv4_string (l_dhcp_start s) @ '','' @ ipv4_string (l_dhcp_end s) @ '','' @
       ipv4_string (if_netmask (l_gateway s)) @ '',24h'' @ nl @
     ''dhcp-option=3,'' @ ip @ nl @ ''dhcp-option=6,'' @ ip @ nl @ ''dhcp-option=42,'' @ ip @ nl @
     ''domain='' @ l_domain s @ nl @ ''expand-hosts'' @ nl @ ''addn-hosts='' @ dnsmasq_hosts_file env @ nl @
     ''local=/'' @ l_domain s @ ''/'' @ nl @ ''log-dhcp'' @ nl)"

definition dnsmasq_hosts_text :: "lan_settings \<Rightarrow> string list \<Rightarrow> string" where
  "dnsmasq_hosts_text s names =
     join nl (map (gateway_line (ipv4_string (l_gateway_ip s)) (l_domain s)) names) @ (if names = [] then [] else nl)"

definition chrony_text :: "lan_settings \<Rightarrow> string" where
  "chrony_text s = ''# Managed by lan-gateway-apply'' @ nl @
     concat (map (\<lambda>srv. ''server '' @ srv @ '' iburst'' @ nl) (l_ntp_servers s)) @
     ''allow '' @ network_string (l_subnet s) @ nl"

text \<open>Commands run in order until one fails.\<close>

fun run_commands :: "(string list \<Rightarrow> bool) \<Rightarrow> string list list \<Rightarrow> lan_state \<Rightarrow> unit res \<times> lan_state" where
  "run_commands run [] st = (Inr (), st)"
| "run_commands run (c # cs) st =
     (let st1 = st\<lparr>commands := commands st @ [c]\<rparr> in
      if run c then run_commands run cs st1 else (Inl (ValueErr (''command failed: '' @ join '' '' c)), st1))"

definition socket_override_text :: "string \<Rightarrow> string" where
  "socket_override_text gateway_ip =
     ''[Socket]'' @ nl @ ''ListenStream='' @ nl @ ''ListenStream='' @ gateway_ip @ '':8080'' @ nl"

definition apply_bootstrap_socket_rebind ::
  "(string list \<Rightarrow> bool) \<Rightarrow> lan_env \<Rightarrow> string \<Rightarrow> lan_state \<Rightarrow> unit res \<times> lan_state" where
  "apply_bootstrap_socket_rebind run env gateway_ip st =
     run_commands run [[''systemctl'', ''daemon-reload'']]
       (st\<lparr>files := snd (replace_file (bootstrap_socket_override env) (socket_override_text gateway_ip) (files st))\<rparr>)"

definition try_restart :: "string \<Rightarrow> string list" where
  "try_restart unit = [''systemctl'', ''try-restart'', unit]"

text \<open>Everything \<^verbatim>\<open>main\<close> validates before it writes: the settings and the planned network files.\<close>

definition prepare :: "lan_env \<Rightarrow> json_file \<Rightarrow> json_file \<Rightarrow> (lan_settings \<times> string dict) res" where
  "prepare env lan_file host_file =
     rbind (load_settings lan_file) (\<lambda>(s, payload).
     rbind (load_host_settings env host_file) (\<lambda>host.
     rbind (plan_host_network_settings env host (interface_string (l_gateway s))) (\<lambda>planned.
     Inr (s, if has_key planned (network_file env) then planned
             else planned @ [(network_file env, ''[Network]'' @ nl @ ''Address='' @ interface_string (l_gateway s) @ nl)]))))"

definition apply_files ::
  "(string \<Rightarrow> string option) \<Rightarrow> lan_env \<Rightarrow> lan_settings \<Rightarrow> string dict \<Rightarrow> string dict \<Rightarrow> string list list \<times> string dict" where
  "apply_files address_of env s planned fs =
     (let names = resolved_names address_of env s; ip = ipv4_string (l_gateway_ip s);
          (c1, fs1) = replace_file (dnsmasq_config_file env) (dnsmasq_text env s) fs;
          (c2, fs2) = replace_file (dnsmasq_hosts_file env) (dnsmasq_hosts_text s names) fs1;
          (c3, fs3) = replace_file (chrony_lan_file env) (chrony_text s) fs2;
          (c4, fs4) = replace_file (etc_hosts_file env) (etc_hosts_text (dget fs3 (etc_hosts_file env)) ip (l_domain s) names) fs3;
          (c5, fs5) = apply_planned_host_network_settings env planned fs4 in
      ((if c5 then [[''networkctl'', ''reload''], try_restart ''systemd-networkd.service'', try_restart ''systemd-resolved.service''] else []) @
       (if c1 \<or> c2 then [try_restart ''dnsmasq.service''] else []) @
       (if c3 then [try_restart ''chronyd.service''] else []), fs5))"

definition lan_main ::
  "(string list \<Rightarrow> bool) \<Rightarrow> (string \<Rightarrow> string option) \<Rightarrow> lan_env \<Rightarrow> json_file \<Rightarrow> json_file \<Rightarrow> lan_state \<Rightarrow> unit res \<times> lan_state" where
  "lan_main run address_of env lan_file host_file st =
     (if lan_file = Absent then (Inr (), st)
      else case prepare env lan_file host_file of
        Inl e \<Rightarrow> (Inl e, st)
      | Inr (s, planned) \<Rightarrow>
          (case apply_files address_of env s planned (files st) of (cmds, fs) \<Rightarrow>
           case run_commands run cmds (st\<lparr>files := fs\<rparr>) of
             (Inl e, st1) \<Rightarrow> (Inl e, st1)
           | (Inr u, st1) \<Rightarrow>
               (if bootstrap_transport env = ''network''
                then apply_bootstrap_socket_rebind run env (ipv4_string (l_gateway_ip s)) st1
                else (Inr (), st1))))"

subsection \<open>Samples\<close>

definition board_env :: lan_env where
  "board_env = \<lparr>dnsmasq_config_file = ''/etc/dnsmasq.d/atomixos-lan.conf'', dnsmasq_hosts_file = ''/etc/atomixos/dnsmasq-hosts'',
     chrony_lan_file = ''/etc/atomixos/chrony-lan.conf'',
     bootstrap_socket_override = ''/run/systemd/system/atomixos-bootstrap.socket.d/50-lan-bind.conf'',
     bootstrap_transport = ''network'', network_file = ''/etc/systemd/network/20-lan.network.d/50-atomixos.conf'',
     host_network_config_dir = ''/etc/systemd/network'',
     wan_network_dropin = ''/etc/systemd/network/10-wan.network.d/50-atomixos.conf'', etc_hosts_file = ''/etc/hosts'',
     wan_interface = ''eth0'', lan_interface = ''eth1''\<rparr>"

definition sample_network :: pyval where
  "sample_network = VDict
     [(''interfaces'', VDict [(''lan'', VDict [(''mode'', VStr ''static''), (''address'', VStr ''10.1.0.1/255.255.255.0'')]),
        (''eth2'', VDict [(''mode'', VStr ''dhcp''), (''dns_servers'', VList [VStr ''FE80:0::1''])])]),
      (''dnsmasq'', VDict [(''dhcp_start'', VStr ''10.1.0.10''), (''dhcp_end'', VStr ''10.1.0.20'')]),
      (''ntp'', VDict [(''servers'', VList [VStr ''NTP.example.com''])])]"

definition sample_lan :: "pyval dict" where
  "sample_lan = [(''gateway_cidr'', VStr ''10.1.0.1/24''), (''gateway_ip'', VStr ''10.1.0.1''),
     (''subnet_cidr'', VStr ''10.1.0.0/24''), (''netmask'', VStr ''255.255.255.0''), (''dhcp_start'', VStr ''10.1.0.10''),
     (''dhcp_end'', VStr ''10.1.0.20''), (''domain'', VStr ''local''), (''hostname_pattern'', VStr ''''),
     (''gateway_aliases'', VList [VStr ''atomixos'']), (''ntp_servers'', VList [VStr ''NTP.example.com''])]"

definition sample_interfaces :: "pyval dict" where
  "sample_interfaces = [(''lan'', VDict [(''mode'', VStr ''static''), (''address'', VStr ''10.1.0.1/24'')]),
     (''eth2'', VDict [(''mode'', VStr ''dhcp''), (''dns_servers'', VList [VStr ''fe80::1''])])]"

definition sample_host :: "pyval dict" where
  "sample_host = [(''dns_servers'', VList []), (''dns_search_domains'', VList []), (''interfaces'', VDict sample_interfaces)]"

definition sample_gateway :: ipv4_interface where
  "sample_gateway = \<lparr>if_ip = 167837697, if_prefixlen = 24\<rparr>"
definition sample_dnsmasq :: "pyval dict" where
  "sample_dnsmasq = [(''dhcp_start'', VStr ''10.1.0.10''), (''dhcp_end'', VStr ''10.1.0.20''), (''gateway_cidr'', VStr ''10.1.0.1/24'')]"

section \<open>Theorems\<close>

subsection \<open>Stored LAN settings are accepted\<close>

lemma validate_dns_name_iff: "validate_dns_name v key = Inr w \<longleftrightarrow> dns_name v \<and> w = v"
  by (auto simp: validate_dns_name_def dns_name_def list_all_iff list_ex_iff)

lemma string_items_strs: "(\<And>s. s \<in> set ss \<Longrightarrow> s \<noteq> []) \<Longrightarrow> string_items (map VStr ss) = Some ss"
  by (induction ss) auto

lemma string_list_of_strs: "(\<And>s. s \<in> set ss \<Longrightarrow> s \<noteq> []) \<Longrightarrow> string_list_of key (strs ss) = Inr ss"
  by (simp add: string_list_of_def string_items_strs)

text \<open>The script takes the server names the configuration takes, unless a name ends in a dot.\<close>

lemma check_server_accepts:
  assumes "check_ntp_server path server = Inr ()" "server \<noteq> []" "ip_address server = None \<longrightarrow> last server \<noteq> CHR ''.''"
  shows "check_server server = Inr ()"
proof (cases "ip_address server")
  case None
  have clean: "\<not> list_ex space_or_control server"
    using assms(1) by (auto simp: check_ntp_server_def split: if_splits)
  then have "strip server = server"
    using assms(2) by (intro strip_id) (auto simp: list_ex_iff space_or_control_def)
  moreover obtain n where "require_dns_name (VStr server) path = Inr n"
    using assms(1) clean None by (auto simp: check_ntp_server_def res_simps)
  ultimately have "dns_name server" using require_dns_name_plain assms(3) None by blast
  with clean None show ?thesis by (simp add: check_server_def validate_dns_name_iff res_simps)
qed (use assms(1) in \<open>auto simp: check_server_def check_ntp_server_def split: if_splits\<close>)

lemma check_pattern_accepts:
  assumes "lan_hostname_pattern lan path = Inr pattern" "pattern \<noteq> [] \<longrightarrow> last pattern \<noteq> CHR ''.''"
  shows "check_pattern pattern = Inr ()"
proof (cases "pattern = []")
  case False
  obtain n where mac: "contains ''{mac}'' pattern"
    and dns: "require_dns_name (VStr (mac_probe pattern)) (path @ ''.hostname_pattern'') = Inr n"
    and req: "\<exists>v p. require_string v p = Inr pattern"
    using assms(1) False unfolding lan_hostname_pattern_def default_lan_hostname_pattern_def
    by (auto simp: res_simps split: pyval.splits list.splits if_splits)
  have "strip pattern = pattern" using req require_string_Inr by blast
  then have ends: "\<not> is_space (hd pattern)" "\<not> is_space (last pattern)" using strip_ends [of pattern] False by auto
  have probe: "mac_probe pattern \<noteq> []" "last (mac_probe pattern) \<in> {CHR ''5'', last pattern}" "hd (mac_probe pattern) \<in> {CHR ''0'', hd pattern}"
    using last_replace [of "''{mac}''" "''001122334455''" pattern] hd_replace [of "''{mac}''" "''001122334455''" pattern] False
    by (auto simp: mac_probe_def)
  have "strip (mac_probe pattern) = mac_probe pattern"
    using probe ends by (intro strip_id) (auto simp: is_space_def cp_def)
  moreover have "last (mac_probe pattern) \<noteq> CHR ''.''" using probe(2) assms(2) False by auto
  ultimately have "dns_name (mac_probe pattern)" by (rule require_dns_name_plain [OF dns])
  with mac show ?thesis by (simp add: check_pattern_def validate_dns_name_iff res_simps)
qed (simp add: check_pattern_def)

lemma lan_gateway_aliases_Inr: "lan_gateway_aliases lan path = Inr xs \<Longrightarrow> x \<in> set xs \<Longrightarrow> dns_name x"
  by (auto simp: lan_gateway_aliases_def dict_fromkeys_def res_simps dest!: rmap_set require_dns_name_Inr)

lemma ntp_servers_accept:
  assumes "require_ntp_server_list w path = Inr servers"
    and "\<And>x. x \<in> set servers \<Longrightarrow> ip_address x = None \<Longrightarrow> last x \<noteq> CHR ''.''"
    and "dget payload ''ntp_servers'' = Some (strs servers)"
  shows "ntp_servers payload = Inr servers"
proof -
  obtain us where req: "require_string_list w path = Inr servers"
    and checks: "rmapi 0 (\<lambda>i server. check_ntp_server (item_path path i) server) servers = Inr us"
    using assms(1) by (auto simp: require_ntp_server_list_def res_simps)
  have ne: "x \<in> set servers \<Longrightarrow> x \<noteq> []" for x using require_string_list_Inr [OF req] by blast
  have "check_server x = Inr ()" if x: "x \<in> set servers" for x
  proof -
    obtain i where "i < length servers" "servers ! i = x" using x by (auto simp: in_set_conv_nth)
    then obtain p where p: "check_ntp_server p x = Inr ()" using checks by (auto simp: rmapi_eq_Inr)
    show ?thesis using check_server_accepts [OF p ne [OF x]] assms(2) [OF x] by simp
  qed
  then have "rmap check_server servers = Inr (map (\<lambda>x. ()) servers)" by (rule rmap_total)
  then show ?thesis using assms(3) ne by (simp add: ntp_servers_def get_or_def string_list_of_strs)
qed

lemma interface_string_not_Nil [simp]: "interface_string i \<noteq> []" "network_string n \<noteq> []"
  by (simp_all add: interface_string_def network_string_def)

lemma parse_netmask: "p \<le> 32 \<Longrightarrow> \<exists>n. network_of_string (''0.0.0.0/'' @ ipv4_string (netmask_of p)) = Some n"
proof -
  assume p: "p \<le> 32"
  have zero: "ipv4_of_string ''0.0.0.0'' = Some 0" by code_simp
  have "split_on (CHR ''/'') (''0.0.0.0'' @ CHR ''/'' # ipv4_string (netmask_of p)) = [''0.0.0.0'', ipv4_string (netmask_of p)]"
    by (subst split_on_append) (simp_all add: split_on_no_sep slash_avoid)
  then have "interface_of_string (''0.0.0.0/'' @ ipv4_string (netmask_of p)) = Some \<lparr>if_ip = 0, if_prefixlen = p\<rparr>"
    using zero prefix_of_netmask [OF p] by (simp add: interface_of_string_def)
  then show ?thesis by (simp add: network_of_string_def)
qed

lemma load_settings_accepts:
  assumes range: "dhcp_range_ok gateway dhcp_start dhcp_end" and domain: "dns_name domain"
    and pattern: "check_pattern pattern = Inr ()" and aliases: "\<And>a. a \<in> set aliases \<Longrightarrow> dns_name a"
    and servers: "\<And>payload. dget payload ''ntp_servers'' = Some (strs servers) \<Longrightarrow> ntp_servers payload = Inr servers"
  defines "d \<equiv> lan_dict gateway dhcp_start dhcp_end domain pattern aliases @ [(''ntp_servers'', strs servers)]"
  defines "s \<equiv> \<lparr>l_gateway = gateway, l_gateway_ip = if_ip gateway, l_subnet = if_network gateway,
      l_netmask = ipv4_string (if_netmask gateway), l_dhcp_start = dhcp_start, l_dhcp_end = dhcp_end, l_domain = domain,
      l_hostname_pattern = pattern, l_gateway_aliases = aliases, l_ntp_servers = servers\<rparr>"
  shows "load_settings (Json (VDict d)) = Inr (s, d)"
proof -
  have p: "if_prefixlen gateway \<le> 32" using range by (simp add: dhcp_range_ok_def)
  have fields: "rmap (payload_string d) required_string_fields = Inr [interface_string gateway, ipv4_string (if_ip gateway),
      network_string (if_network gateway), ipv4_string (if_netmask gateway), ipv4_string dhcp_start, ipv4_string dhcp_end, domain]"
    using dns_name_not_Nil [OF domain]
    by (simp add: required_string_fields_def payload_string_def d_def lan_dict_def)
  have al: "gateway_aliases d = Inr aliases"
    using dns_name_not_Nil [OF aliases] string_list_of_strs [of aliases "''gateway_aliases''"]
    by (simp add: gateway_aliases_def get_or_def d_def lan_dict_def)
  have ntp: "ntp_servers d = Inr servers" by (rule servers) (simp add: d_def lan_dict_def)
  have opt: "optional_string d ''hostname_pattern'' = Inr pattern" by (simp add: optional_string_def get_or_def d_def lan_dict_def)
  have al2: "rmap (\<lambda>a. validate_dns_name a ''gateway_aliases'') aliases = Inr aliases"
    using rmap_total [of aliases "\<lambda>a. validate_dns_name a ''gateway_aliases''" id] aliases by (simp add: validate_dns_name_iff)
  obtain n where mask: "network_of_string (''0.0.0.0/'' @ ipv4_string (netmask_of (if_prefixlen gateway))) = Some n"
    using parse_netmask [OF p] by blast
  have "parse_settings d = Inr s"
    unfolding parse_settings_def fields al ntp opt rbind_Inr
    using interface_round_trip [OF p] network_round_trip [OF p] mask pattern al2 domain
    by (simp add: parse_ipv4_interface_def parse_ipv4_address_def parse_ipv4_network_def parse_or_def if_netmask_def
        validate_dns_name_iff [THEN iffD2] s_def)
  moreover have "check_settings s = Inr ()" using range by (simp add: check_settings_def s_def dhcp_range_ok_def)
  moreover have "settings_payload s d = d" by (simp add: settings_payload_def s_def d_def lan_dict_def)
  ultimately show ?thesis by (simp add: load_settings_def load_json_object_def)
qed

subsection \<open>Stored host network settings are accepted\<close>

lemma normalize_ips: "list_all normal_ip xs \<Longrightarrow> rmap (normalize_ip key) xs = Inr xs"
proof -
  have one: "normalize_ip key x = Inr (id x)" if "normal_ip x" for x
    using that by (auto simp: normalize_ip_def parse_ip_address_def parse_or_def normal_ip_def)
  assume "list_all normal_ip xs"
  then show ?thesis using rmap_total [of xs "normalize_ip key" id] one by (simp add: list_all_iff)
qed

lemma validate_domains: "list_all dns_name xs \<Longrightarrow> rmap (\<lambda>v. validate_dns_name v key) xs = Inr xs"
  using rmap_total [of xs "\<lambda>v. validate_dns_name v key" id] by (auto simp: validate_dns_name_iff list_all_iff)

lemma host_ip_list_accepts:
  "get_or (VList []) d key = strs xs \<Longrightarrow> list_all normal_ip xs \<Longrightarrow> host_ip_list d key = Inr xs"
  using string_list_of_strs [of xs key]
  by (auto simp: host_ip_list_def host_string_list_def normalize_ips list_all_iff normal_ip_def)

lemma host_search_domains_accepts:
  "get_or (VList []) d key = strs xs \<Longrightarrow> list_all dns_name xs \<Longrightarrow> host_search_domains d key = Inr xs"
  using string_list_of_strs [of xs key] dns_name_not_Nil
  by (auto simp: host_search_domains_def host_string_list_def validate_domains list_all_iff)

lemma host_ipv4_accepts: "get_val d key = VStr (ipv4_string w) \<Longrightarrow> host_ipv4 d key = Inr (ipv4_string w)"
  by (simp add: host_ipv4_def require_host_string_def parse_ipv4_address_def parse_or_def)

lemma interface_dict_lookup:
  "dget (interface_dict mode address gateway dns domains) ''mode'' = Some (VStr mode)"
  "dget (interface_dict mode address gateway dns domains) ''address'' = map_option VStr address"
  "dget (interface_dict mode address gateway dns domains) ''gateway'' = map_option VStr gateway"
  "dget (interface_dict mode address gateway dns domains) ''dns_servers'' = map_option strs dns"
  "dget (interface_dict mode address gateway dns domains) ''dns_search_domains'' = map_option strs domains"
  by (auto simp: interface_dict_def split: option.splits)

lemma interface_dict_keys:
  "set (dkeys (interface_dict mode address gateway dns domains)) \<subseteq>
     {''mode'', ''address'', ''gateway'', ''dns_servers'', ''dns_search_domains''}"
  by (auto simp: interface_dict_def split: option.splits)

lemma host_interface_entry_accepts:
  assumes "normal_interface name mode address gateway dns domains"
    and "name \<in> {wan_interface env, lan_interface env} \<longrightarrow> name \<in> {''wan'', ''lan''}"
  shows "host_interface_entry env (name, VDict (interface_dict mode address gateway dns domains)) =
    Inr (name, \<lparr>hi_mode = mode, hi_address = address, hi_gateway = gateway, hi_dns_servers = dns, hi_dns_search_domains = domains\<rparr>)"
proof -
  let ?d = "interface_dict mode address gateway dns domains"
  note n = assms(1) [unfolded normal_interface_def]
  have mode: "require_host_string ?d ''mode'' = Inr mode"
    using n by (auto simp: require_host_string_def get_or_def interface_dict_lookup)
  have address: "host_interface_address ?d path mode = Inr address" for path
  proof (cases "mode = ''static''")
    case True
    then obtain i where "if_prefixlen i \<le> 32" "address = Some (interface_string i)" using n by auto
    then show ?thesis using True interface_round_trip [of i]
      by (simp add: host_interface_address_def require_host_string_def get_or_def interface_dict_lookup parse_ipv4_interface_def parse_or_def)
  qed (use n in \<open>simp add: host_interface_address_def has_key_def interface_dict_lookup\<close>)
  have gateway: "when_present ?d ''gateway'' (host_ipv4 ?d ''gateway'') = Inr gateway"
    using n host_ipv4_accepts [of ?d "''gateway''"]
    by (cases gateway) (auto simp: when_present_def has_key_def get_or_def interface_dict_lookup)
  have dns: "when_present ?d ''dns_servers'' (host_ip_list ?d ''dns_servers'') = Inr dns"
    using n host_ip_list_accepts [of ?d "''dns_servers''"]
    by (cases dns) (auto simp: when_present_def has_key_def get_or_def interface_dict_lookup)
  have domains: "when_present ?d ''dns_search_domains'' (host_search_domains ?d ''dns_search_domains'') = Inr domains"
    using n host_search_domains_accepts [of ?d "''dns_search_domains''"]
    by (cases domains) (auto simp: when_present_def has_key_def get_or_def interface_dict_lookup)
  have keys: "require_host_keys ?d [''mode'', ''address'', ''gateway'', ''dns_servers'', ''dns_search_domains''] path = Inr ()" for path
    using interface_dict_keys [of mode address gateway dns domains] by (auto simp: require_host_keys_def list_all_iff rguard_def)
  have free: "\<not> (name \<in> {wan_interface env, lan_interface env} \<and> name \<notin> {''wan'', ''lan''})" using assms(2) by blast
  have "supported_interface name" "mode \<in> {''dhcp'', ''static''}" "name \<noteq> ''lan'' \<or> mode = ''static''" using n by auto
  with free show ?thesis
    unfolding host_interface_entry_def Let_def fst_conv snd_conv pyval.case
    by (simp only: keys mode address gateway dns domains rguard_def if_True rbind_Inr simp_thms)
qed

text \<open>A stored interface and what the script makes of it.\<close>

definition entry_matches :: "string \<times> pyval \<Rightarrow> string \<times> host_interface \<Rightarrow> bool" where
  "entry_matches e y = (fst y = fst e \<and> (\<exists>mode address gateway dns domains.
     snd e = VDict (interface_dict mode address gateway dns domains) \<and>
     normal_interface (fst e) mode address gateway dns domains \<and> hi_mode (snd y) = mode \<and> hi_address (snd y) = address))"

lemma stored_interface_accepted:
  assumes "load_interface e = Inr (n, x)" "n \<in> {wan_interface env, lan_interface env} \<longrightarrow> n \<in> {''wan'', ''lan''}"
  shows "\<exists>y. host_interface_entry env (n, x) = Inr y \<and> entry_matches (n, x) y"
proof -
  obtain mode address gateway dns domains where x: "x = VDict (interface_dict mode address gateway dns domains)"
    "normal_interface n mode address gateway dns domains" by (rule load_interface_Inr [OF assms(1)])
  let ?y = "(n, \<lparr>hi_mode = mode, hi_address = address, hi_gateway = gateway, hi_dns_servers = dns, hi_dns_search_domains = domains\<rparr>)"
  have "host_interface_entry env (n, x) = Inr ?y" using host_interface_entry_accepts [OF x(2) assms(2)] x(1) by simp
  moreover have "entry_matches (n, x) ?y" using x by (auto simp: entry_matches_def)
  ultimately show ?thesis by blast
qed

lemma load_host_settings_accepts:
  assumes h: "load_host_network_settings v = Inr h" and d: "dget h ''interfaces'' = Some (VDict d)"
    and names: "\<And>n. n \<in> set (dkeys d) \<Longrightarrow> n \<in> {wan_interface env, lan_interface env} \<longrightarrow> n \<in> {''wan'', ''lan''}"
  shows "\<exists>hs. load_host_settings env (Json (VDict h)) = Inr hs \<and>
    (\<forall>y \<in> set (hs_interfaces hs). \<exists>e \<in> set d. entry_matches e y)"
proof -
  obtain network dns domains interfaces gateway where parts: "list_all normal_ip dns" "list_all dns_name domains"
    "load_network_interfaces (get_val network ''interfaces'') = Inr interfaces"
    "\<forall>g. gateway = Some g \<longrightarrow> (\<exists>w. g = ipv4_string w)" "h = host_dict dns domains interfaces gateway"
    using load_host_network_settings_Inr [OF h] by metis
  have d': "d = interfaces" using d parts(5) by (simp add: host_dict_def)
  have "\<exists>y. host_interface_entry env e = Inr y \<and> entry_matches e y" if e: "e \<in> set d" for e
  proof -
    obtain e0 where "load_interface e0 = Inr (fst e, snd e)"
      using load_network_interfaces_entry [OF parts(3), of "fst e" "snd e"] e d' by auto
    from stored_interface_accepted [OF this names] show ?thesis using e by auto
  qed
  then obtain f where f: "\<And>e. e \<in> set d \<Longrightarrow> host_interface_entry env e = Inr (f e) \<and> entry_matches e (f e)" by metis
  have entries: "rmap (host_interface_entry env) d = Inr (map f d)" by (rule rmap_total) (use f in blast)
  have lists: "host_ip_list h ''dns_servers'' = Inr dns" "host_search_domains h ''dns_search_domains'' = Inr domains"
    using parts(1,2) by (auto intro!: host_ip_list_accepts host_search_domains_accepts simp: parts(5) host_dict_def get_or_def)
  have gw: "when_present h ''default_gateway'' (host_ipv4 h ''default_gateway'') = Inr gateway"
    using parts(4) host_ipv4_accepts [of h "''default_gateway''"]
    by (cases gateway) (auto simp: when_present_def has_key_def get_or_def parts(5) host_dict_def)
  have keys: "require_host_keys h [''dns_servers'', ''dns_search_domains'', ''default_gateway'', ''interfaces''] ''host-network'' = Inr ()"
    by (auto simp: require_host_keys_def rguard_def parts(5) host_dict_def split: option.splits)
  have "load_host_settings env (Json (VDict h)) = Inr \<lparr>hs_dns_servers = dns, hs_dns_search_domains = domains,
      hs_default_gateway = gateway, hs_interfaces = map f d\<rparr>"
    using d by (simp add: load_host_settings_def load_json_object_def keys lists gw entries get_or_def)
  then show ?thesis using f by auto
qed

lemma plan_interfaces_total:
  "(\<And>n i. (n, i) \<in> set is \<Longrightarrow> \<exists>c. render_interface_network n i host cidr = Inr c) \<Longrightarrow>
     \<exists>p. plan_interfaces env host cidr is planned = Inr p"
proof (induction "is" arbitrary: planned)
  case (Cons x xs)
  obtain n i where x: "x = (n, i)" by fastforce
  obtain c where "render_interface_network n i host cidr = Inr c" using Cons.prems x by auto
  with Cons x show ?case by auto
qed simp

lemma render_total:
  "(n = ''lan'' \<longrightarrow> hi_mode i = ''dhcp'' \<or> hi_address i = Some cidr) \<Longrightarrow> \<exists>c. render_interface_network n i host cidr = Inr c"
  by (auto simp: render_interface_network_def Let_def)

text \<open>The LAN gateway of the stored settings is the address of the stored \<^verbatim>\<open>lan\<close> interface.\<close>

lemma lan_gateway_is_interface:
  assumes input: "lan_gateway_input interfaces raw = Inr lan_input"
    and settings: "load_lan_settings (VDict lan_input) ''network.dnsmasq'' = Inr (lan_dict gateway a b c p q)"
    and lan: "dget interfaces ''lan'' = Some (VDict (interface_dict mode (Some (interface_string i)) g n s))" "mode = ''static''"
    and i: "if_prefixlen i \<le> 32"
  shows "interface_string gateway = interface_string i"
proof -
  have req: "require_ipv4_interface (VStr (interface_string i)) path = Inr i" for path
  proof -
    have "\<not> is_space c" if "c \<in> set (interface_string i)" for c
      using that ipv4_string_chars [of c "if_ip i"] string_of_nat_digits [of c "if_prefixlen i"]
      by (auto simp: interface_string_def is_ascii_digit_def is_space_def cp_def Let_def)
    then have "strip (interface_string i) = interface_string i" by (intro strip_id) auto
    then show ?thesis using interface_round_trip [OF i] by (simp add: require_ipv4_interface_def require_string_def)
  qed
  have "dget lan_input ''gateway_cidr'' = Some (VStr (interface_string i))"
    using input lan by (auto simp: lan_gateway_input_def get_or_def interface_dict_lookup req res_simps)
  then show ?thesis
    using settings req [of "''network.dnsmasq.gateway_cidr''"]
    by (elim load_lan_settings_Inr) (auto simp: lan_dict_def require_mapping_def get_or_def)
qed

lemma stored_interface_renders:
  assumes input: "lan_gateway_input d raw = Inr lan_input"
    and settings: "load_lan_settings (VDict lan_input) ''network.dnsmasq'' = Inr (lan_dict gateway a b c p q)"
    and e: "e \<in> set d" "distinct (dkeys d)" "entry_matches e (n, i)"
  shows "\<exists>t. render_interface_network n i host (interface_string gateway) = Inr t"
proof (rule render_total, intro impI)
  assume lan: "n = ''lan''"
  obtain mode address g dn dm where m: "e = (n, VDict (interface_dict mode address g dn dm))"
    "normal_interface n mode address g dn dm" "hi_address i = address"
    using e(3) by (cases e) (auto simp: entry_matches_def)
  then obtain j where j: "mode = ''static''" "if_prefixlen j \<le> 32" "address = Some (interface_string j)"
    using lan by (auto simp: normal_interface_def)
  have "dget d ''lan'' = Some (VDict (interface_dict mode (Some (interface_string j)) g dn dm))"
    using e(1,2) m(1) lan j(3) by (auto intro: map_of_is_SomeI)
  from lan_gateway_is_interface [OF input settings this j(1,2)] show "hi_mode i = ''dhcp'' \<or> hi_address i = Some (interface_string gateway)"
    using m(3) j(3) by simp
qed


lemma sample_lan_loads:
  "load_lan_settings (VDict sample_dnsmasq) ''network.dnsmasq'' = Inr (lan_dict sample_gateway 167837706 167837716 ''local'' '''' [''atomixos''])"
proof -
  have "require_ipv4_interface (get_or (VStr default_lan_gateway_cidr) sample_dnsmasq ''gateway_cidr'') ''network.dnsmasq.gateway_cidr'' = Inr sample_gateway"
    "load_dhcp_range sample_dnsmasq ''network.dnsmasq'' sample_gateway = Inr (167837706, 167837716)"
    "require_dns_name (get_or (VStr default_lan_domain) sample_dnsmasq ''domain'') ''network.dnsmasq.domain'' = Inr ''local''"
    "lan_hostname_pattern sample_dnsmasq ''network.dnsmasq'' = Inr ''''"
    "lan_gateway_aliases sample_dnsmasq ''network.dnsmasq'' = Inr [''atomixos'']"
    by code_simp+
  moreover have "16 \<le> if_prefixlen sample_gateway" "if_prefixlen sample_gateway \<le> 30" by (simp_all add: sample_gateway_def)
  ultimately show ?thesis by (simp add: load_lan_settings_def rbind_def rguard_def require_mapping_def)
qed

lemma sample_lan_dict: "lan_dict sample_gateway 167837706 167837716 ''local'' '''' [''atomixos''] @ [(''ntp_servers'', VList [VStr ''NTP.example.com''])] = sample_lan"
  by code_simp

lemma sample_network_loads: "load_network_settings sample_network = Inr sample_lan"
proof -
  have "lan_gateway_input sample_interfaces (filter (\<lambda>e. fst e \<notin> {''enable'', ''interface''}) [(''dhcp_start'', VStr ''10.1.0.10''), (''dhcp_end'', VStr ''10.1.0.20'')]) = Inr sample_dnsmasq"
    "check_dnsmasq [(''dhcp_start'', VStr ''10.1.0.10''), (''dhcp_end'', VStr ''10.1.0.20'')] = Inr ()"
    by code_simp+
  moreover have "load_network_interfaces (VDict [(''lan'', VDict [(''mode'', VStr ''static''), (''address'', VStr ''10.1.0.1/255.255.255.0'')]),
        (''eth2'', VDict [(''mode'', VStr ''dhcp''), (''dns_servers'', VList [VStr ''FE80:0::1''])])]) = Inr sample_interfaces"
    by code_simp
  moreover have "require_ntp_server_list (VList [VStr ''NTP.example.com'']) ''network.ntp.servers'' = Inr [''NTP.example.com'']"
    by code_simp
  ultimately show ?thesis
    using sample_lan_loads sample_lan_dict
    by (simp add: load_network_settings_def sample_network_def rbind_def rguard_def require_mapping_def as_table_def get_or_def lan_dict_def)
qed

text \<open>
  The conditions on final dots are needed: the configuration loader accepts an NTP server and a host
  name pattern that end in a dot and stores them as they are, and the script rejects the settings.
\<close>

lemma ntp_trailing_dot_rejected:
  "require_ntp_server_list (VList [VStr ''time.example.com.'']) ''network.ntp.servers'' = Inr [''time.example.com.''] \<and>
   ntp_servers [(''ntp_servers'', VList [VStr ''time.example.com.''])] = Inl (ValueErr ''ntp_servers must be a valid DNS name'')"
  by code_simp

lemma pattern_trailing_dot_rejected:
  "lan_hostname_pattern [(''hostname_pattern'', VStr ''gw-{mac}.'')] ''network.dnsmasq'' = Inr ''gw-{mac}.'' \<and>
   check_pattern ''gw-{mac}.'' = Inl (ValueErr ''hostname_pattern must be a valid DNS name'')"
  by code_simp

subsection \<open>Applying twice\<close>

lemma replace_file_props:
  assumes "replace_file p c fs = (b, fs1)"
  shows "dget fs1 p = Some c" "\<And>q. q \<noteq> p \<Longrightarrow> dget fs1 q = dget fs q"
  using assms by (auto simp: replace_file_def split: if_splits)

lemma replace_file_same: "dget fs p = Some c \<Longrightarrow> replace_file p c fs = (False, fs)"
  by (simp add: replace_file_def)

lemma replace_files_props:
  "replace_files ps fs = (b, fs1) \<Longrightarrow> distinct (dkeys ps) \<Longrightarrow>
     (\<forall>(p, c) \<in> set ps. dget fs1 p = Some c) \<and> (\<forall>q. q \<notin> set (dkeys ps) \<longrightarrow> dget fs1 q = dget fs q)"
proof (induction ps fs arbitrary: b fs1 rule: replace_files.induct)
  case (2 path content rest fs)
  obtain c1 fa where a: "replace_file path content fs = (c1, fa)" by fastforce
  obtain c2 fb where b: "replace_files rest fa = (c2, fb)" by fastforce
  have IH: "(\<forall>(p, c) \<in> set rest. dget fb p = Some c) \<and> (\<forall>q. q \<notin> set (dkeys rest) \<longrightarrow> dget fb q = dget fa q)"
    using "2.IH" [OF a [symmetric] b] "2.prems"(2) by simp
  have "fs1 = fb" using "2.prems"(1) a b by simp
  then show ?case using IH replace_file_props [OF a] "2.prems"(2) by auto
qed simp

lemma replace_files_same: "(\<And>p c. (p, c) \<in> set ps \<Longrightarrow> dget fs p = Some c) \<Longrightarrow> replace_files ps fs = (False, fs)"
proof (induction ps)
  case (Cons x ps)
  obtain p c where x: "x = (p, c)" by fastforce
  have "replace_file p c fs = (False, fs)" using Cons.prems x by (intro replace_file_same) simp
  with Cons x show ?case by simp
qed simp

lemma dget_filter: "dget (filter (\<lambda>e. P (fst e)) d) k = (if P k then dget d k else None)"
  by (induction d) auto

lemma apply_planned_props:
  assumes "apply_planned_host_network_settings env planned fs = (b, fs1)" "distinct (dkeys planned)"
  shows "\<And>p c. (p, c) \<in> set planned \<Longrightarrow> dget fs1 p = Some c" "\<And>q. q \<in> set (dkeys fs1) \<Longrightarrow> \<not> stale_file env planned q"
    "\<And>q. q \<notin> set (dkeys planned) \<Longrightarrow> \<not> stale_file env planned q \<Longrightarrow> dget fs1 q = dget fs q"
proof -
  obtain c fa where a: "replace_files planned fs = (c, fa)" by fastforce
  have fs1: "fs1 = filter (\<lambda>e. \<not> stale_file env planned (fst e)) fa"
    using assms(1) a by (simp add: apply_planned_host_network_settings_def)
  note props = replace_files_props [OF a assms(2)]
  show "dget fs1 p = Some x" if "(p, x) \<in> set planned" for p x
  proof -
    have "has_key planned p" using that by (auto simp: has_key_def map_of_eq_None_iff image_iff) force
    then have "\<not> stale_file env planned p" by (simp add: stale_file_def)
    with that props show ?thesis unfolding fs1 by (subst dget_filter) auto
  qed
  show "\<not> stale_file env planned q" if "q \<in> set (dkeys fs1)" for q using that by (auto simp: fs1)
  show "dget fs1 q = dget fs q" if "q \<notin> set (dkeys planned)" "\<not> stale_file env planned q" for q
    using props that unfolding fs1 by (subst dget_filter) simp
qed

lemma apply_planned_same:
  assumes "\<And>p c. (p, c) \<in> set planned \<Longrightarrow> dget fs p = Some c" "\<And>q. q \<in> set (dkeys fs) \<Longrightarrow> \<not> stale_file env planned q"
  shows "apply_planned_host_network_settings env planned fs = (False, fs)"
proof -
  have "filter (\<lambda>e. \<not> stale_file env planned (fst e)) fs = fs" using assms(2) by (simp add: filter_id_conv)
  moreover have "\<not> list_ex (stale_file env planned) (dkeys fs)" using assms(2) by (auto simp: list_ex_iff)
  ultimately show ?thesis using replace_files_same [OF assms(1)] by (simp add: apply_planned_host_network_settings_def)
qed

subsubsection \<open>The hosts file\<close>

lemma splitlines_aux_clean:
  "list_all (\<lambda>c. \<not> is_linebreak c) acc \<Longrightarrow> l \<in> set (splitlines_aux acc s) \<Longrightarrow> list_all (\<lambda>c. \<not> is_linebreak c) l"
  by (induction acc s rule: splitlines_aux.induct) (auto split: if_splits)

lemma kept_hosts_props:
  "l \<in> set (kept_hosts old) \<Longrightarrow> list_all (\<lambda>c. \<not> is_linebreak c) l \<and> \<not> contains gateway_marker l"
  "kept_hosts old \<noteq> [] \<Longrightarrow> last (kept_hosts old) \<noteq> []"
proof -
  show "l \<in> set (kept_hosts old) \<Longrightarrow> list_all (\<lambda>c. \<not> is_linebreak c) l \<and> \<not> contains gateway_marker l"
    using splitlines_aux_clean [of "[]"] by (auto simp: kept_hosts_def splitlines_def split: option.splits dest!: set_dropWhileD)
  show "kept_hosts old \<noteq> [] \<Longrightarrow> last (kept_hosts old) \<noteq> []"
  proof (cases old)
    case (Some t)
    let ?D = "dropWhile (\<lambda>l. l = []) (rev (filter (\<lambda>l. \<not> contains gateway_marker l) (splitlines t)))"
    assume "kept_hosts old \<noteq> []"
    then have "?D \<noteq> []" by (simp add: kept_hosts_def Some)
    then have "hd ?D \<noteq> []" by (rule hd_dropWhile)
    then show ?thesis using \<open>?D \<noteq> []\<close> unfolding kept_hosts_def Some option.case by (subst last_rev) auto
  qed (simp add: kept_hosts_def)
qed

lemma contains_suffix: "contains p (s @ p)"
  by (auto simp: contains_def starts_with_def intro!: bexI [of _ "length s"])

lemma kept_hosts_again:
  assumes "\<And>a. a \<in> set names \<Longrightarrow> list_all (\<lambda>c. \<not> is_linebreak c) (gateway_line ip domain a)"
  shows "kept_hosts (Some (etc_hosts_text old ip domain names)) = kept_hosts old"
proof -
  let ?k = "kept_hosts old" and ?g = "map (\<lambda>a. gateway_line ip domain a @ '' '' @ gateway_marker) names"
  have marked: "contains gateway_marker l" if "l \<in> set ?g" for l
    using that contains_suffix [of gateway_marker "gateway_line ip domain a @ '' ''" for a] by auto
  have trim: "rev (dropWhile (\<lambda>l. l = []) (rev ?k)) = ?k"
    using kept_hosts_props(2) [of old] by (cases ?k rule: rev_cases) auto
  show ?thesis
  proof (cases "?k @ ?g = []")
    case True
    have "splitlines nl = [[]]" "\<not> contains gateway_marker []"
      using splitlines_aux_line [of "[]" "[]" "[]"] by (simp_all add: splitlines_def contains_def starts_with_def gateway_marker_def)
    moreover have "?k = []" using True by simp
    ultimately show ?thesis unfolding kept_hosts_def [of "Some _"] etc_hosts_text_def True by simp
  next
    case False
    have "list_all (\<lambda>c. \<not> is_linebreak c) gateway_marker" by code_simp
    then have "splitlines (join nl (?k @ ?g) @ nl) = ?k @ ?g"
      using False kept_hosts_props(1) [of _ old] assms by (intro splitlines_join) (auto simp: is_linebreak_def cp_def)
    then show ?thesis
      unfolding kept_hosts_def [of "Some _"] etc_hosts_text_def option.case
      using marked kept_hosts_props(1) [of _ old] trim by (simp add: filter_id_conv filter_empty_conv)
  qed
qed

subsubsection \<open>Validated names and planned paths\<close>

lemma parse_settings_names:
  assumes "parse_settings payload = Inr s"
  shows "dns_name (l_domain s)" "check_pattern (l_hostname_pattern s) = Inr ()" "\<And>a. a \<in> set (l_gateway_aliases s) \<Longrightarrow> dns_name a"
proof -
  obtain fields pattern alias_names aliases domain where
    "validate_dns_name (fields ! 6) ''domain'' = Inr domain" "check_pattern pattern = Inr ()"
    "rmap (\<lambda>a. validate_dns_name a ''gateway_aliases'') alias_names = Inr aliases"
    "l_domain s = domain" "l_hostname_pattern s = pattern" "l_gateway_aliases s = aliases"
    using assms unfolding parse_settings_def rbind_eq_Inr by (elim exE conjE) (rule that, (assumption | simp | fastforce)+)
  then show "dns_name (l_domain s)" "check_pattern (l_hostname_pattern s) = Inr ()" "\<And>a. a \<in> set (l_gateway_aliases s) \<Longrightarrow> dns_name a"
    by (auto simp: validate_dns_name_iff dest!: rmap_set)
qed

lemma dns_name_no_break: "dns_name n \<Longrightarrow> c \<in> set n \<Longrightarrow> \<not> is_linebreak c"
  using dns_name_chars [of n c]
  by (auto simp: is_linebreak_def is_ascii_alnum_def is_ascii_digit_def is_ascii_lower_def is_ascii_upper_def cp_def Let_def)

lemma mac_chars: "c \<in> set (read_mac_suffix address_of i) \<Longrightarrow> \<not> is_linebreak c"
proof -
  assume "c \<in> set (read_mac_suffix address_of i)"
  then obtain octets where "\<not> list_ex (list_ex (\<lambda>c. c \<notin> set ''0123456789abcdef'')) octets" "c \<in> set (concat octets)"
    unfolding read_mac_suffix_def Let_def by (cases "address_of i") (auto simp del: list_ex_iff split: if_split_asm)
  then have "c \<in> set ''0123456789abcdef''" unfolding list_ex_iff set_concat by blast
  then show ?thesis by (auto simp: is_linebreak_def cp_def)
qed

lemma pattern_no_break:
  assumes "check_pattern p = Inr ()" "c \<in> set p"
  shows "\<not> is_linebreak c"
proof -
  have "p \<noteq> []" using assms(2) by auto
  then have "dns_name (mac_probe p)"
    using assms(1) by (auto simp: check_pattern_def validate_dns_name_iff res_simps split: if_splits)
  moreover have "c \<in> set ''{mac}'' \<or> c \<in> set (mac_probe p)"
    using set_replace(2) [of "''{mac}''" p "''001122334455''"] assms(2) by (auto simp: mac_probe_def)
  ultimately show ?thesis using dns_name_no_break by (auto simp: is_linebreak_def cp_def)
qed

lemma gateway_line_clean:
  assumes "parse_settings payload = Inr s" "a \<in> set (resolved_names address_of env s)"
  shows "list_all (\<lambda>c. \<not> is_linebreak c) (gateway_line (ipv4_string w) (l_domain s) a)"
proof -
  note names = parse_settings_names [OF assms(1)]
  have "a \<in> set (l_gateway_aliases s) \<or>
      a = replace ''{mac}'' (read_mac_suffix address_of (lan_interface env)) (l_hostname_pattern s)"
    using assms(2) by (auto simp: resolved_names_def dict_fromkeys_def Let_def split: if_splits)
  then have a: "\<not> is_linebreak c" if "c \<in> set a" for c
  proof
    assume "a \<in> set (l_gateway_aliases s)"
    then show ?thesis using that dns_name_no_break names(3) by blast
  next
    assume "a = replace ''{mac}'' (read_mac_suffix address_of (lan_interface env)) (l_hostname_pattern s)"
    then have "c \<in> set (read_mac_suffix address_of (lan_interface env)) \<or> c \<in> set (l_hostname_pattern s)"
      using that set_replace(1) [of "''{mac}''" "read_mac_suffix address_of (lan_interface env)" "l_hostname_pattern s"] by blast
    then show ?thesis using mac_chars pattern_no_break [OF names(2)] by blast
  qed
  have d: "\<not> is_linebreak c" if "c \<in> set (l_domain s)" for c using that dns_name_no_break names(1) by blast
  have ip: "\<not> is_linebreak c" if "c \<in> set (ipv4_string w)" for c
    using ipv4_string_chars [OF that] by (auto simp: is_linebreak_def is_ascii_digit_def cp_def Let_def)
  have "c \<in> set (ipv4_string w) \<or> c = CHR '' '' \<or> c = CHR ''.'' \<or> c \<in> set a \<or> c \<in> set (l_domain s)"
    if "c \<in> set (gateway_line (ipv4_string w) (l_domain s) a)" for c
    using that set_join_subset [of "'' ''" "host_names a (l_domain s)"]
    by (auto simp: gateway_line_def host_names_def dict_fromkeys_def split: if_splits)
  moreover have "\<not> is_linebreak (CHR '' '')" "\<not> is_linebreak (CHR ''.'')" by (simp_all add: is_linebreak_def cp_def)
  ultimately show ?thesis using a d ip unfolding list_all_iff by blast
qed

definition output_files :: "lan_env \<Rightarrow> string list" where
  "output_files env = [dnsmasq_config_file env, dnsmasq_hosts_file env, chrony_lan_file env, etc_hosts_file env,
     bootstrap_socket_override env]"

definition network_path :: "lan_env \<Rightarrow> string \<Rightarrow> bool" where
  "network_path env p = (p = wan_network_dropin env \<or> p = network_file env \<or> generated_network_file env p)"

definition paths_ok :: "lan_env \<Rightarrow> bool" where
  "paths_ok env = (distinct (output_files env) \<and> list_all (\<lambda>p. \<not> network_path env p) (output_files env))"

lemma supported_network_path: "supported_interface n \<Longrightarrow> network_path env (network_config_path env n)"
proof (cases "n = ''wan'' \<or> n = ''lan''")
  case False
  assume "supported_interface n"
  then have n: "starts_with ''eth'' n" "list_all is_ascii_digit (drop 3 n)" using False by (auto simp: supported_interface_def)
  then obtain ds where ds: "n = ''eth'' @ ds" "list_all is_ascii_digit ds"
    by (metis append_take_drop_id starts_with_def length_Cons list.size(3) One_nat_def Suc_1 numeral_3_eq_3)
  have "CHR ''/'' \<notin> set ds" using ds(2) by (auto simp: list_all_iff is_ascii_digit_def cp_def)
  then have "generated_network_file env (host_network_config_dir env @ ''/30-atomixos-'' @ n @ ''.network'')"
  proof -
    assume slash: "CHR ''/'' \<notin> set ds"
    have path: "host_network_config_dir env @ ''/30-atomixos-'' @ n @ ''.network'' =
        (host_network_config_dir env @ ''/'') @ (''30-atomixos-eth'' @ ds @ ''.network'')" by (simp add: ds(1))
    have "ends_with ''.network'' (''30-atomixos-eth'' @ ds @ ''.network'')"
      using ends_with_append [of "''.network''" "''30-atomixos-eth'' @ ds"] by simp
    then show ?thesis unfolding generated_network_file_def path using slash by (simp add: starts_with_def Let_def)
  qed
  then show ?thesis using False by (simp add: network_path_def network_config_path_def)
qed (auto simp: network_path_def network_config_path_def)

lemma plan_interfaces_paths:
  "plan_interfaces env host cidr is planned = Inr p \<Longrightarrow> distinct (dkeys planned) \<Longrightarrow> list_all (network_path env) (dkeys planned) \<Longrightarrow>
     (\<And>n i. (n, i) \<in> set is \<Longrightarrow> supported_interface n) \<Longrightarrow> distinct (dkeys p) \<and> list_all (network_path env) (dkeys p)"
proof (induction "is" arbitrary: planned)
  case (Cons x xs)
  obtain n i where x: "x = (n, i)" by fastforce
  obtain c where c: "plan_interfaces env host cidr xs (dset (network_config_path env n) c planned) = Inr p"
    using Cons.prems(1) x by (auto simp: res_simps)
  have "list_all (network_path env) (dkeys (dset (network_config_path env n) c planned))"
    using Cons.prems(3) supported_network_path [OF Cons.prems(4) [of n i]] x by (auto simp: AList.update_keys list_all_iff)
  with Cons.IH [OF c] Cons.prems(2,4) show ?case by auto
qed simp

lemma host_settings_supported:
  assumes "load_host_settings env f = Inr hs" "(n, i) \<in> set (hs_interfaces hs)"
  shows "supported_interface n"
proof -
  obtain interfaces where "rmap (host_interface_entry env) interfaces = Inr (hs_interfaces hs) \<or> hs_interfaces hs = []"
    using assms(1) unfolding load_host_settings_def by (cases "f = Absent") (fastforce simp: res_simps)+
  then show ?thesis using assms(2) by (auto simp: host_interface_entry_def Let_def res_simps dest!: rmap_set)
qed

lemma prepare_Inr:
  assumes "prepare env lan_file host_file = Inr (s, planned)"
  shows "\<exists>payload. parse_settings payload = Inr s" "distinct (dkeys planned)" "list_all (network_path env) (dkeys planned)"
proof -
  obtain host p where s: "\<exists>payload. load_settings lan_file = Inr (s, payload)" and host: "load_host_settings env host_file = Inr host"
    and p: "plan_interfaces env host (interface_string (l_gateway s)) (planned_interfaces host) [] = Inr p"
    and planned: "planned = p \<or> (\<not> has_key p (network_file env) \<and> (\<exists>c. planned = p @ [(network_file env, c)]))"
    using assms by (auto simp: prepare_def plan_host_network_settings_def res_simps split: if_splits)
  have "supported_interface n" if "(n, i) \<in> set (planned_interfaces host)" for n i
    using that host_settings_supported [OF host] by (auto simp: planned_interfaces_def supported_interface_def split: if_splits)
  then have "distinct (dkeys p) \<and> list_all (network_path env) (dkeys p)" using plan_interfaces_paths [OF p] by auto
  then show "distinct (dkeys planned)" "list_all (network_path env) (dkeys planned)"
    using planned by (auto simp: has_key_def map_of_eq_None_iff network_path_def)
  show "\<exists>payload. parse_settings payload = Inr s" using s by (auto simp: load_settings_def res_simps)
qed

subsubsection \<open>A finished run\<close>

text \<open>The files of a finished run: the generated texts, the planned network files, and no stale one.\<close>

definition settled ::
  "(string \<Rightarrow> string option) \<Rightarrow> lan_env \<Rightarrow> lan_settings \<Rightarrow> string dict \<Rightarrow> string dict \<Rightarrow> bool" where
  "settled address_of env s planned fs =
     (dget fs (dnsmasq_config_file env) = Some (dnsmasq_text env s) \<and>
      dget fs (dnsmasq_hosts_file env) = Some (dnsmasq_hosts_text s (resolved_names address_of env s)) \<and>
      dget fs (chrony_lan_file env) = Some (chrony_text s) \<and>
      (\<exists>old. dget fs (etc_hosts_file env) =
         Some (etc_hosts_text old (ipv4_string (l_gateway_ip s)) (l_domain s) (resolved_names address_of env s))) \<and>
      (\<forall>(p, c) \<in> set planned. dget fs p = Some c) \<and> (\<forall>q \<in> set (dkeys fs). \<not> stale_file env planned q))"

lemma stale_is_network_path: "stale_file env planned q \<Longrightarrow> network_path env q"
  by (auto simp: stale_file_def network_path_def)

lemma apply_files_settled:
  assumes "paths_ok env" "distinct (dkeys planned)" "list_all (network_path env) (dkeys planned)"
    and "apply_files address_of env s planned fs = (cmds, fs5)"
  shows "settled address_of env s planned fs5"
proof -
  let ?names = "resolved_names address_of env s"
  obtain c1 fs1 where r1: "replace_file (dnsmasq_config_file env) (dnsmasq_text env s) fs = (c1, fs1)" by fastforce
  obtain c2 fs2 where r2: "replace_file (dnsmasq_hosts_file env) (dnsmasq_hosts_text s ?names) fs1 = (c2, fs2)" by fastforce
  obtain c3 fs3 where r3: "replace_file (chrony_lan_file env) (chrony_text s) fs2 = (c3, fs3)" by fastforce
  obtain c4 fs4 where r4: "replace_file (etc_hosts_file env)
      (etc_hosts_text (dget fs3 (etc_hosts_file env)) (ipv4_string (l_gateway_ip s)) (l_domain s) ?names) fs3 = (c4, fs4)" by fastforce
  obtain c5 where r5: "apply_planned_host_network_settings env planned fs4 = (c5, fs5)"
    using assms(4) r1 r2 r3 r4 by (auto simp: apply_files_def Let_def split: prod.splits)
  note p = apply_planned_props [OF r5 assms(2)]
  have keep: "dget fs5 q = dget fs4 q" if "q \<in> set (output_files env)" for q
  proof (rule p(3))
    have "\<not> network_path env q" using that assms(1) by (simp add: paths_ok_def list_all_iff)
    then show "q \<notin> set (dkeys planned)" "\<not> stale_file env planned q"
      using assms(3) stale_is_network_path unfolding list_all_iff by blast+
  qed
  have d: "distinct (output_files env)" using assms(1) by (simp add: paths_ok_def)
  show ?thesis
    using d keep p replace_file_props [OF r1] replace_file_props [OF r2] replace_file_props [OF r3] replace_file_props [OF r4]
    unfolding settled_def output_files_def by (intro conjI) (auto | metis)+
qed

lemma settled_apply_files:
  assumes "settled address_of env s planned fs" "parse_settings payload = Inr s"
  shows "apply_files address_of env s planned fs = ([], fs)"
proof -
  let ?names = "resolved_names address_of env s"
  obtain old where old: "dget fs (etc_hosts_file env) =
      Some (etc_hosts_text old (ipv4_string (l_gateway_ip s)) (l_domain s) ?names)"
    using assms(1) by (auto simp: settled_def)
  have "etc_hosts_text (dget fs (etc_hosts_file env)) (ipv4_string (l_gateway_ip s)) (l_domain s) ?names =
      etc_hosts_text old (ipv4_string (l_gateway_ip s)) (l_domain s) ?names"
    unfolding old etc_hosts_text_def [of "Some _"]
    using kept_hosts_again [OF gateway_line_clean [OF assms(2)], of ?names _ _ old] by (simp only: etc_hosts_text_def [of old])
  then have "replace_file (etc_hosts_file env)
      (etc_hosts_text (dget fs (etc_hosts_file env)) (ipv4_string (l_gateway_ip s)) (l_domain s) ?names) fs = (False, fs)"
    using old by (simp add: replace_file_same)
  moreover have "apply_planned_host_network_settings env planned fs = (False, fs)"
    using assms(1) by (intro apply_planned_same) (auto simp: settled_def)
  ultimately show ?thesis using assms(1) by (simp add: settled_def apply_files_def replace_file_same Let_def)
qed

lemma dkeys_dset_subset: "set (dkeys (dset k v d)) \<subseteq> insert k (set (dkeys d))"
  by (subst update_keys) auto

lemma settled_replace:
  assumes "settled address_of env s planned fs" "paths_ok env" "list_all (network_path env) (dkeys planned)"
    "replace_file (bootstrap_socket_override env) t fs = (b, fs1)"
  shows "settled address_of env s planned fs1"
proof -
  have "bootstrap_socket_override env \<notin> set (dkeys planned)" "\<not> stale_file env planned (bootstrap_socket_override env)"
    "bootstrap_socket_override env \<notin> {dnsmasq_config_file env, dnsmasq_hosts_file env, chrony_lan_file env, etc_hosts_file env}"
    using assms(2,3) stale_is_network_path by (auto simp: paths_ok_def output_files_def list_all_iff)
  moreover have "set (dkeys fs1) \<subseteq> insert (bootstrap_socket_override env) (set (dkeys fs))"
    using assms(4) dkeys_dset_subset [of "bootstrap_socket_override env" t fs] by (auto simp: replace_file_def split: if_splits)
  moreover have "p \<noteq> bootstrap_socket_override env" if "(p, c) \<in> set planned" for p c
    using calculation(1) that by force
  ultimately show ?thesis using assms(1) replace_file_props(2) [OF assms(4)] unfolding settled_def by fastforce
qed

lemma run_commands_files: "run_commands run cs st = (r, st1) \<Longrightarrow> files st1 = files st"
  by (induction cs arbitrary: st) (auto simp: Let_def split: if_splits)

lemma lan_main_settles:
  assumes "paths_ok env" "lan_main run address_of env lf hf st = (Inr (), st1)" "lf \<noteq> Absent"
  obtains s planned payload where "prepare env lf hf = Inr (s, planned)" "parse_settings payload = Inr s"
    "settled address_of env s planned (files st1)"
    "bootstrap_transport env = ''network'' \<Longrightarrow> run [''systemctl'', ''daemon-reload''] \<and>
       dget (files st1) (bootstrap_socket_override env) = Some (socket_override_text (ipv4_string (l_gateway_ip s)))"
proof -
  obtain s planned where p: "prepare env lf hf = Inr (s, planned)"
    using assms(2,3) by (auto simp: lan_main_def split: sum.splits)
  obtain payload where payload: "parse_settings payload = Inr s" using prepare_Inr(1) [OF p] by blast
  obtain cmds fs where a: "apply_files address_of env s planned (files st) = (cmds, fs)" by fastforce
  obtain st2 where r: "run_commands run cmds (st\<lparr>files := fs\<rparr>) = (Inr (), st2)"
    using assms(2,3) p a by (auto simp: lan_main_def split: sum.splits prod.splits)
  have st2: "files st2 = fs" using run_commands_files [OF r] by simp
  have fs: "settled address_of env s planned fs" by (rule apply_files_settled [OF assms(1) prepare_Inr(2,3) [OF p] a])
  obtain b fs1 where rf: "replace_file (bootstrap_socket_override env) (socket_override_text (ipv4_string (l_gateway_ip s))) fs = (b, fs1)"
    by fastforce
  have st1: "if bootstrap_transport env = ''network''
      then files st1 = fs1 \<and> run [''systemctl'', ''daemon-reload''] else st1 = st2"
    using assms(2,3) p a r rf st2
    by (auto simp: lan_main_def apply_bootstrap_socket_rebind_def Let_def split: if_splits)
  show thesis
  proof (rule that [OF p payload])
    show "settled address_of env s planned (files st1)"
      using st1 fs st2 settled_replace [OF fs assms(1) prepare_Inr(3) [OF p] rf] by (auto split: if_splits)
  qed (use st1 replace_file_props(1) [OF rf] in simp)
qed

text \<open>C29: Applying the network settings is idempotent: after a run of the service that succeeded, a second run on
  the same settings succeeds, leaves every file as it is and restarts nothing; on a board whose bootstrap
  transport is the network it issues the one \<^verbatim>\<open>daemon-reload\<close> of the socket override.\<close>

theorem lan_apply_idempotent:
  assumes "paths_ok env" "lan_main run address_of env lan_file host_file st = (Inr (), st1)"
  shows "lan_main run address_of env lan_file host_file st1 =
    (Inr (), st1\<lparr>commands := commands st1 @
       (if lan_file \<noteq> Absent \<and> bootstrap_transport env = ''network'' then [[''systemctl'', ''daemon-reload'']] else [])\<rparr>)"
proof (cases "lan_file = Absent")
  case False
  obtain s planned payload where p: "prepare env lan_file host_file = Inr (s, planned)" "parse_settings payload = Inr s"
    "settled address_of env s planned (files st1)"
    "bootstrap_transport env = ''network'' \<Longrightarrow> run [''systemctl'', ''daemon-reload''] \<and>
       dget (files st1) (bootstrap_socket_override env) = Some (socket_override_text (ipv4_string (l_gateway_ip s)))"
    using lan_main_settles [OF assms False] by metis
  show ?thesis
    using False p(1,4) settled_apply_files [OF p(3,2)]
    by (auto simp: lan_main_def apply_bootstrap_socket_rebind_def replace_file_same Let_def)
qed (simp add: lan_main_def)

lemma run_commands_Inl:
  "run_commands run cs st = (Inl e, st1) \<Longrightarrow>
     \<exists>cmd. \<not> run cmd \<and> (\<exists>cs'. commands st1 = cs' @ [cmd]) \<and> e = ValueErr (''command failed: '' @ join '' '' cmd)"
  by (induction cs arbitrary: st) (auto simp: Let_def split: if_splits)

lemma run_commands_all_succeed: "run_commands (\<lambda>c. True) cs st = (Inr (), st\<lparr>commands := commands st @ cs\<rparr>)"
  by (induction cs arbitrary: st) (simp_all add: Let_def)

theorem lan_apply_idempotent_witness:
  "\<exists>st1. lan_main (\<lambda>c. True) (\<lambda>i. None) board_env (Json (VDict sample_lan)) Absent \<lparr>files = [], commands = []\<rparr> = (Inr (), st1) \<and>
     lan_main (\<lambda>c. True) (\<lambda>i. None) board_env (Json (VDict sample_lan)) Absent st1 =
       (Inr (), st1\<lparr>commands := commands st1 @ [[''systemctl'', ''daemon-reload'']]\<rparr>)"
proof -
  have ok: "paths_ok board_env" by code_simp
  have net: "bootstrap_transport board_env = ''network''" by (simp add: board_env_def)
  have "\<not> isl (prepare board_env (Json (VDict sample_lan)) Absent)" by code_simp
  then obtain s planned where "prepare board_env (Json (VDict sample_lan)) Absent = Inr (s, planned)"
    by (cases "prepare board_env (Json (VDict sample_lan)) Absent") auto
  moreover obtain cmds fs where "apply_files (\<lambda>i. None) board_env s planned [] = (cmds, fs)" by fastforce
  ultimately obtain st1 where "lan_main (\<lambda>c. True) (\<lambda>i. None) board_env (Json (VDict sample_lan)) Absent \<lparr>files = [], commands = []\<rparr> = (Inr (), st1)"
    by (auto simp: net lan_main_def run_commands_all_succeed apply_bootstrap_socket_rebind_def split: prod.splits)
  then show ?thesis using lan_apply_idempotent [OF ok] net by fastforce
qed



end
