(* ===== verification/Firewall_Inbound.thy ===== *)
theory Firewall_Inbound
  imports Config_Sections
begin

text \<open>
  \<^verbatim>\<open>scripts/provisioned-firewall-inbound.py\<close>: the script that turns the stored
  \<^verbatim>\<open>firewall-inbound.json\<close> into nftables rules, after it removed the rules of its previous run.

  What \<^verbatim>\<open>nft -a list chain\<close> prints, or the error it ends with, is an argument, as is the outcome of
  \<^verbatim>\<open>nft -f -\<close>; the result holds the text that was handed to it, if any. A rule is a value of
  \<open>fw_rule\<close>, \<open>rule_command\<close> the line of nft input it is written as.
\<close>

section \<open>Definitions\<close>

subsection \<open>Validation\<close>

record fw_env =
  fw_rule_comment :: string
  fw_wan_interface :: string
  fw_lan_interface :: string

definition lan_default_open_comment :: string where
  "lan_default_open_comment = ''ATOMIXOS_LAN_DEFAULT_OPEN''"

definition lan_required_tcp :: "int list" where "lan_required_tcp = [22, 53, 8080]"
definition lan_required_udp :: "int list" where "lan_required_udp = [53, 67, 68, 123]"

definition fw_port :: "string \<Rightarrow> nat \<Rightarrow> pyval \<Rightarrow> int res" where
  "fw_port path idx item =
     (let bad = Inl (ValueErr (''expected port integer in range 1..65535 at '' @ path @ ''['' @ string_of_nat idx @ '']'')) in
      case item of VInt i \<Rightarrow> (if 1 \<le> i \<and> i \<le> 65535 then Inr i else bad) | _ \<Rightarrow> bad)"

definition validate_ports :: "pyval \<Rightarrow> string \<Rightarrow> int list res" where
  "validate_ports v path = (case v of
     VNone \<Rightarrow> Inr []
   | VList items \<Rightarrow> rmapi 0 (fw_port path) items
   | _ \<Rightarrow> Inl (ValueErr (''expected array at '' @ path)))"

definition interface_char :: "char \<Rightarrow> bool" where
  "interface_char c = (is_ascii_alnum c \<or> c \<in> set ''_.:-'')"

definition fw_validate_interface_name :: "string \<Rightarrow> string res" where
  "fw_validate_interface_name name =
     (if name \<noteq> [] \<and> list_all interface_char name then Inr name
      else Inl (ValueErr (''invalid interface name: '' @ name)))"

definition validate_rule_comment :: "string \<Rightarrow> string res" where
  "validate_rule_comment comment =
     (if comment = [] then Inl (ValueErr ''invalid rule comment: empty'')
      else if length comment > 128 \<or> CHR 0x22 \<in> set comment \<or> \<not> list_all (\<lambda>c. 32 \<le> cp c \<and> cp c \<le> 126) comment
      then Inl (ValueErr (''invalid rule comment: '' @ comment))
      else Inr comment)"

definition load_payload :: "json_file \<Rightarrow> pyval dict res" where
  "load_payload f = (case f of
     Json (VDict d) \<Rightarrow> Inr d
   | Json v \<Rightarrow> Inl (ValueErr ''firewall-inbound.json must contain a JSON object'')
   | NotJson \<Rightarrow> Inl (ValueErr ''invalid JSON in firewall-inbound.json'')
   | _ \<Rightarrow> Inl (ValueErr ''unable to read firewall-inbound.json''))"

subsection \<open>The rules of the previous run\<close>

text \<open>
  The search for \<^verbatim>\<open>\bcomment\s+"((?:\\.|[^"\\])*)"\<close>: the body up to the first quote that no backslash
  protects, at the first position where the whole pattern matches.
\<close>

fun quoted_body :: "string \<Rightarrow> string option" where
  "quoted_body [] = None"
| "quoted_body (x # xs) =
     (if x = CHR 0x22 then Some []
      else if x = CHR 0x5C then
        (case xs of [] \<Rightarrow> None | y # ys \<Rightarrow> (if y = CHR 0x0A then None else map_option (\<lambda>b. x # y # b) (quoted_body ys)))
      else map_option ((#) x) (quoted_body xs))"

definition is_word_char :: "char \<Rightarrow> bool" where
  "is_word_char c = (is_alnum c \<or> c = CHR ''_'')"

definition comment_here :: "string \<Rightarrow> string option" where
  "comment_here s =
     (if starts_with ''comment'' s then
        (let r = drop 7 s in
         if r \<noteq> [] \<and> is_space (hd r) then
           (case dropWhile is_space r of
              q # body \<Rightarrow> (if q = CHR 0x22 then quoted_body body else None)
            | [] \<Rightarrow> None)
         else None)
      else None)"

fun comment_search :: "bool \<Rightarrow> string \<Rightarrow> string option" where
  "comment_search after_word [] = None"
| "comment_search after_word (x # xs) =
     (case (if after_word then None else comment_here (x # xs)) of
        Some b \<Rightarrow> Some b
      | None \<Rightarrow> comment_search (is_word_char x) xs)"

definition nft_rule_comment :: "string \<Rightarrow> nat list option" where
  "nft_rule_comment line = (case comment_search False line of None \<Rightarrow> None | Some b \<Rightarrow> json_unescape b)"

text \<open>\<^verbatim>\<open>re.search(r"handle (\d+)$", line)\<close>.\<close>

fun rule_handle :: "string \<Rightarrow> string option" where
  "rule_handle [] = None"
| "rule_handle (x # xs) =
     (if starts_with ''handle '' (x # xs) \<and> drop 7 (x # xs) \<noteq> [] \<and> list_all is_ascii_digit (drop 7 (x # xs))
      then Some (drop 7 (x # xs)) else rule_handle xs)"

definition delete_command :: "string \<Rightarrow> string" where
  "delete_command handle = ''delete rule inet filter input handle '' @ handle"

definition delete_commands :: "string \<Rightarrow> string \<Rightarrow> string list" where
  "delete_commands rule_comment listing =
     concat (map (\<lambda>line.
       if nft_rule_comment line \<in> {Some (map cp rule_comment), Some (map cp lan_default_open_comment)}
       then (case rule_handle line of None \<Rightarrow> [] | Some h \<Rightarrow> [delete_command h])
       else []) (splitlines listing))"

subsection \<open>The new rules\<close>

datatype fw_rule =
    Accept_Ports string string "int list"
  | Accept_All string

definition rule_command :: "string \<Rightarrow> fw_rule \<Rightarrow> string" where
  "rule_command rule_comment r = (case r of
     Accept_Ports interface proto ports \<Rightarrow>
       ''add rule inet filter input iifname '' @ [CHR 0x22] @ interface @ [CHR 0x22] @ '' '' @ proto @ '' dport { '' @
       join '', '' (map string_of_int ports) @ '' } accept comment '' @ [CHR 0x22] @ rule_comment @ [CHR 0x22]
   | Accept_All interface \<Rightarrow>
       ''add rule inet filter input iifname '' @ [CHR 0x22] @ interface @ [CHR 0x22] @ '' accept comment '' @
       [CHR 0x22] @ lan_default_open_comment @ [CHR 0x22])"

text \<open>\<^verbatim>\<open>any\<close> stops at the first protocol with ports.\<close>

definition restrictive_lan :: "pyval dict \<Rightarrow> bool res" where
  "restrictive_lan payload = (case get_val payload ''lan'' of
     VDict lan \<Rightarrow>
       rbind (validate_ports (get_val lan ''tcp'') ''firewall-inbound.lan.tcp'') (\<lambda>tcp.
       if tcp \<noteq> [] then Inr True
       else rbind (validate_ports (get_val lan ''udp'') ''firewall-inbound.lan.udp'') (\<lambda>udp. Inr (udp \<noteq> [])))
   | _ \<Rightarrow> Inr False)"

definition required_ports :: "string \<Rightarrow> int list" where
  "required_ports proto = (if proto = ''tcp'' then lan_required_tcp else lan_required_udp)"

definition proto_rules :: "bool \<Rightarrow> string \<Rightarrow> string \<Rightarrow> pyval dict \<Rightarrow> string \<Rightarrow> fw_rule list res" where
  "proto_rules restrictive scope_name interface scope proto =
     rbind (validate_ports (get_val scope proto) (''firewall-inbound.'' @ scope_name @ ''.'' @ proto)) (\<lambda>given.
     let ports = (if scope_name = ''lan'' \<and> restrictive then sort (remdups (given @ required_ports proto)) else given) in
     Inr (if ports = [] then [] else [Accept_Ports interface proto ports]))"

definition scope_rules :: "bool \<Rightarrow> pyval dict \<Rightarrow> string \<times> string \<Rightarrow> fw_rule list res" where
  "scope_rules restrictive payload scope = (case scope of (scope_name, interface) \<Rightarrow>
     case get_val payload scope_name of
       VNone \<Rightarrow> Inr []
     | VDict d \<Rightarrow> rbind (rmap (proto_rules restrictive scope_name interface d) [''tcp'', ''udp'']) (\<lambda>rs. Inr (concat rs))
     | _ \<Rightarrow> Inl (ValueErr (''firewall-inbound.json '' @ scope_name @ '' entry must contain a JSON object'')))"

definition inbound_rules :: "fw_env \<Rightarrow> pyval dict \<Rightarrow> fw_rule list res" where
  "inbound_rules env payload =
     rbind (restrictive_lan payload) (\<lambda>restrictive.
     rbind (rmap (scope_rules restrictive payload) [(''wan'', fw_wan_interface env), (''lan'', fw_lan_interface env)]) (\<lambda>rs.
     Inr (concat rs @ (if restrictive then [] else [Accept_All (fw_lan_interface env)]))))"

definition run_nft_input :: "(string \<Rightarrow> unit res) \<Rightarrow> string list \<Rightarrow> unit res \<times> string option" where
  "run_nft_input nft commands =
     (if commands = [] then (Inr (), None) else (nft (join [CHR 0x0A] commands), Some (join [CHR 0x0A] commands)))"

definition fw_commands :: "fw_env \<Rightarrow> string res \<Rightarrow> json_file \<Rightarrow> string list res" where
  "fw_commands env listing config =
     rbind (validate_rule_comment (fw_rule_comment env)) (\<lambda>comment.
     rbind (fw_validate_interface_name (fw_wan_interface env)) (\<lambda>wan.
     rbind (fw_validate_interface_name (fw_lan_interface env)) (\<lambda>lan.
     rbind (validate_rule_comment lan_default_open_comment) (\<lambda>open.
     rbind listing (\<lambda>existing.
     if config = Absent then Inr (delete_commands comment existing)
     else rbind (load_payload config) (\<lambda>payload.
          rbind (inbound_rules env payload) (\<lambda>rules.
          Inr (delete_commands comment existing @ map (rule_command comment) rules))))))))"

definition fw_main :: "fw_env \<Rightarrow> string res \<Rightarrow> (string \<Rightarrow> unit res) \<Rightarrow> json_file \<Rightarrow> unit res \<times> string option" where
  "fw_main env listing nft config = (case fw_commands env listing config of
     Inl e \<Rightarrow> (Inl e, None)
   | Inr commands \<Rightarrow> run_nft_input nft commands)"

section \<open>Theorems\<close>

subsection \<open>The policy\<close>

definition allows :: "fw_rule \<Rightarrow> string \<Rightarrow> string \<Rightarrow> int \<Rightarrow> bool" where
  "allows r interface proto port = (case r of
     Accept_Ports i p ports \<Rightarrow> i = interface \<and> p = proto \<and> port \<in> set ports
   | Accept_All i \<Rightarrow> i = interface)"

definition configured_ports :: "pyval dict \<Rightarrow> string \<Rightarrow> string \<Rightarrow> int set" where
  "configured_ports payload scope proto = (case get_val payload scope of
     VDict d \<Rightarrow> (case get_val d proto of VList xs \<Rightarrow> {i. VInt i \<in> set xs} | _ \<Rightarrow> {})
   | _ \<Rightarrow> {})"

definition port_scope :: "int list \<Rightarrow> int list \<Rightarrow> (string \<times> int list) list" where
  "port_scope tcp udp = (if tcp = [] then [] else [(''tcp'', tcp)]) @ (if udp = [] then [] else [(''udp'', udp)])"

abbreviation valid_ports :: "int list \<Rightarrow> bool" where
  "valid_ports ports \<equiv> list_all (\<lambda>p. 1 \<le> p \<and> p \<le> 65535) ports"

lemma require_port_list_valid: "require_port_list v path = Inr ports \<Longrightarrow> valid_ports ports"
  by (auto simp: require_port_list_def require_port_def Let_def list_all_iff split: pyval.splits if_splits dest!: rmapi_set)

lemma scope_ports_Inr:
  "scope_ports scope path proto = Inr e \<Longrightarrow> \<exists>ports. valid_ports ports \<and> e = (if ports = [] then [] else [(proto, ports)])"
  using require_port_list_valid by (fastforce simp: scope_ports_def res_simps intro: exI [of _ "[]"] split: option.splits)

lemma normalize_firewall_scope_Inr:
  assumes "normalize_firewall_scope v path = Inr s"
  obtains tcp udp where "s = port_scope tcp udp" "valid_ports tcp" "valid_ports udp"
proof (cases "v = VNone")
  case True
  then show thesis using assms that [of "[]" "[]"] by (simp add: normalize_firewall_scope_def port_scope_def)
next
  case False
  then obtain scope a b where ab: "scope_ports scope path ''tcp'' = Inr a" "scope_ports scope path ''udp'' = Inr b" "s = a @ b"
    using assms by (auto simp: normalize_firewall_scope_def res_simps)
  obtain t where t: "valid_ports t" "a = (if t = [] then [] else [(''tcp'', t)])" using scope_ports_Inr [OF ab(1)] by blast
  obtain u where u: "valid_ports u" "b = (if u = [] then [] else [(''udp'', u)])" using scope_ports_Inr [OF ab(2)] by blast
  show thesis by (rule that [OF _ t(1) u(1)]) (simp add: port_scope_def ab(3) t(2) u(2))
qed

definition inbound_payload :: "int list \<Rightarrow> int list \<Rightarrow> int list \<Rightarrow> int list \<Rightarrow> pyval dict" where
  "inbound_payload wt wu lt lu =
     (if wt = [] \<and> wu = [] then [] else [(''wan'', scope_value (port_scope wt wu))]) @
     (if lt = [] \<and> lu = [] then [] else [(''lan'', scope_value (port_scope lt lu))])"

lemma load_firewall_inbound_Inr:
  assumes "load_firewall_inbound v = Inr payload"
  obtains wt wu lt lu where "payload = inbound_payload wt wu lt lu" "valid_ports wt" "valid_ports wu" "valid_ports lt"
    "valid_ports lu" "8080 \<notin> set wt"
proof -
  obtain i wan lan where n: "normalize_firewall_scope (get_val i ''wan'') ''network.firewall.inbound.wan'' = Inr wan"
      "normalize_firewall_scope (get_val i ''lan'') ''network.firewall.inbound.lan'' = Inr lan"
    and reserved: "8080 \<notin> set (case dget wan ''tcp'' of None \<Rightarrow> [] | Some ports \<Rightarrow> ports)"
    and payload: "payload = (if wan = [] then [] else [(''wan'', scope_value wan)]) @ (if lan = [] then [] else [(''lan'', scope_value lan)])"
    using assms unfolding load_firewall_inbound_def rbind_eq_Inr rguard_eq_Inr
    by (elim exE conjE) (rule that, (assumption | simp)+)
  obtain wt wu where w: "wan = port_scope wt wu" "valid_ports wt" "valid_ports wu" by (rule normalize_firewall_scope_Inr [OF n(1)])
  obtain lt lu where l: "lan = port_scope lt lu" "valid_ports lt" "valid_ports lu" by (rule normalize_firewall_scope_Inr [OF n(2)])
  show thesis
    by (rule that [of wt wu lt lu]) (use w l reserved payload in \<open>auto simp: inbound_payload_def port_scope_def split: if_splits\<close>)
qed

lemma fw_port_valid: "1 \<le> p \<and> p \<le> 65535 \<Longrightarrow> fw_port path i (VInt p) = Inr p"
  by (simp add: fw_port_def)

lemma validate_ports_ints: "valid_ports ports \<Longrightarrow> validate_ports (ints ports) path = Inr ports"
proof -
  have "rmapi n (fw_port path) (map VInt ports) = Inr ports" if "valid_ports ports" for n
    using that by (induction ports arbitrary: n) (simp_all add: fw_port_valid)
  then show "valid_ports ports \<Longrightarrow> ?thesis" by (simp add: validate_ports_def)
qed

lemma scope_lookup:
  "valid_ports tcp \<Longrightarrow> validate_ports (get_val (map (\<lambda>(proto, ports). (proto, ints ports)) (port_scope tcp udp)) ''tcp'') path = Inr tcp"
  "valid_ports udp \<Longrightarrow> validate_ports (get_val (map (\<lambda>(proto, ports). (proto, ints ports)) (port_scope tcp udp)) ''udp'') path = Inr udp"
  by (auto simp: port_scope_def get_or_def validate_ports_ints) (simp_all add: validate_ports_def)

lemma inbound_payload_lookup:
  "get_val (inbound_payload wt wu lt lu) ''wan'' = (if wt = [] \<and> wu = [] then VNone else scope_value (port_scope wt wu))"
  "get_val (inbound_payload wt wu lt lu) ''lan'' = (if lt = [] \<and> lu = [] then VNone else scope_value (port_scope lt lu))"
  by (simp_all add: inbound_payload_def get_or_def)

lemma configured_inbound:
  "configured_ports (inbound_payload wt wu lt lu) ''wan'' ''tcp'' = set wt" "configured_ports (inbound_payload wt wu lt lu) ''wan'' ''udp'' = set wu"
  "configured_ports (inbound_payload wt wu lt lu) ''lan'' ''tcp'' = set lt" "configured_ports (inbound_payload wt wu lt lu) ''lan'' ''udp'' = set lu"
  unfolding configured_ports_def inbound_payload_lookup by (auto simp: scope_value_def port_scope_def get_or_def)

definition port_rules :: "string \<Rightarrow> string \<Rightarrow> int list \<Rightarrow> fw_rule list" where
  "port_rules interface proto ports = (if ports = [] then [] else [Accept_Ports interface proto ports])"

lemma allows_port_rules: "(\<exists>r \<in> set (port_rules i p ports). allows r j q x) \<longleftrightarrow> i = j \<and> p = q \<and> x \<in> set ports"
  by (auto simp: port_rules_def allows_def)

definition lan_ports :: "int list \<Rightarrow> string \<Rightarrow> int list" where
  "lan_ports given proto = sort (remdups (given @ required_ports proto))"

lemma inbound_rules_payload:
  assumes "valid_ports wt" "valid_ports wu" "valid_ports lt" "valid_ports lu"
  shows "inbound_rules env (inbound_payload wt wu lt lu) = Inr (
    port_rules (fw_wan_interface env) ''tcp'' wt @ port_rules (fw_wan_interface env) ''udp'' wu @
    (if lt = [] \<and> lu = [] then [Accept_All (fw_lan_interface env)]
     else port_rules (fw_lan_interface env) ''tcp'' (lan_ports lt ''tcp'') @ port_rules (fw_lan_interface env) ''udp'' (lan_ports lu ''udp'')))"
proof -
  have r: "restrictive_lan (inbound_payload wt wu lt lu) = Inr (lt \<noteq> [] \<or> lu \<noteq> [])"
    by (simp add: restrictive_lan_def inbound_payload_lookup scope_value_def scope_lookup assms)
  have w: "scope_rules b (inbound_payload wt wu lt lu) (''wan'', i) = Inr (port_rules i ''tcp'' wt @ port_rules i ''udp'' wu)" for b i
    by (simp add: scope_rules_def inbound_payload_lookup scope_value_def scope_lookup assms proto_rules_def port_rules_def Let_def)
  have l: "scope_rules (lt \<noteq> [] \<or> lu \<noteq> []) (inbound_payload wt wu lt lu) (''lan'', i) = Inr (if lt = [] \<and> lu = [] then []
      else port_rules i ''tcp'' (lan_ports lt ''tcp'') @ port_rules i ''udp'' (lan_ports lu ''udp''))" for i
    by (simp add: scope_rules_def inbound_payload_lookup scope_value_def scope_lookup assms proto_rules_def port_rules_def lan_ports_def Let_def)
  show ?thesis unfolding inbound_rules_def r rbind_Inr rmap.simps w l by simp
qed

text \<open>C31: Every firewall section that provisioning accepts is accepted by the boot script, and the rules it writes are
  exactly the policy: on the WAN a port is open when and only when it was configured, and the bootstrap port
  8080 never is; on the LAN everything is open when no LAN port was configured, and otherwise the
  configured ports and the ports the gateway needs (SSH, DNS, bootstrap, DHCP, NTP), so a restrictive
  section never locks the operator out.\<close>

theorem inbound_policy_exact:
  assumes "load_firewall_inbound v = Inr payload" "fw_wan_interface env \<noteq> fw_lan_interface env" "proto \<in> {''tcp'', ''udp''}"
  shows "\<exists>rules. inbound_rules env payload = Inr rules \<and>
    ((\<exists>r \<in> set rules. allows r (fw_wan_interface env) proto port) \<longleftrightarrow> port \<in> configured_ports payload ''wan'' proto) \<and>
    ((\<exists>r \<in> set rules. allows r (fw_lan_interface env) proto port) \<longleftrightarrow>
       configured_ports payload ''lan'' ''tcp'' = {} \<and> configured_ports payload ''lan'' ''udp'' = {} \<or>
       port \<in> configured_ports payload ''lan'' proto \<or> port \<in> set (required_ports proto)) \<and>
    8080 \<notin> configured_ports payload ''wan'' ''tcp''"
proof -
  obtain wt wu lt lu where p: "payload = inbound_payload wt wu lt lu" "valid_ports wt" "valid_ports wu" "valid_ports lt"
    "valid_ports lu" "8080 \<notin> set wt" by (rule load_firewall_inbound_Inr [OF assms(1)])
  have "allows (Accept_All i) j q x = (i = j)" for i j q x by (simp add: allows_def)
  then show ?thesis
    using assms(2,3) p(6) unfolding p(1) inbound_rules_payload [OF p(2-5)]
    by (auto simp: configured_inbound bex_Un allows_port_rules lan_ports_def)
qed

theorem inbound_policy_exact_witness:
  "\<exists>rules. inbound_rules \<lparr>fw_rule_comment = ''X'', fw_wan_interface = ''wan'', fw_lan_interface = ''lan''\<rparr>
      [(''wan'', VDict [(''tcp'', ints [443])])] = Inr rules \<and>
    ((\<exists>r \<in> set rules. allows r ''wan'' ''tcp'' 8080) \<longleftrightarrow> 8080 \<in> configured_ports [(''wan'', VDict [(''tcp'', ints [443])])] ''wan'' ''tcp'')"
proof -
  have "load_firewall_inbound (VDict [(''firewall'', VDict [(''inbound'', VDict [(''wan'', VDict [(''tcp'', ints [443])])])])]) =
      Inr [(''wan'', VDict [(''tcp'', ints [443])])]" by code_simp
  from inbound_policy_exact [OF this, of "\<lparr>fw_rule_comment = ''X'', fw_wan_interface = ''wan'', fw_lan_interface = ''lan''\<rparr>" "''tcp''" 8080]
  show ?thesis by auto
qed

subsection \<open>The rules of the previous run\<close>

lemma comment_search_skip:
  assumes "\<not> contains ''comment'' pre" "pre = [] \<or> last pre = CHR '' ''"
  shows "comment_search b (pre @ ''comment '' @ t) = comment_search (pre = [] \<and> b) (''comment '' @ t)"
  using assms
proof (induction pre arbitrary: b)
  case (Cons x xs)
  have no: "\<not> starts_with ''comment'' (x # xs @ ''comment '' @ t)"
  proof
    assume s: "starts_with ''comment'' (x # xs @ ''comment '' @ t)"
    show False
    proof (cases "7 \<le> length (x # xs)")
      case True
      then have "starts_with ''comment'' (x # xs)" using s by (simp add: starts_with_def)
      then show False using Cons.prems(1) by (simp add: contains_Cons)
    next
      case False
      then have "CHR '' '' \<in> set (take 7 (x # xs @ ''comment '' @ t))"
        using Cons.prems(2) last_in_set [of "x # xs"] by (auto simp: take_Cons')
      moreover have "length ''comment'' = 7" by simp
      then have "take 7 (x # xs @ ''comment '' @ t) = ''comment''" using s unfolding starts_with_def by (simp only:)
      ultimately show False by (simp only:) simp
    qed
  qed
  have "comment_here (x # xs @ ''comment '' @ t) = None" unfolding comment_here_def if_not_P [OF no] ..
  then have "comment_search b ((x # xs) @ ''comment '' @ t) = comment_search (is_word_char x) (xs @ ''comment '' @ t)"
    unfolding append_Cons comment_search.simps by (simp only: if_cancel option.case)
  also have "\<dots> = comment_search (xs = [] \<and> is_word_char x) (''comment '' @ t)"
    by (rule Cons.IH) (use Cons.prems in \<open>simp_all add: contains_Cons split: if_splits\<close>)
  also have "(xs = [] \<and> is_word_char x) = False"
    using Cons.prems(2) by (auto simp: is_word_char_def is_alnum_def is_ascii_alnum_def is_ascii_digit_def is_ascii_lower_def is_ascii_upper_def cp_def)
  finally show ?case by (simp only: list.distinct(2) list.distinct(1) simp_thms)
qed simp

lemma quoted_body_plain: "CHR 0x22 \<notin> set c \<Longrightarrow> CHR 0x5C \<notin> set c \<Longrightarrow> quoted_body (c @ CHR 0x22 # t) = Some c"
  by (induction c) auto

lemma json_unescape_plain: "list_all (\<lambda>c. 32 \<le> cp c) c \<Longrightarrow> CHR 0x22 \<notin> set c \<Longrightarrow> CHR 0x5C \<notin> set c \<Longrightarrow> json_unescape c = Some (map cp c)"
  by (induction c) auto

lemma rule_handle_suffix:
  assumes "h \<noteq> []" "list_all is_ascii_digit h"
  shows "rule_handle (u @ ''handle '' @ h) = Some h"
proof (induction u)
  case Nil
  show ?case using assms by (simp add: starts_with_def)
next
  case (Cons x u)
  have "CHR '' '' \<in> set (drop 7 ((x # u) @ ''handle '' @ h))" by (cases "7 \<le> length (x # u)") (auto simp: drop_Cons')
  moreover have "\<not> is_ascii_digit (CHR '' '')" by code_simp
  ultimately show ?case using Cons by (auto simp: list_all_iff)
qed

text \<open>The rules of a previous run are found again: a line of the nft listing that carries the script's own
  comment (or that of the open LAN rule) as nft prints it, with a handle at its end, has its delete command
  in the text of the next run, so rules do not pile up. The comment has passed the script's validation and
  has no backslash, and the text before it has no other \<^verbatim>\<open>comment\<close>.\<close>

theorem own_rules_deleted:
  assumes "validate_rule_comment comment = Inr comment" "CHR 0x5C \<notin> set comment"
    and "rule_comment = comment \<or> comment = lan_default_open_comment"
    and "\<not> contains ''comment'' pre" "pre = [] \<or> last pre = CHR '' ''" "h \<noteq> []" "list_all is_ascii_digit h"
    and "pre @ ''comment '' @ [CHR 0x22] @ comment @ [CHR 0x22] @ '' # handle '' @ h \<in> set (splitlines listing)"
  shows "delete_command h \<in> set (delete_commands rule_comment listing)"
proof -
  let ?line = "pre @ ''comment '' @ [CHR 0x22] @ comment @ [CHR 0x22] @ '' # handle '' @ h"
  have c: "list_all (\<lambda>c. 32 \<le> cp c) comment" "CHR 0x22 \<notin> set comment"
    using assms(1) by (auto simp: validate_rule_comment_def list_all_iff split: if_splits)
  have "comment_search False ?line = Some comment"
    unfolding comment_search_skip [OF assms(4,5)]
    using quoted_body_plain [OF c(2) assms(2)] by (simp add: comment_here_def starts_with_def is_space_def cp_def)
  then have "nft_rule_comment ?line = Some (map cp comment)"
    using json_unescape_plain [OF c assms(2)] by (simp add: nft_rule_comment_def)
  moreover have "rule_handle ?line = Some h"
    using rule_handle_suffix [OF assms(6,7), of "pre @ ''comment '' @ [CHR 0x22] @ comment @ [CHR 0x22] @ '' # ''"] by simp
  ultimately show ?thesis using assms(3,8) unfolding delete_commands_def by force
qed

theorem own_rules_deleted_witness:
  "delete_command ''7'' \<in> set (delete_commands ''X'' (''iif lan comment '' @ [CHR 0x22] @ ''X'' @ [CHR 0x22] @ '' # handle 7''))"
  by (rule own_rules_deleted [where pre = "''iif lan ''" and comment = "''X''"]) (simp; fail | code_simp)+

end
