(* ===== verification/Managed_Users.thy ===== *)
theory Managed_Users
  imports Config_Sections
begin

text \<open>
  \<^verbatim>\<open>scripts/apply-users.py\<close>: materializing the managed user accounts from the stored configuration.

  The account database and the programs that change it (\<^verbatim>\<open>useradd\<close>, \<^verbatim>\<open>usermod\<close>,
  \<^verbatim>\<open>gpasswd\<close>) are parameters: a record of operations on an abstract database \<open>'db\<close>, where
  running a command either fails or gives the next database. The script's own state is the database, the
  log of the commands, the key files whose owner was set, and the record of managed names.
\<close>

section \<open>Definitions\<close>

record 'db account_ops =
  op_run :: "string list \<Rightarrow> 'db \<Rightarrow> 'db option"
  op_user_exists :: "'db \<Rightarrow> string \<Rightarrow> bool"
  op_group_members :: "'db \<Rightarrow> string \<Rightarrow> string list option"

datatype key_node = No_Key | Key_Link | Key_File

record users_env =
  admin_shell :: string
  system_shell :: string
  worker_active :: bool
  touches_data_config :: bool
  key_at :: "string \<Rightarrow> key_node"
  key_in_data_config :: "string \<Rightarrow> bool"

record 'db users_state =
  db :: 'db
  exec_log :: "string list list"
  keys_owned :: "string list"
  managed_state :: json_file

definition protected_users :: "string list" where
  "protected_users = [''root'', ''appsvc'']"

definition valid_username :: "string \<Rightarrow> bool" where
  "valid_username name = (username_re name \<and> name \<notin> set protected_users)"

definition system_exit :: error where
  "system_exit = PyExc ''SystemExit(1)''"

definition run_cmd :: "'db account_ops \<Rightarrow> string list \<Rightarrow> 'db users_state \<Rightarrow> unit res \<times> 'db users_state" where
  "run_cmd ops cmd st = (let st1 = st\<lparr>exec_log := exec_log st @ [cmd]\<rparr> in
     case op_run ops cmd (db st) of
       None \<Rightarrow> (Inl system_exit, st1)
     | Some d \<Rightarrow> (Inr (), st1\<lparr>db := d\<rparr>))"

text \<open>Statements in sequence, up to the first exception.\<close>

definition seq :: "('s \<Rightarrow> unit res \<times> 's) \<Rightarrow> ('s \<Rightarrow> unit res \<times> 's) \<Rightarrow> 's \<Rightarrow> unit res \<times> 's" where
  "seq f g st = (case f st of (Inl e, st1) \<Rightarrow> (Inl e, st1) | (Inr u, st1) \<Rightarrow> g st1)"

fun for_each :: "('a \<Rightarrow> 's \<Rightarrow> unit res \<times> 's) \<Rightarrow> 'a list \<Rightarrow> 's \<Rightarrow> unit res \<times> 's" where
  "for_each f [] st = (Inr (), st)"
| "for_each f (x # xs) st = (case f x st of (Inl e, st1) \<Rightarrow> (Inl e, st1) | (Inr u, st1) \<Rightarrow> for_each f xs st1)"

definition shells :: "string dict" where
  "shells = [(''bash'', ''/run/current-system/sw/bin/bash''), (''sh'', ''/run/current-system/sw/bin/sh''),
     (''zsh'', ''/run/current-system/sw/bin/zsh'')]"

definition user_shell :: "users_env \<Rightarrow> pyval dict \<Rightarrow> bool \<Rightarrow> string res" where
  "user_shell env user is_admin = (case get_val user ''shell'' of
     VNone \<Rightarrow> Inr (if is_admin then admin_shell env else system_shell env)
   | VStr s \<Rightarrow> (case dget shells s of None \<Rightarrow> Inl system_exit | Some p \<Rightarrow> Inr p)
   | VList xs \<Rightarrow> Inl (PyExc ''TypeError'')
   | VDict d \<Rightarrow> Inl (PyExc ''TypeError'')
   | _ \<Rightarrow> Inl system_exit)"

definition remove_from_group :: "'db account_ops \<Rightarrow> string \<Rightarrow> string \<Rightarrow> 'db users_state \<Rightarrow> unit res \<times> 'db users_state" where
  "remove_from_group ops name grp st = (case op_group_members ops (db st) grp of
     Some members \<Rightarrow> (if name \<in> set members then run_cmd ops [''gpasswd'', ''--delete'', name, grp] st else (Inr (), st))
   | None \<Rightarrow> (Inr (), st))"

definition manage_groups :: "'db account_ops \<Rightarrow> string \<Rightarrow> bool \<Rightarrow> 'db users_state \<Rightarrow> unit res \<times> 'db users_state" where
  "manage_groups ops name is_admin st =
     (if is_admin then
        (let groups = filter (\<lambda>g. op_group_members ops (db st) g \<noteq> None) [''wheel'', ''podman''] in
         if groups = [] then (Inr (), st)
         else run_cmd ops [''usermod'', ''--append'', ''--groups'', join '','' groups, name] st)
      else for_each (remove_from_group ops name) [''wheel'', ''podman''] st)"

definition ensure_account ::
  "'db account_ops \<Rightarrow> users_env \<Rightarrow> string \<Rightarrow> pyval dict \<Rightarrow> bool \<Rightarrow> string list \<Rightarrow> 'db users_state \<Rightarrow> unit res \<times> 'db users_state" where
  "ensure_account ops env name user is_admin previous st =
     (if op_user_exists ops (db st) name then
        (if name \<notin> set previous then (Inl system_exit, st)
         else run_cmd ops [''usermod'', ''--expiredate='', ''--lock'', name] st)
      else case user_shell env user is_admin of
        Inl e \<Rightarrow> (Inl e, st)
      | Inr shell \<Rightarrow>
          seq (run_cmd ops [''useradd'', if is_admin then ''--create-home'' else ''--system'', ''--shell'', shell, name])
              (run_cmd ops [''usermod'', ''--lock'', name]) st)"

definition ensure_user ::
  "'db account_ops \<Rightarrow> users_env \<Rightarrow> string \<Rightarrow> pyval dict \<Rightarrow> string list \<Rightarrow> 'db users_state \<Rightarrow> unit res \<times> 'db users_state" where
  "ensure_user ops env name user previous st =
     (if name \<in> set protected_users then (Inr (), st)
      else let is_admin = py_truthy (get_or (VBool False) user ''isAdmin'') in
           seq (ensure_account ops env name user is_admin previous) (manage_groups ops name is_admin) st)"

definition ensure_authorized_keys_owner ::
  "'db account_ops \<Rightarrow> users_env \<Rightarrow> string \<Rightarrow> 'db users_state \<Rightarrow> unit res \<times> 'db users_state" where
  "ensure_authorized_keys_owner ops env name st =
     (if key_at env name = No_Key \<or> \<not> op_user_exists ops (db st) name then (Inr (), st)
      else if key_at env name = Key_Link then (Inl system_exit, st)
      else if key_in_data_config env name \<and> \<not> worker_active env then (Inl system_exit, st)
      else (Inr (), st\<lparr>keys_owned := keys_owned st @ [name]\<rparr>))"

definition lock_user :: "'db account_ops \<Rightarrow> string \<Rightarrow> 'db users_state \<Rightarrow> unit res \<times> 'db users_state" where
  "lock_user ops name st =
     (if name \<in> set protected_users \<or> \<not> op_user_exists ops (db st) name then (Inr (), st)
      else run_cmd ops [''usermod'', ''--lock'', ''--expiredate=1'', ''--shell=/sbin/nologin'', name] st)"

definition string_names :: "pyval list \<Rightarrow> string list" where
  "string_names xs = concat (map (\<lambda>v. case v of VStr s \<Rightarrow> [s] | _ \<Rightarrow> []) xs)"

definition load_previous_managed :: "json_file \<Rightarrow> string list" where
  "load_previous_managed f = (case f of Json (VList xs) \<Rightarrow> string_names xs | _ \<Rightarrow> [])"

definition save_managed_state :: "string list \<Rightarrow> 'db users_state \<Rightarrow> unit res \<times> 'db users_state" where
  "save_managed_state names st = (Inr (), st\<lparr>managed_state := Json (VList (map VStr (sort (remdups names))))\<rparr>)"

text \<open>One entry of \<^verbatim>\<open>users.items()\<close>: an invalid name is skipped, a value that is no object has no \<^verbatim>\<open>get\<close>.\<close>

definition apply_user ::
  "'db account_ops \<Rightarrow> users_env \<Rightarrow> string list \<Rightarrow> string \<times> pyval \<Rightarrow> 'db users_state \<Rightarrow> unit res \<times> 'db users_state" where
  "apply_user ops env previous entry st = (case entry of (username, v) \<Rightarrow>
     if \<not> valid_username username \<and> username \<notin> set protected_users then (Inr (), st)
     else case v of
       VDict user \<Rightarrow> seq (ensure_user ops env username user previous) (ensure_authorized_keys_owner ops env username) st
     | _ \<Rightarrow> (Inl (PyExc ''AttributeError''), st))"

definition current_users :: "pyval dict \<Rightarrow> string list" where
  "current_users users = filter valid_username (dkeys users)"

definition users_main :: "'db account_ops \<Rightarrow> users_env \<Rightarrow> json_file \<Rightarrow> 'db users_state \<Rightarrow> unit res \<times> 'db users_state" where
  "users_main ops env users_json st =
     (if touches_data_config env \<and> \<not> worker_active env then (Inl system_exit, st)
      else case users_json of
        Absent \<Rightarrow> (Inr (), st)
      | Json (VDict users) \<Rightarrow>
          (let previous = load_previous_managed (managed_state st);
               removed = filter (\<lambda>n. n \<notin> set (current_users users)) previous in
           seq (for_each (apply_user ops env previous) users)
             (seq (for_each (lock_user ops) (sort (remdups removed)))
                (save_managed_state (current_users users))) st)
      | _ \<Rightarrow> (Inl system_exit, st))"

section \<open>Theorems\<close>

subsection \<open>Unmanaged accounts\<close>

text \<open>A statement keeps a property of the state, whether it ends normally or not.\<close>

definition keeps :: "('s \<Rightarrow> bool) \<Rightarrow> ('s \<Rightarrow> 'r \<times> 's) \<Rightarrow> bool" where
  "keeps I f = (\<forall>st. I st \<longrightarrow> I (snd (f st)))"

lemma keepsI: "(\<And>st. I st \<Longrightarrow> I (snd (f st))) \<Longrightarrow> keeps I f"
  by (simp add: keeps_def)

lemma keepsD: "keeps I f \<Longrightarrow> I st \<Longrightarrow> I (snd (f st))"
  by (simp add: keeps_def)

lemma keeps_seq: "keeps I f \<Longrightarrow> keeps I g \<Longrightarrow> keeps I (seq f g)"
  unfolding keeps_def seq_def by (fastforce split: prod.splits sum.splits)

lemma keeps_for_each: "(\<And>x. x \<in> set xs \<Longrightarrow> keeps I (f x)) \<Longrightarrow> keeps I (for_each f xs)"
proof (induction xs)
  case (Cons x xs)
  then have "keeps I (f x)" "keeps I (for_each f xs)" by auto
  then show ?case unfolding keeps_def by (fastforce split: prod.splits sum.splits)
qed (simp add: keeps_def)

definition command_user :: "string list \<Rightarrow> string" where
  "command_user c = (if hd c = ''gpasswd'' then c ! 2 else last c)"

definition untouched :: "'db account_ops \<Rightarrow> string \<Rightarrow> 'db users_state \<Rightarrow> bool" where
  "untouched ops u st = (op_user_exists ops (db st) u \<and>
     (\<forall>c \<in> set (exec_log st). command_user c \<noteq> u \<and> command_user c \<notin> set protected_users))"

definition accounts_stay :: "'db account_ops \<Rightarrow> bool" where
  "accounts_stay ops = (\<forall>c d d' u. op_run ops c d = Some d' \<longrightarrow> op_user_exists ops d u \<longrightarrow> op_user_exists ops d' u)"

lemma keeps_run_cmd:
  assumes "accounts_stay ops" "command_user c \<noteq> u" "command_user c \<notin> set protected_users"
  shows "keeps (untouched ops u) (run_cmd ops c)"
  using assms by (intro keepsI) (auto simp: run_cmd_def untouched_def accounts_stay_def Let_def split: option.splits)

lemma keeps_manage_groups:
  assumes "accounts_stay ops" "name \<noteq> u" "name \<notin> set protected_users"
  shows "keeps (untouched ops u) (manage_groups ops name b)"
proof -
  note run = keepsD [OF keeps_run_cmd [OF assms(1)]]
  have "keeps (untouched ops u) (remove_from_group ops name g)" for g
    using assms(2,3) by (intro keepsI) (auto simp: remove_from_group_def command_user_def intro!: run split: option.splits)
  then have "keeps (untouched ops u) (for_each (remove_from_group ops name) [''wheel'', ''podman''])" by (rule keeps_for_each)
  then show ?thesis
    using assms(2,3) by (intro keepsI) (auto simp: manage_groups_def command_user_def Let_def simp del: for_each.simps intro!: run dest: keepsD)
qed

lemma keeps_ensure_user:
  assumes "accounts_stay ops" "u \<notin> set previous"
  shows "keeps (untouched ops u) (ensure_user ops env name user previous)"
proof (cases "name = u \<or> name \<in> set protected_users")
  case True
  then show ?thesis using assms(2)
    by (intro keepsI) (auto simp: ensure_user_def ensure_account_def seq_def untouched_def Let_def)
next
  case False
  note run = keeps_run_cmd [OF assms(1)]
  have cmds: "keeps (untouched ops u) (run_cmd ops [''usermod'', ''--expiredate='', ''--lock'', name])"
    "\<And>x y. keeps (untouched ops u) (seq (run_cmd ops [''useradd'', x, ''--shell'', y, name]) (run_cmd ops [''usermod'', ''--lock'', name]))"
    using False by (auto simp: command_user_def intro!: run keeps_seq)
  have "keeps (untouched ops u) (ensure_account ops env name user b previous)" for b
    by (intro keepsI) (auto simp: ensure_account_def intro!: keepsD [OF cmds(1)] keepsD [OF cmds(2)] split: sum.splits)
  then have "keeps (untouched ops u) (seq (ensure_account ops env name user b previous) (manage_groups ops name b))" for b
    using False by (intro keeps_seq keeps_manage_groups assms(1)) auto
  then show ?thesis using False by (auto simp: keeps_def ensure_user_def Let_def)
qed

lemma keeps_apply_user:
  assumes "accounts_stay ops" "u \<notin> set previous"
  shows "keeps (untouched ops u) (apply_user ops env previous e)"
proof -
  have "keeps (untouched ops u) (ensure_authorized_keys_owner ops env n)" for n
    by (intro keepsI) (simp add: ensure_authorized_keys_owner_def untouched_def)
  then show ?thesis using keepsD [OF keeps_seq [OF keeps_ensure_user [OF assms]]]
    by (intro keepsI) (auto simp: apply_user_def split: prod.splits pyval.splits)
qed

lemma keeps_lock_user:
  assumes "accounts_stay ops" "name \<noteq> u"
  shows "keeps (untouched ops u) (lock_user ops name)"
  using assms by (intro keepsI) (auto simp: lock_user_def command_user_def intro!: keepsD [OF keeps_run_cmd])

lemma set_string_names: "set (string_names xs) = {s. VStr s \<in> set xs}"
  by (force simp: string_names_def split: pyval.splits)

text \<open>C36: Provisioning never touches an account it does not manage. If an account exists and is not in the record of
  managed users, no command of a run names it, whether the run succeeds or fails and whatever the
  configuration declares; and no command ever names root or appsvc. Of the account tools it is assumed
  that no command removes an account.\<close>

theorem unmanaged_accounts_untouched:
  assumes "accounts_stay ops" "op_user_exists ops (db st) u" "u \<notin> set (load_previous_managed (managed_state st))" "exec_log st = []"
  shows "\<forall>c \<in> set (exec_log (snd (users_main ops env users_json st))). command_user c \<noteq> u \<and> command_user c \<notin> set protected_users"
proof -
  let ?p = "load_previous_managed (managed_state st)"
  have a: "keeps (untouched ops u) (for_each (apply_user ops env ?p) us)" for us
    by (intro keeps_for_each keeps_apply_user assms(1,3))
  have "keeps (untouched ops u) (for_each (lock_user ops) (sort (remdups (filter P ?p))))" for P
    using assms(3) by (intro keeps_for_each keeps_lock_user [OF assms(1)]) auto
  moreover have "keeps (untouched ops u) (save_managed_state ns)" for ns
    by (intro keepsI) (simp add: save_managed_state_def untouched_def)
  ultimately have "untouched ops u (snd (users_main ops env users_json st))"
    using assms(2,4) keepsD [OF keeps_seq [OF a keeps_seq]]
    by (auto simp: users_main_def untouched_def [of _ _ st] Let_def split: json_file.splits pyval.splits)
  then show ?thesis by (simp add: untouched_def)
qed

text \<open>A small account database: the names of the accounts, where \<^verbatim>\<open>useradd\<close> fails on \<^verbatim>\<open>bob\<close>.\<close>

definition sample_ops :: "string list account_ops" where
  "sample_ops = \<lparr>op_run = (\<lambda>c d. if hd c = ''useradd'' then (if last c = ''bob'' then None else Some (last c # d)) else Some d),
     op_user_exists = (\<lambda>d u. u \<in> set d), op_group_members = (\<lambda>d g. None)\<rparr>"

definition sample_users_env :: users_env where
  "sample_users_env = \<lparr>admin_shell = ''/bin/bash'', system_shell = ''/bin/nologin'', worker_active = True, touches_data_config = True,
     key_at = (\<lambda>n. No_Key), key_in_data_config = (\<lambda>n. True)\<rparr>"

definition sample_users_state :: "string list users_state" where
  "sample_users_state = \<lparr>db = [''root'', ''nobody''], exec_log = [], keys_owned = [], managed_state = Absent\<rparr>"

theorem unmanaged_accounts_untouched_witness:
  "list_all (\<lambda>c. command_user c \<noteq> ''nobody'' \<and> command_user c \<notin> set protected_users) (exec_log (snd (users_main sample_ops sample_users_env
      (Json (VDict [(''ann'', VDict [(''isAdmin'', VBool True)]), (''nobody'', VDict [])])) sample_users_state)))"
  unfolding list_all_iff
  by (rule unmanaged_accounts_untouched)
    (auto simp: accounts_stay_def sample_ops_def sample_users_state_def load_previous_managed_def split: if_splits)

subsection \<open>The managed record\<close>

lemma keeps_accounts:
  assumes run: "\<And>c. keeps I (run_cmd ops c)" and keys: "\<And>st ns. I st \<Longrightarrow> I (st\<lparr>keys_owned := ns\<rparr>)"
  shows "keeps I (apply_user ops env previous e)" "keeps I (lock_user ops n)"
proof -
  have rm: "keeps I (remove_from_group ops name g)" for name g
    by (intro keepsI) (auto simp: remove_from_group_def intro!: keepsD [OF run] split: option.splits)
  have "keeps I (for_each (remove_from_group ops name) gs)" for name gs by (intro keeps_for_each rm)
  then have groups: "keeps I (manage_groups ops name b)" for name b
    by (intro keepsI) (auto simp: manage_groups_def Let_def simp del: for_each.simps intro!: keepsD [OF run] dest: keepsD)
  have "keeps I (seq (run_cmd ops c) (run_cmd ops c'))" for c c' by (intro keeps_seq run)
  then have "keeps I (ensure_account ops env name user b previous)" for name user b
    by (intro keepsI) (auto simp: ensure_account_def intro!: keepsD [OF run] split: sum.splits dest: keepsD)
  then have "keeps I (seq (ensure_account ops env name user b previous) (manage_groups ops name b))" for name user b
    by (intro keeps_seq groups)
  then have user: "keeps I (ensure_user ops env name user previous)" for name user
    by (auto simp: keeps_def ensure_user_def Let_def)
  have "keeps I (ensure_authorized_keys_owner ops env name)" for name
    by (intro keepsI) (auto simp: ensure_authorized_keys_owner_def intro: keys)
  then have "keeps I (seq (ensure_user ops env name user previous) (ensure_authorized_keys_owner ops env name))" for name user
    by (intro keeps_seq user)
  then show "keeps I (apply_user ops env previous e)"
    by (intro keepsI) (auto simp: apply_user_def split: prod.splits pyval.splits dest: keepsD)
  show "keeps I (lock_user ops n)"
    by (intro keepsI) (auto simp: lock_user_def intro!: keepsD [OF run])
qed

lemma run_cmd_keeps:
  "keeps (\<lambda>s. managed_state s = f) (run_cmd ops c)" "keeps (\<lambda>s. x \<in> set (exec_log s)) (run_cmd ops c)"
  "accounts_stay ops \<Longrightarrow> keeps (\<lambda>s. op_user_exists ops (db s) u) (run_cmd ops c)"
  by (auto simp: keeps_def run_cmd_def accounts_stay_def Let_def split: option.splits)

definition lock_command :: "string \<Rightarrow> string list" where
  "lock_command n = [''usermod'', ''--lock'', ''--expiredate=1'', ''--shell=/sbin/nologin'', n]"

lemma lock_all:
  assumes "accounts_stay ops" "n \<notin> set protected_users"
  shows "for_each (lock_user ops) xs st = (Inr u, st1) \<Longrightarrow> n \<in> set xs \<Longrightarrow> op_user_exists ops (db st) n \<Longrightarrow>
    lock_command n \<in> set (exec_log st1)"
proof (induction xs arbitrary: st)
  case (Cons x xs)
  obtain s where s: "lock_user ops x st = (Inr (), s)" "for_each (lock_user ops) xs s = (Inr u, st1)"
    using Cons.prems(1) by (auto split: prod.splits sum.splits)
  show ?case
  proof (cases "x = n")
    case True
    then have "lock_command n \<in> set (exec_log s)"
      using s(1) Cons.prems(3) assms(2) by (auto simp: lock_user_def run_cmd_def lock_command_def Let_def split: option.splits)
    moreover have "keeps (\<lambda>s. lock_command n \<in> set (exec_log s)) (for_each (lock_user ops) xs)"
      by (intro keeps_for_each keeps_accounts(2) run_cmd_keeps) simp
    ultimately show ?thesis using keepsD s(2) by fastforce
  next
    case False
    have "keeps (\<lambda>s. op_user_exists ops (db s) n) (lock_user ops x)"
      by (intro keeps_accounts(2) run_cmd_keeps(3) assms(1)) simp
    then show ?thesis using Cons.IH [OF s(2)] Cons.prems(2,3) False s(1) keepsD by fastforce
  qed
qed simp

text \<open>C37: The managed record follows the configuration: after a successful run it is the sorted list of the declared
  valid names, and every account that was managed and is no longer declared was locked, expired and given
  no shell; a failed run leaves the record as it was.\<close>

theorem managed_record_follows_config:
  assumes "accounts_stay ops" "users_main ops env (Json (VDict users)) st = (r, st1)"
  shows "case r of
    Inl e \<Rightarrow> managed_state st1 = managed_state st
  | Inr u \<Rightarrow> load_previous_managed (managed_state st1) = sort (remdups (current_users users)) \<and>
      (\<forall>n. n \<in> set (load_previous_managed (managed_state st)) \<and> n \<notin> set (current_users users) \<and> n \<notin> set protected_users \<and>
         op_user_exists ops (db st) n \<longrightarrow> lock_command n \<in> set (exec_log st1))"
proof -
  let ?p = "load_previous_managed (managed_state st)"
  let ?removed = "sort (remdups (filter (\<lambda>n. n \<notin> set (current_users users)) ?p))"
  let ?main = "seq (for_each (apply_user ops env ?p) users) (for_each (lock_user ops) ?removed)"
  have loops: "keeps I (for_each (apply_user ops env ?p) users)" "keeps I (for_each (lock_user ops) ?removed)"
    if "\<And>c. keeps I (run_cmd ops c)" "\<And>st ns. I st \<Longrightarrow> I (st\<lparr>keys_owned := ns\<rparr>)" for I :: "'a users_state \<Rightarrow> bool"
    using keeps_accounts [OF that] by (blast intro: keeps_for_each)+
  show ?thesis
  proof (cases r)
    case (Inl e)
    have "keeps (\<lambda>s. managed_state s = managed_state st) ?main" by (intro keeps_seq loops run_cmd_keeps) simp_all
    then have "managed_state (snd (?main st)) = managed_state st" by (auto dest: keepsD)
    moreover have "st1 = snd (?main st) \<or> st1 = st"
      using assms(2) Inl by (auto simp: users_main_def seq_def save_managed_state_def Let_def split: if_splits prod.splits sum.splits)
    ultimately show ?thesis using Inl by auto
  next
    case (Inr u)
    obtain s1 s2 where s: "for_each (apply_user ops env ?p) users st = (Inr (), s1)" "for_each (lock_user ops) ?removed s1 = (Inr (), s2)"
      "st1 = s2\<lparr>managed_state := Json (VList (map VStr (sort (remdups (current_users users)))))\<rparr>"
      using assms(2) Inr by (auto simp: users_main_def seq_def save_managed_state_def Let_def split: if_splits prod.splits sum.splits)
    have "load_previous_managed (managed_state st1) = sort (remdups (current_users users))"
      by (simp add: s(3) load_previous_managed_def string_names_def comp_def)
    moreover have "lock_command n \<in> set (exec_log st1)"
      if n: "n \<in> set ?p" "n \<notin> set (current_users users)" "n \<notin> set protected_users" "op_user_exists ops (db st) n" for n
    proof -
      have "keeps (\<lambda>s. op_user_exists ops (db s) n) (for_each (apply_user ops env ?p) users)"
        by (intro loops run_cmd_keeps(3) assms(1)) simp
      then have "op_user_exists ops (db s1) n" using n(4) s(1) keepsD by fastforce
      then show ?thesis using lock_all [OF assms(1) n(3) s(2)] n(1,2) by (simp add: s(3))
    qed
    ultimately show ?thesis using Inr by auto
  qed
qed

theorem managed_record_follows_config_witness:
  "\<exists>r st1. users_main sample_ops sample_users_env (Json (VDict [(''bob'', VDict [])])) sample_users_state = (r, st1) \<and> isl r \<and> managed_state st1 = Absent"
proof -
  obtain r st1 where run: "users_main sample_ops sample_users_env (Json (VDict [(''bob'', VDict [])])) sample_users_state = (r, st1)" by fastforce
  have "isl (fst (users_main sample_ops sample_users_env (Json (VDict [(''bob'', VDict [])])) sample_users_state))" by code_simp
  moreover have "accounts_stay sample_ops" by (auto simp: accounts_stay_def sample_ops_def split: if_splits)
  note managed_record_follows_config [OF this run]
  ultimately show ?thesis using run by (cases r) (auto simp: sample_users_state_def)
qed

text \<open>
  The record is written only at the end. When a later user fails, the accounts created before are not
  recorded, and the next run on the same database refuses them as unmanaged.
\<close>

lemma failed_apply_blocks_retry:
  "let st1 = snd (users_main sample_ops sample_users_env (Json (VDict [(''ann'', VDict []), (''bob'', VDict [])])) sample_users_state) in
   users_main sample_ops sample_users_env (Json (VDict [(''ann'', VDict [])])) st1 = (Inl system_exit, st1)"
  by code_simp

end
