(* ===== verification/Partial_Config.thy ===== *)
theory Partial_Config
  imports Config_Sections
begin

text \<open>
  \<^verbatim>\<open>partial_config.py\<close>: typed updates of the stored configuration document and its canonical TOML text.

  A document is a dict of parsed TOML values; \<^verbatim>\<open>deepcopy\<close> makes every update a function of the old
  document. A table that is expected to be a dict but is not raises the \<^verbatim>\<open>TypeError\<close> or
  \<^verbatim>\<open>AttributeError\<close> of the operation on it.
\<close>

section \<open>Definitions\<close>

subsection \<open>Updates\<close>

definition require_payload :: "pyval \<Rightarrow> string list option \<Rightarrow> pyval dict res" where
  "require_payload payload allowed = (case payload of
     VDict d \<Rightarrow>
       (case allowed of
          None \<Rightarrow> Inr d
        | Some ks \<Rightarrow>
            (case filter (\<lambda>k. k \<notin> set ks) (dkeys d) of
               [] \<Rightarrow> Inr d
             | extra \<Rightarrow> Inl (ProvisionError (''unsupported partial request keys: '' @ join '', '' (sort extra)))))
   | _ \<Rightarrow> Inl (ProvisionError ''partial request body must be a JSON object''))"

definition require_key :: "pyval dict \<Rightarrow> string \<Rightarrow> string \<Rightarrow> unit res" where
  "require_key d kind key = rguard (has_key d key) (ProvisionError (kind @ '' payload missing required key: '' @ key))"

text \<open>\<^verbatim>\<open>d.setdefault(key, {})\<close>, updated in place by \<open>f\<close>.\<close>

definition update_table :: "string \<Rightarrow> (pyval dict \<Rightarrow> pyval dict res) \<Rightarrow> pyval dict \<Rightarrow> pyval dict res" where
  "update_table key f d = (case get_or (VDict []) d key of
     VDict t \<Rightarrow> rbind (f t) (\<lambda>t1. Inr (dset key (VDict t1) d))
   | _ \<Rightarrow> Inl (PyExc ''TypeError''))"

definition put_user :: "pyval dict \<Rightarrow> string \<Rightarrow> pyval \<Rightarrow> pyval dict res" where
  "put_user config name payload =
     rbind (validate_username name) (\<lambda>u.
     rbind (require_payload payload (Some [''isAdmin'', ''ssh_key'', ''shell''])) (\<lambda>user.
     rbind (require_key user ''user'' ''isAdmin'') (\<lambda>u1.
     rbind (require_key user ''user'' ''ssh_key'') (\<lambda>u2.
     update_table ''users'' (\<lambda>users. Inr (dset name (VDict user) users)) config))))"

definition delete_user :: "pyval dict \<Rightarrow> string \<Rightarrow> pyval dict res" where
  "delete_user config name =
     rbind (validate_username name) (\<lambda>u. update_table ''users'' (\<lambda>users. Inr (dpop name users)) config)"

function deep_merge :: "pyval dict \<Rightarrow> pyval dict \<Rightarrow> pyval dict" where
  "deep_merge target [] = target"
| "deep_merge target ((key, v) # patch) = deep_merge
     (case v of
        VNone \<Rightarrow> dpop key target
      | VDict p \<Rightarrow> (case dget target key of
            Some (VDict t) \<Rightarrow> dset key (VDict (deep_merge t p)) target
          | _ \<Rightarrow> dset key v target)
      | _ \<Rightarrow> dset key v target) patch"
  by pat_completeness auto
termination
  by (relation "measure (\<lambda>(t, p). size (VDict p))") auto

definition patch_network :: "pyval dict \<Rightarrow> pyval \<Rightarrow> pyval dict res" where
  "patch_network config payload =
     rbind (require_payload payload (Some [''dns_servers'', ''dns_search_domains'', ''default_gateway'', ''interfaces'',
              ''dnsmasq'', ''ntp'', ''firewall''])) (\<lambda>network.
     update_table ''network'' (\<lambda>current. Inr (deep_merge current network)) config)"

definition check_resource :: "string \<Rightarrow> pyval dict \<Rightarrow> unit res" where
  "check_resource table resource =
     (if table = ''container'' then
        rbind (require_payload (VDict resource) (Some [''privileged'', ''Unit'', ''Container'', ''Install''])) (\<lambda>r.
        rbind (require_key resource ''container'' ''privileged'') (\<lambda>u. require_key resource ''container'' ''Container''))
      else if table = ''network'' then
        rbind (require_payload (VDict resource) (Some [''Network''])) (\<lambda>r. require_key resource ''network'' ''Network'')
      else if table = ''volume'' then
        rbind (require_payload (VDict resource) (Some [''Volume''])) (\<lambda>r. require_key resource ''volume'' ''Volume'')
      else Inr ())"

definition put_resource :: "pyval dict \<Rightarrow> string \<Rightarrow> string \<Rightarrow> pyval \<Rightarrow> pyval dict res" where
  "put_resource config table name payload =
     rbind (validate_name name) (\<lambda>u.
     rbind (require_payload payload None) (\<lambda>resource.
     rbind (check_resource table resource) (\<lambda>u1.
     update_table ''containers'' (update_table table (\<lambda>resources. Inr (dset name (VDict resource) resources))) config)))"

definition delete_resource :: "pyval dict \<Rightarrow> string \<Rightarrow> string \<Rightarrow> pyval dict res" where
  "delete_resource config table name =
     rbind (validate_name name) (\<lambda>u.
     update_table ''containers'' (update_table table (\<lambda>resources. Inr (dpop name resources))) config)"

subsection \<open>Operations\<close>

definition allowed_operation_keys :: "string \<Rightarrow> string list" where
  "allowed_operation_keys op = [''op''] @
     (if op \<in> {''put_user'', ''put_resource'', ''patch_network''} then [''payload''] else []) @
     (if op \<in> {''put_user'', ''delete_user'', ''put_resource'', ''delete_resource''} then [''name''] else []) @
     (if op \<in> {''put_resource'', ''delete_resource''} then [''table''] else [])"

definition operation_type :: "pyval dict \<Rightarrow> string res" where
  "operation_type operation = (case get_val operation ''op'' of
     VStr op \<Rightarrow> (case filter (\<lambda>k. k \<notin> set (allowed_operation_keys op)) (dkeys operation) of
         [] \<Rightarrow> Inr op
       | extra \<Rightarrow> Inl (ProvisionError (''unsupported partial operation keys: '' @ join '', '' (sort extra))))
   | _ \<Rightarrow> Inl (ProvisionError ''partial operation missing string op''))"

definition operation_name :: "pyval dict \<Rightarrow> string res" where
  "operation_name operation = (case get_val operation ''name'' of
     VStr s \<Rightarrow> Inr s | _ \<Rightarrow> Inl (ProvisionError ''partial operation missing string name''))"

definition operation_payload :: "pyval dict \<Rightarrow> pyval res" where
  "operation_payload operation = (case get_val operation ''payload'' of
     VDict d \<Rightarrow> Inr (VDict d) | _ \<Rightarrow> Inl (ProvisionError ''partial operation missing object payload''))"

definition operation_table :: "pyval dict \<Rightarrow> string res" where
  "operation_table operation = (case get_val operation ''table'' of
     VStr t \<Rightarrow> (if t \<in> {''container'', ''network'', ''volume''} then Inr t else Inl (ProvisionError ''unsupported partial resource table''))
   | VList xs \<Rightarrow> Inl (PyExc ''TypeError'')
   | VDict d \<Rightarrow> Inl (PyExc ''TypeError'')
   | _ \<Rightarrow> Inl (ProvisionError ''unsupported partial resource table''))"

definition apply_operation :: "pyval dict \<Rightarrow> pyval dict \<Rightarrow> pyval dict res" where
  "apply_operation config operation = rbind (operation_type operation) (\<lambda>op.
     if op = ''put_user'' then
       rbind (operation_name operation) (\<lambda>n. rbind (operation_payload operation) (\<lambda>p. put_user config n p))
     else if op = ''delete_user'' then rbind (operation_name operation) (\<lambda>n. delete_user config n)
     else if op = ''patch_network'' then rbind (operation_payload operation) (\<lambda>p. patch_network config p)
     else if op = ''put_resource'' then
       rbind (operation_table operation) (\<lambda>t. rbind (operation_name operation) (\<lambda>n.
       rbind (operation_payload operation) (\<lambda>p. put_resource config t n p)))
     else if op = ''delete_resource'' then
       rbind (operation_table operation) (\<lambda>t. rbind (operation_name operation) (\<lambda>n. delete_resource config t n))
     else Inl (ProvisionError ''unsupported partial operation''))"

subsection \<open>Canonical TOML\<close>

definition hex_lower :: "nat \<Rightarrow> char" where
  "hex_lower d = (if d < 10 then char_of (48 + d) else char_of (87 + d))"

text \<open>\<^verbatim>\<open>json.dumps\<close> of a string, with its default \<^verbatim>\<open>ensure_ascii\<close>.\<close>

definition json_char :: "char \<Rightarrow> string" where
  "json_char c =
     (if c = CHR 0x22 \<or> c = CHR 0x5C then [CHR 0x5C, c]
      else if c = CHR 0x0A then [CHR 0x5C, CHR ''n''] else if c = CHR 0x0D then [CHR 0x5C, CHR ''r'']
      else if c = CHR 0x09 then [CHR 0x5C, CHR ''t''] else if c = CHR 0x08 then [CHR 0x5C, CHR ''b'']
      else if c = CHR 0x0C then [CHR 0x5C, CHR ''f'']
      else if 32 \<le> cp c \<and> cp c \<le> 126 then [c]
      else [CHR 0x5C, CHR ''u'', CHR ''0'', CHR ''0'', hex_lower (cp c div 16), hex_lower (cp c mod 16)])"

definition json_string :: "string \<Rightarrow> string" where
  "json_string s = [CHR 0x22] @ concat (map json_char s) @ [CHR 0x22]"

text \<open>\<^verbatim>\<open>^[A-Za-z0-9_-]+$\<close> with \<^verbatim>\<open>match\<close>: a final newline is accepted.\<close>

definition bare_key_char :: "char \<Rightarrow> bool" where
  "bare_key_char c = (is_ascii_alnum c \<or> c = CHR ''_'' \<or> c = CHR ''-'')"

definition bare_key_re :: "string \<Rightarrow> bool" where
  "bare_key_re s = (s \<noteq> [] \<and> list_all bare_key_char s \<or>
     (s \<noteq> [] \<and> last s = CHR 0x0A \<and> butlast s \<noteq> [] \<and> list_all bare_key_char (butlast s)))"

definition toml_key :: "string \<Rightarrow> string" where
  "toml_key k = (if bare_key_re k then k else json_string k)"

fun toml_value :: "pyval \<Rightarrow> string res" where
  "toml_value (VBool b) = Inr (if b then ''true'' else ''false'')"
| "toml_value (VInt i) = Inr (string_of_int i)"
| "toml_value (VStr s) = Inr (json_string s)"
| "toml_value (VList xs) = rbind (rmap toml_value xs) (\<lambda>vs. Inr (''['' @ join '', '' vs @ '']''))"
| "toml_value v = Inl (ProvisionError ''unsupported value in canonical TOML'')"

definition is_table :: "pyval \<Rightarrow> bool" where
  "is_table v = (case v of VDict d \<Rightarrow> True | _ \<Rightarrow> False)"

definition toml_entry :: "string \<times> pyval \<Rightarrow> string res" where
  "toml_entry e = (case e of (k, v) \<Rightarrow> rbind (toml_value v) (\<lambda>s. Inr (toml_key k @ '' = '' @ s)))"

definition scalar_lines :: "pyval dict \<Rightarrow> string list res" where
  "scalar_lines d = rmap toml_entry (filter (\<lambda>e. \<not> is_table (snd e)) d)"

text \<open>The lines \<^verbatim>\<open>_append_table\<close> adds after \<open>lines\<close>, which matter only by being empty or not.\<close>

fun append_table :: "string list \<Rightarrow> string list \<Rightarrow> pyval \<Rightarrow> string list res"
  and append_tables :: "string list \<Rightarrow> string list \<Rightarrow> pyval dict \<Rightarrow> string list res" where
  "append_table lines path (VDict t) =
     rbind (scalar_lines t) (\<lambda>scalars.
     append_tables
       (if scalars \<noteq> [] \<or> t = []
        then lines @ (if lines = [] then [] else [[]]) @ [''['' @ join ''.'' (map toml_key path) @ '']''] @ scalars
        else lines) path t)"
| "append_table lines path v = Inr lines"
| "append_tables lines path [] = Inr lines"
| "append_tables lines path ((k, v) # t) = rbind (append_table lines (path @ [k]) v) (\<lambda>lines1. append_tables lines1 path t)"

definition dumps_toml :: "pyval dict \<Rightarrow> string res" where
  "dumps_toml d = rbind (scalar_lines d) (\<lambda>scalars. rbind (append_tables scalars [] d) (\<lambda>lines. Inr (join [CHR 0x0A] lines)))"

definition canonical_config_bytes :: "pyval dict \<Rightarrow> string res" where
  "canonical_config_bytes d = rbind (dumps_toml d) (\<lambda>s. Inr (strip s @ [CHR 0x0A]))"

section \<open>Theorems\<close>

subsection \<open>Merging\<close>

text \<open>The reference: JSON Merge Patch (RFC 7396), where a null also removes inside a table that is new.\<close>

fun merge_patch :: "pyval option \<Rightarrow> pyval \<Rightarrow> pyval"
  and merge_entries :: "pyval dict \<Rightarrow> pyval dict \<Rightarrow> pyval dict" where
  "merge_patch target (VDict p) = VDict (merge_entries (case target of Some (VDict t) \<Rightarrow> t | _ \<Rightarrow> []) p)"
| "merge_patch target v = v"
| "merge_entries t [] = t"
| "merge_entries t ((k, v) # p) = merge_entries (if v = VNone then dpop k t else dset k (merge_patch (dget t k) v) t) p"

text \<open>A value without nulls in its tables, whose keys are distinct.\<close>

fun null_free :: "pyval \<Rightarrow> bool" and null_free_entries :: "pyval dict \<Rightarrow> bool" where
  "null_free (VDict d) = null_free_entries d"
| "null_free v = True"
| "null_free_entries [] = True"
| "null_free_entries ((k, v) # d) = (v \<noteq> VNone \<and> null_free v \<and> k \<notin> set (dkeys d) \<and> null_free_entries d)"

text \<open>Nulls only where there is something to remove: a table that is added whole has none.\<close>

function mergeable :: "pyval dict \<Rightarrow> pyval dict \<Rightarrow> bool" where
  "mergeable t [] = True"
| "mergeable t ((k, v) # p) =
     ((case v of
         VDict q \<Rightarrow> (case dget t k of Some (VDict d) \<Rightarrow> mergeable d q | _ \<Rightarrow> null_free v)
       | _ \<Rightarrow> True) \<and> mergeable (deep_merge t [(k, v)]) p)"
  by pat_completeness auto
termination
  by (relation "measure (\<lambda>(t, p). size (VDict p))") auto

lemma update_new: "k \<notin> set (dkeys t) \<Longrightarrow> dset k v t = t @ [(k, v)]"
  by (induction t) auto

lemma merge_null_free:
  "null_free v \<Longrightarrow> v \<noteq> VNone \<Longrightarrow> (\<forall>d. target \<noteq> Some (VDict d)) \<Longrightarrow> merge_patch target v = v"
  "null_free_entries p \<Longrightarrow> set (dkeys t) \<inter> set (dkeys p) = {} \<Longrightarrow> merge_entries t p = t @ p"
proof (induction v and p arbitrary: target and t rule: null_free_null_free_entries.induct, goal_cases)
  case (10 k v d t)
  have k: "k \<notin> set (dkeys t)" using 10(4) by auto
  then have "merge_patch (dget t k) v = v" using 10(1) [of "dget t k"] 10(3) by (simp add: map_of_eq_None_iff [THEN iffD2])
  then have "merge_entries t ((k, v) # d) = merge_entries (t @ [(k, v)]) d"
    using 10(3) update_new [OF k] by simp
  also have "\<dots> = t @ (k, v) # d" using 10(2) [of "t @ [(k, v)]"] 10(3,4) by auto
  finally show ?case .
qed (auto split: option.splits pyval.splits)

lemma deep_merge_one: "deep_merge t ((k, v) # p) = deep_merge (deep_merge t [(k, v)]) p"
  by simp

lemma deep_merge_is_merge_patch: "mergeable t p \<Longrightarrow> deep_merge t p = merge_entries t p"
proof (induction t p rule: mergeable.induct)
  case (2 t k v p)
  have "deep_merge t [(k, v)] = (if v = VNone then dpop k t else dset k (merge_patch (dget t k) v) t)"
  proof (cases v)
    case (VDict q)
    show ?thesis
    proof (cases "\<exists>d. dget t k = Some (VDict d)")
      case True
      then obtain d where d: "dget t k = Some (VDict d)" by blast
      then have "deep_merge d q = merge_entries d q" using "2.IH"(1) [OF VDict d refl] "2.prems" VDict by simp
      then show ?thesis using d VDict by simp
    next
      case False
      then have "null_free v" using "2.prems" VDict by (auto split: option.splits pyval.splits)
      then have "merge_patch (dget t k) v = v" using False VDict by (intro merge_null_free(1)) auto
      then show ?thesis using False VDict by (auto split: option.splits pyval.splits)
    qed
  qed simp_all
  moreover have "deep_merge (deep_merge t [(k, v)]) p = merge_entries (deep_merge t [(k, v)]) p"
    using "2.IH"(2) "2.prems" by simp
  ultimately show ?case by (subst deep_merge_one) simp
qed simp

text \<open>C38: Patching the network section is JSON Merge Patch: for a patch whose nulls all meet something to remove (a
  table that is added as a whole has none), the recursive in-place merge gives exactly the document of the
  RFC 7396 algorithm, entry order included.\<close>

theorem patch_network_is_merge_patch:
  assumes "patch_network config (VDict patch) = Inr config'" "get_or (VDict []) config ''network'' = VDict network"
    and "mergeable network patch"
  shows "config' = dset ''network'' (merge_patch (Some (VDict network)) (VDict patch)) config"
  using assms deep_merge_is_merge_patch [OF assms(3)]
  by (auto simp: patch_network_def update_table_def require_payload_def res_simps split: list.splits)

theorem patch_network_is_merge_patch_witness:
  "patch_network [(''network'', VDict [(''ntp'', VDict [(''servers'', VList [])])])]
     (VDict [(''ntp'', VNone), (''dnsmasq'', VDict [(''domain'', VStr ''x'')])]) =
   Inr [(''network'', merge_patch (Some (VDict [(''ntp'', VDict [(''servers'', VList [])])]))
     (VDict [(''ntp'', VNone), (''dnsmasq'', VDict [(''domain'', VStr ''x'')])]))]"
proof -
  let ?c = "[(''network'', VDict [(''ntp'', VDict [(''servers'', VList [])])])]"
  let ?p = "[(''ntp'', VNone), (''dnsmasq'', VDict [(''domain'', VStr ''x'')])]"
  obtain c where c: "patch_network ?c (VDict ?p) = Inr c"
    by (simp add: patch_network_def update_table_def require_payload_def get_or_def)
  have n: "get_or (VDict []) ?c ''network'' = VDict [(''ntp'', VDict [(''servers'', VList [])])]" by (simp add: get_or_def)
  have "mergeable [(''ntp'', VDict [(''servers'', VList [])])] ?p" by simp
  from patch_network_is_merge_patch [OF c n this] c show ?thesis by simp
qed

text \<open>A null inside a table that is new is stored, where the reference drops it, and has no TOML form.\<close>

lemma nested_null_is_stored:
  "patch_network [] (VDict [(''dnsmasq'', VDict [(''domain'', VNone)])]) = Inr [(''network'', VDict [(''dnsmasq'', VDict [(''domain'', VNone)])])]"
  "canonical_config_bytes [(''network'', VDict [(''dnsmasq'', VDict [(''domain'', VNone)])])] = Inl (ProvisionError ''unsupported value in canonical TOML'')"
  by code_simp+

subsection \<open>Locality\<close>

definition table_of :: "pyval dict \<Rightarrow> string \<Rightarrow> pyval dict" where
  "table_of d k = (case get_or (VDict []) d k of VDict t \<Rightarrow> t | _ \<Rightarrow> [])"

lemma update_table_Inr:
  assumes "update_table k f d = Inr d'"
  obtains t1 where "f (table_of d k) = Inr t1" "d' = dset k (VDict t1) d"
  using assms by (auto simp: update_table_def table_of_def res_simps split: pyval.splits)

lemma table_of_dset [simp]: "table_of (dset k (VDict t) d) k = t"
  by (simp add: table_of_def get_or_def)



lemma put_user_others:
  assumes "put_user config name payload = Inr config'" "n \<noteq> name"
  shows "dget (table_of config' ''users'') n = dget (table_of config ''users'') n"
  using assms by (auto simp: put_user_def res_simps elim!: update_table_Inr)

lemma put_delete_user:
  assumes "put_user config name payload = Inr config1"
  shows "\<exists>config2. delete_user config1 name = Inr config2 \<and>
    (\<forall>n. dget (table_of config2 ''users'') n = (if n = name then None else dget (table_of config ''users'') n))"
proof -
  obtain user where v: "validate_username name = Inr name" and c1: "config1 = dset ''users'' (VDict (dset name user (table_of config ''users''))) config"
    using assms by (auto simp: put_user_def validate_username_def res_simps elim!: update_table_Inr split: if_splits)
  then have "delete_user config1 name = Inr (dset ''users'' (VDict (dpop name (dset name user (table_of config ''users'')))) config1)"
    by (simp add: delete_user_def update_table_def get_or_def)
  then show ?thesis by simp
qed

subsection \<open>Canonical text\<close>

lemma hex_lower_ok: "d < 16 \<Longrightarrow> json_hex (hex_lower d) = Some d" "d < 16 \<Longrightarrow> 48 \<le> cp (hex_lower d) \<and> cp (hex_lower d) \<le> 102"
  by (auto simp: hex_lower_def cp_def json_hex.simps Let_def)

lemma json_char_printable: "c' \<in> set (json_char c) \<Longrightarrow> 32 \<le> cp c' \<and> cp c' \<le> 126"
proof -
  have "cp c < 256" by (simp add: cp_def)
  then have "48 \<le> cp (hex_lower (cp c div 16))" "cp (hex_lower (cp c div 16)) \<le> 102"
    "48 \<le> cp (hex_lower (cp c mod 16))" "cp (hex_lower (cp c mod 16)) \<le> 102"
    using hex_lower_ok(2) [of "cp c div 16"] hex_lower_ok(2) [of "cp c mod 16"] by auto
  moreover have "cp (CHR 0x5C) = 92" "cp (CHR 0x22) = 34" "cp (CHR ''n'') = 110" "cp (CHR ''r'') = 114" "cp (CHR ''t'') = 116"
    "cp (CHR ''b'') = 98" "cp (CHR ''f'') = 102" "cp (CHR ''u'') = 117" "cp (CHR ''0'') = 48" by (simp_all add: cp_def)
  ultimately show "c' \<in> set (json_char c) \<Longrightarrow> 32 \<le> cp c' \<and> cp c' \<le> 126"
    by (auto simp: json_char_def split: if_splits)
qed

lemma json_unescape_char: "json_unescape (json_char c @ s) = map_option ((#) (cp c)) (json_unescape s)"
proof (cases "c \<in> {CHR 0x22, CHR 0x5C, CHR 0x0A, CHR 0x0D, CHR 0x09, CHR 0x08, CHR 0x0C}")
  case True
  then show ?thesis by (auto simp: json_char_def json_escape_def cp_def split: option.splits)
next
  case False
  show ?thesis
  proof (cases "32 \<le> cp c \<and> cp c \<le> 126")
    case True
    then show ?thesis using False by (simp add: json_char_def)
  next
    case no: False
    have small: "cp c < 256" by (simp add: cp_def)
    have zero: "json_hex (CHR ''0'') = Some 0" by (simp add: cp_def)
    have high: "json_hex (hex_lower (cp c div 16)) = Some (cp c div 16)" using small by (intro hex_lower_ok) simp
    have low: "json_hex (hex_lower (cp c mod 16)) = Some (cp c mod 16)" by (intro hex_lower_ok) simp
    have "json_hex4 (CHR ''0'') (CHR ''0'') (hex_lower (cp c div 16)) (hex_lower (cp c mod 16)) = Some (cp c)"
      unfolding json_hex4_def zero high low by simp
    then show ?thesis using False no by (simp add: json_char_def split: option.splits del: json_hex.simps)
  qed
qed

text \<open>Strings survive the canonical text: the literal written for any string is one line of printable ASCII between
  its quotes, whatever the string holds, and resolving its escapes gives the code points of the string
  back, so a stored value can neither break out of its line nor change.\<close>

theorem canonical_strings_round_trip:
  "\<exists>body. json_string s = [CHR 0x22] @ body @ [CHR 0x22] \<and> json_unescape body = Some (map cp s) \<and>
     list_all (\<lambda>c. 32 \<le> cp c \<and> cp c \<le> 126) (json_string s)"
proof -
  have "json_unescape (concat (map json_char s)) = Some (map cp s)"
    by (induction s) (simp_all add: json_unescape_char del: json_unescape.simps(2))
  moreover have "list_all (\<lambda>c. 32 \<le> cp c \<and> cp c \<le> 126) (json_string s)"
    using json_char_printable by (auto simp: json_string_def list_all_iff cp_def [of "CHR 0x22"])
  ultimately show ?thesis by (auto simp: json_string_def)
qed

text \<open>The check of bare keys lets a final newline through, so such a key is written over two lines.\<close>

lemma toml_key_trailing_newline: "toml_key (''a'' @ [CHR 0x0A]) = ''a'' @ [CHR 0x0A]"
  by code_simp

end
