(* ===== verification/Quadlet_Render.thy ===== *)
theory Quadlet_Render
  imports Config_Values
begin

text \<open>
  \<^verbatim>\<open>quadlet.py\<close>: rendering of the container, network, volume and build tables to Quadlet unit files,
  the rules for host mounts, and the confinement of rootless containers; and the inference of unit modes in
  \<^verbatim>\<open>provision.py\<close>.

  Paths are strings as \<^verbatim>\<open>str(path)\<close> gives them; a lexically normalized path is the list of its
  components. The working directory, which \<^verbatim>\<open>os.path.abspath\<close> uses for a relative path, is the
  parameter \<open>cwd\<close>. Dicts have distinct keys, so adding the entries of a new dict in order is consing. Warnings,
  like error messages, are abbreviated to their fixed words and the location they name.
\<close>

section \<open>Definitions\<close>

subsection \<open>Scalars and directives\<close>

definition config_dir_token :: string where "config_dir_token = ''${CONFIG_DIR}''"

definition files_dir_token :: string where "files_dir_token = ''${FILES_DIR}''"

fun format_scalar :: "pyval \<Rightarrow> string res" where
  "format_scalar (VBool b) = Inr (if b then ''true'' else ''false'')"
| "format_scalar (VInt i) = Inr (string_of_int i)"
| "format_scalar (VStr s) = Inr s"
| "format_scalar v = Inl (ProvisionError ''unsupported scalar value type'')"

text \<open>\<^verbatim>\<open>^[A-Za-z][A-Za-z0-9]*$\<close> with \<^verbatim>\<open>fullmatch\<close>.\<close>

definition directive_name_re :: "string \<Rightarrow> bool" where
  "directive_name_re s = (s \<noteq> [] \<and> (is_ascii_lower (hd s) \<or> is_ascii_upper (hd s)) \<and> list_all is_ascii_alnum (tl s))"

definition validate_directive_name :: "string \<Rightarrow> string \<Rightarrow> unit res" where
  "validate_directive_name name path = rguard (directive_name_re name) (ProvisionError (''invalid directive name at '' @ path))"

definition breaks_line :: "char \<Rightarrow> bool" where
  "breaks_line c = (c = CHR 0x00 \<or> c = CHR 0x0D \<or> c = CHR 0x0A)"

definition validate_directive_value :: "pyval \<Rightarrow> string \<Rightarrow> unit res" where
  "validate_directive_value v path = (case v of
     VStr s \<Rightarrow> rguard (\<not> list_ex breaks_line s) (ProvisionError (''invalid newline or NUL in directive value at '' @ path))
   | _ \<Rightarrow> Inr ())"

text \<open>\<^verbatim>\<open>str(root / name)\<close>.\<close>

definition path_child :: "string \<Rightarrow> string \<Rightarrow> string" where
  "path_child p name = (if p = ''/'' then ''/'' @ name else if p = ''.'' then name else p @ ''/'' @ name)"

definition substitute_tokens :: "string \<Rightarrow> string \<Rightarrow> string" where
  "substitute_tokens value config_root =
     replace files_dir_token (path_child config_root ''files'') (replace config_dir_token config_root value)"

definition normalize_value :: "pyval \<Rightarrow> string \<Rightarrow> pyval res" where
  "normalize_value v path = (case v of
     VList xs \<Rightarrow> Inl (ProvisionError (''expected scalar value at '' @ path))
   | VDict d \<Rightarrow> Inl (ProvisionError (''expected scalar value at '' @ path))
   | _ \<Rightarrow> rbind (validate_directive_value v path) (\<lambda>u. Inr v))"

definition normalize_values :: "pyval \<Rightarrow> string \<Rightarrow> pyval list res" where
  "normalize_values raw path = (case raw of
     VList xs \<Rightarrow> rmapi 0 (\<lambda>i v. normalize_value v (item_path path i)) xs
   | _ \<Rightarrow> rbind (normalize_value raw path) (\<lambda>v. Inr [v]))"

type_synonym directives = "(pyval list) dict"

fun normalize_directives :: "pyval dict \<Rightarrow> string \<Rightarrow> directives res" where
  "normalize_directives [] path = Inr []"
| "normalize_directives ((key, raw) # table) path =
     rbind (validate_directive_name key (path @ ''.'' @ key)) (\<lambda>u.
     if raw = VList [] then normalize_directives table path
     else rbind (normalize_values raw (path @ ''.'' @ key)) (\<lambda>vs.
          rbind (normalize_directives table path) (\<lambda>d. Inr ((key, vs) # d))))"

subsection \<open>Published ports of rootless containers\<close>

definition is_digit :: "char \<Rightarrow> bool" where
  "is_digit c = (is_ascii_digit c \<or> cp c \<in> {178, 179, 185})"

definition rebind_loopback :: "string \<Rightarrow> string \<Rightarrow> string \<Rightarrow> string \<Rightarrow> string \<times> string list" where
  "rebind_loopback value container_name bind_host remainder =
     (if bind_host \<in> {''127.0.0.1'', ''127.0.1.1''} then (value, [])
      else if bind_host \<in> {''localhost'', ''::1'', ''[::1]''} then (''127.0.0.1:'' @ remainder, [])
      else (''127.0.0.1:'' @ remainder,
            [''container.'' @ container_name @ ''.Container.PublishPort rewrote non-loopback bind to 127.0.0.1'']))"

text \<open>The rewritten value and the warnings it appends.\<close>

definition rewrite_rootless_publish_port :: "string \<Rightarrow> string \<Rightarrow> (string \<times> string list) res" where
  "rewrite_rootless_publish_port value container_name =
     (if starts_with ''['' value then
        (case dropWhile (\<lambda>c. c \<noteq> CHR '']'') value of
           x # y # remainder \<Rightarrow>
             (if y = CHR '':''
              then Inr (rebind_loopback value container_name (takeWhile (\<lambda>c. c \<noteq> CHR '']'') value @ '']'') remainder)
              else Inr (value, []))
         | _ \<Rightarrow> Inr (value, []))
      else
        (let parts = split_on (CHR '':'') value in
         if length parts = 2 then
           (if hd parts \<noteq> [] \<and> list_all is_digit (hd parts) then Inr (''127.0.0.1:'' @ value, [])
            else Inl (ProvisionError (''container.'' @ container_name @
                   ''.Container.PublishPort must include a numeric host port for rootless containers'')))
         else if length parts < 3 then
           Inl (ProvisionError (''container.'' @ container_name @
                   ''.Container.PublishPort must include an explicit host port for rootless containers''))
         else Inr (rebind_loopback value container_name (hd parts) (join '':'' (tl parts)))))"

subsection \<open>Sections\<close>

definition render_value :: "string \<Rightarrow> string \<Rightarrow> pyval \<Rightarrow> string res" where
  "render_value config_root key v =
     rbind (format_scalar (case v of VStr s \<Rightarrow> VStr (substitute_tokens s config_root) | _ \<Rightarrow> v)) (\<lambda>s. Inr (key @ ''='' @ s))"

definition render_directives :: "string \<Rightarrow> directives \<Rightarrow> string list res" where
  "render_directives config_root d =
     rbind (rmap (\<lambda>e. rmap (render_value config_root (fst e)) (snd e)) d) (\<lambda>ls. Inr (concat ls))"

definition render_section :: "string \<Rightarrow> directives \<Rightarrow> string \<Rightarrow> string list res" where
  "render_section section_name d config_root =
     rbind (render_directives config_root d) (\<lambda>lines. Inr ([''['' @ section_name @ '']''] @ lines @ [[]]))"

subsection \<open>Host mounts\<close>

definition require_absolute_source :: "string \<Rightarrow> string res" where
  "require_absolute_source source =
     rbind (rguard (starts_with ''/'' source \<or> starts_with config_dir_token source \<or> starts_with files_dir_token source)
       (ProvisionError ''relative host mount source is not supported'')) (\<lambda>u. Inr source)"

definition has_wildcard :: "string \<Rightarrow> bool" where
  "has_wildcard part = list_ex (\<lambda>c. c \<in> {CHR ''*'', CHR ''?'', CHR ''[''}) part"

definition glob_literal_prefix :: "string \<Rightarrow> string" where
  "glob_literal_prefix source =
     (let parts = split_on (CHR ''/'') source; prefix_parts = takeWhile (\<lambda>p. \<not> has_wildcard p) parts in
      if prefix_parts = parts then source
      else if join ''/'' prefix_parts = [] then ''/'' else join ''/'' prefix_parts)"

definition normalized_option :: "string \<Rightarrow> string \<times> string option" where
  "normalized_option option = (case partition_on (CHR ''='') option of
     (key, raw) \<Rightarrow> (lower (strip key), map_option strip raw))"

text \<open>The first source and the last type of a structured mount value.\<close>

fun mount_options :: "string list \<Rightarrow> string option \<times> string option \<Rightarrow> string option \<times> string option" where
  "mount_options [] st = st"
| "mount_options (option # options) (source, mount_type) =
     (case normalized_option option of
        (key, None) \<Rightarrow> mount_options options (source, mount_type)
      | (key, Some raw) \<Rightarrow>
          (if key = ''type'' then mount_options options (source, Some (lower raw))
           else if key \<in> {''source'', ''src''} \<and> source = None then mount_options options (Some raw, mount_type)
           else mount_options options (source, mount_type)))"

definition is_volume_directive :: "string \<Rightarrow> bool" where
  "is_volume_directive directive = (directive \<in> {''Volume'', ''PodmanArgsVolume''})"

definition mount_source :: "string \<Rightarrow> string \<Rightarrow> string option res" where
  "mount_source directive value =
     (if is_volume_directive directive then
        (case partition_on (CHR '':'') value of
           (raw, None) \<Rightarrow> Inr None
         | (raw, Some destination) \<Rightarrow>
             (let source = strip raw in
              if CHR ''/'' \<in> set source \<or> starts_with ''.'' source \<or> starts_with config_dir_token source \<or>
                 starts_with files_dir_token source
              then rbind (require_absolute_source source) (\<lambda>s. Inr (Some s))
              else Inr None))
      else if directive \<in> {''Mount'', ''PodmanArgsMount''} then
        (case mount_options (split_on (CHR '','') value) (None, None) of
           (None, mount_type) \<Rightarrow> Inr None
         | (Some source, mount_type) \<Rightarrow>
             (if mount_type \<noteq> None \<and> mount_type \<noteq> Some ''bind'' \<and> mount_type \<noteq> Some ''glob'' then Inr None
              else rbind (require_absolute_source source) (\<lambda>s.
                   Inr (Some (if mount_type = Some ''glob'' then glob_literal_prefix s else s)))))
      else Inr None)"

text \<open>\<^verbatim>\<open>os.path.normpath\<close>, as components; \<open>acc\<close> holds the components so far, last first.\<close>

fun normpath_loop :: "bool \<Rightarrow> string list \<Rightarrow> string list \<Rightarrow> string list" where
  "normpath_loop rooted acc [] = rev acc"
| "normpath_loop rooted acc (part # comps) =
     (if part = [] \<or> part = ''.'' then normpath_loop rooted acc comps
      else if part \<noteq> ''..'' \<or> (\<not> rooted \<and> acc = []) \<or> (acc \<noteq> [] \<and> hd acc = ''..'')
      then normpath_loop rooted (part # acc) comps
      else normpath_loop rooted (tl acc) comps)"

definition normpath :: "string \<Rightarrow> string list" where
  "normpath p = normpath_loop (starts_with ''/'' p) [] (split_on (CHR ''/'') p)"

definition lexical_absolute_path :: "string \<Rightarrow> string \<Rightarrow> string list" where
  "lexical_absolute_path cwd p = normpath (if starts_with ''/'' p then p else path_child cwd p)"

definition parents :: "string list \<Rightarrow> string list list" where
  "parents p = map (\<lambda>i. take i p) (rev [0 ..< length p])"

definition overlaps :: "string list \<Rightarrow> string list \<Rightarrow> bool" where
  "overlaps source_path files_root =
     (source_path = files_root \<or> files_root \<in> set (parents source_path) \<or> source_path \<in> set (parents files_root))"

definition at_token :: "string \<Rightarrow> string \<Rightarrow> bool" where
  "at_token source token = (source = token \<or> starts_with (token @ ''/'') source)"

definition managed_file_source :: "string \<Rightarrow> string \<Rightarrow> string option \<Rightarrow> bool" where
  "managed_file_source cwd source config_root = (case config_root of
     None \<Rightarrow>
       (if at_token source files_dir_token \<or> at_token source config_dir_token
        then overlaps (normpath (replace files_dir_token (config_dir_token @ ''/files'') source)) [config_dir_token, ''files'']
        else False)
   | Some root_path \<Rightarrow>
       overlaps (lexical_absolute_path cwd (substitute_tokens source root_path))
         (lexical_absolute_path cwd (path_child root_path ''files'')))"

definition volume_options :: "string list" where
  "volume_options = [''ro'', ''rw'', ''z'', ''Z'', ''O'', ''U'', ''noexec'', ''exec'', ''nodev'', ''dev'', ''nosuid'', ''suid'',
     ''private'', ''rprivate'', ''shared'', ''rshared'', ''slave'', ''rslave'', ''unbindable'', ''runbindable'', ''bind'', ''rbind'',
     ''cached'', ''delegated'', ''copy'', ''nocopy'', ''no-dereference'', ''idmap'']"

definition volume_option_ok :: "string \<Rightarrow> bool" where
  "volume_option_ok option = (option \<in> set volume_options \<or> starts_with ''idmap='' option \<or>
     starts_with ''upperdir='' option \<or> starts_with ''workdir='' option)"

text \<open>\<^verbatim>\<open>value.split(":", 2)\<close>, its third field.\<close>

definition third_field :: "string \<Rightarrow> string option" where
  "third_field value = (case partition_on (CHR '':'') value of
     (a, None) \<Rightarrow> None
   | (a, Some rest) \<Rightarrow> snd (partition_on (CHR '':'') rest))"

text \<open>The flags \<^verbatim>\<open>read_only\<close> and \<^verbatim>\<open>writable\<close> of a structured mount value.\<close>

definition mount_flag :: "string \<Rightarrow> bool \<times> bool \<Rightarrow> bool \<times> bool" where
  "mount_flag option st = (case st of (read_only, writable) \<Rightarrow>
     (case normalized_option option of (key, raw) \<Rightarrow>
       (let on = (raw = None \<or> map_option lower raw = Some ''true''); off = (map_option lower raw = Some ''false'') in
        if key \<in> {''ro'', ''readonly''} then (if on then (True, writable) else if off then (read_only, True) else (read_only, writable))
        else if key \<in> {''rw'', ''readwrite''} then (if on then (read_only, True) else if off then (True, writable) else (read_only, writable))
        else if key \<in> {''u'', ''chown''} \<and> on then (read_only, True)
        else (read_only, writable))))"

definition managed_file_mount_is_read_only :: "string \<Rightarrow> string \<Rightarrow> bool res" where
  "managed_file_mount_is_read_only directive value =
     (if is_volume_directive directive then
        (let options = (case third_field value of None \<Rightarrow> [] | Some f \<Rightarrow> split_on (CHR '','') f) in
         if list_all volume_option_ok options
         then Inr (''ro'' \<in> set options \<and> \<not> (''rw'' \<in> set options \<or> ''U'' \<in> set options))
         else Inl (ProvisionError ''invalid Podman volume option''))
      else
        (case fold mount_flag (split_on (CHR '','') value) (False, False) of
           (read_only, writable) \<Rightarrow> Inr (read_only \<and> \<not> writable)))"

definition managed_file_mount_warning :: "string \<Rightarrow> string \<Rightarrow> string \<Rightarrow> string \<Rightarrow> string option \<Rightarrow> string option res" where
  "managed_file_mount_warning cwd directive value path config_root =
     rbind (mount_source directive value) (\<lambda>source. case source of
       None \<Rightarrow> Inr None
     | Some s \<Rightarrow>
         (if \<not> managed_file_source cwd s config_root then Inr None
          else rbind (managed_file_mount_is_read_only directive value) (\<lambda>read_only.
            if read_only then Inr None
            else Inr (Some (path @ '' mounts managed bundle files without a clearly read-only mount'')))))"

subsection \<open>Mounts among the Podman arguments\<close>

text \<open>\<^verbatim>\<open>shlex.split\<close> in POSIX mode: a word is \<open>Some\<close> once it has a character or a quote.\<close>

datatype shlex_state = Between | Word | Quoted char | Escaped shlex_state

fun shlex_loop :: "shlex_state \<Rightarrow> string \<Rightarrow> string \<Rightarrow> string list res" where
  "shlex_loop Between token [] = Inr []"
| "shlex_loop Word token [] = Inr [rev token]"
| "shlex_loop (Quoted q) token [] = Inl (ValueErr ''No closing quotation'')"
| "shlex_loop (Escaped st) token [] = Inl (ValueErr ''No escaped character'')"
| "shlex_loop Between token (c # cs) =
     (if c \<in> {CHR '' '', CHR 0x09, CHR 0x0D, CHR 0x0A} then shlex_loop Between [] cs
      else if c = CHR 0x5C then shlex_loop (Escaped Word) [] cs
      else if c \<in> {CHR 0x22, CHR 0x27} then shlex_loop (Quoted c) [] cs
      else shlex_loop Word [c] cs)"
| "shlex_loop Word token (c # cs) =
     (if c \<in> {CHR '' '', CHR 0x09, CHR 0x0D, CHR 0x0A} then rbind (shlex_loop Between [] cs) (\<lambda>ts. Inr (rev token # ts))
      else if c = CHR 0x5C then shlex_loop (Escaped Word) token cs
      else if c \<in> {CHR 0x22, CHR 0x27} then shlex_loop (Quoted c) token cs
      else shlex_loop Word (c # token) cs)"
| "shlex_loop (Quoted q) token (c # cs) =
     (if c = q then shlex_loop Word token cs
      else if c = CHR 0x5C \<and> q = CHR 0x22 then shlex_loop (Escaped (Quoted q)) token cs
      else shlex_loop (Quoted q) (c # token) cs)"
| "shlex_loop (Escaped st) token (c # cs) =
     (case st of
        Quoted q \<Rightarrow> (if c \<noteq> CHR 0x5C \<and> c \<noteq> q then shlex_loop st (c # CHR 0x5C # token) cs else shlex_loop st (c # token) cs)
      | _ \<Rightarrow> shlex_loop st (c # token) cs)"

definition shlex_split :: "string \<Rightarrow> string list res" where
  "shlex_split s = shlex_loop Between [] s"

definition podman_tokens :: "string list \<Rightarrow> (string \<times> nat) list res" where
  "podman_tokens values = rbind (rmapi 0 (\<lambda>i raw. case shlex_split raw of
       Inl e \<Rightarrow> Inl (ProvisionError (''invalid '' @ item_path ''PodmanArgs'' i @ '' quoting''))
     | Inr tokens \<Rightarrow> Inr (map (\<lambda>token. (token, i)) tokens)) values) (\<lambda>ts. Inr (concat ts))"

fun podman_mounts :: "(string \<times> nat) list \<Rightarrow> (string \<times> string \<times> nat) list" where
  "podman_mounts [] = []"
| "podman_mounts ((value, i) # tokens) =
     (if starts_with ''--volume='' value then [(''volume'', drop 9 value, i)]
      else if starts_with ''-v='' value then [(''v'', drop 3 value, i)]
      else if starts_with ''--mount='' value then [(''mount'', drop 8 value, i)]
      else if starts_with ''-v'' value \<and> length value > 2 then [(''v'', drop 2 value, i)]
      else (case tokens of
              [] \<Rightarrow> []
            | (mount_value, mount_index) # _ \<Rightarrow>
                (if value = ''--volume'' then [(''volume'', mount_value, mount_index)]
                 else if value = ''-v'' then [(''v'', mount_value, mount_index)]
                 else if value = ''--mount'' then [(''mount'', mount_value, mount_index)] else [])))
     @ podman_mounts tokens"

definition podman_mount_values :: "string list \<Rightarrow> (string \<times> string \<times> nat) list res" where
  "podman_mount_values values = rbind (podman_tokens values) (\<lambda>tokens. Inr (podman_mounts tokens))"

text \<open>The mount needs host write access: the condition inside the loops of \<^verbatim>\<open>managed_files_are_writable\<close>.\<close>

definition mount_writable :: "string \<Rightarrow> string option \<Rightarrow> string \<Rightarrow> string \<Rightarrow> string \<Rightarrow> bool res" where
  "mount_writable cwd config_root source_directive directive value =
     rbind (mount_source source_directive value) (\<lambda>source. case source of
       None \<Rightarrow> Inr False
     | Some s \<Rightarrow>
         (if managed_file_source cwd s config_root
          then rbind (managed_file_mount_is_read_only directive value) (\<lambda>read_only. Inr (\<not> read_only))
          else Inr False))"

definition iterate :: "pyval \<Rightarrow> pyval list res" where
  "iterate raw = (case raw of
     VStr s \<Rightarrow> Inr [VStr s]
   | VList xs \<Rightarrow> Inr xs
   | VDict d \<Rightarrow> Inr (map VStr (dkeys d))
   | _ \<Rightarrow> Inl (PyExc ''TypeError''))"

fun strings_of :: "pyval list \<Rightarrow> string list" where
  "strings_of [] = []"
| "strings_of (VStr s # vs) = s # strings_of vs"
| "strings_of (v # vs) = strings_of vs"

definition directive_writable :: "string \<Rightarrow> string option \<Rightarrow> pyval dict \<Rightarrow> string \<Rightarrow> bool res" where
  "directive_writable cwd config_root container directive =
     rbind (iterate (get_or (VList []) container directive)) (\<lambda>values.
     rbind (rmap (mount_writable cwd config_root directive directive) (strings_of values)) (\<lambda>bs. Inr (list_ex id bs)))"

definition podman_args_writable :: "string \<Rightarrow> string option \<Rightarrow> pyval dict \<Rightarrow> bool res" where
  "podman_args_writable cwd config_root container =
     rbind (iterate (get_or (VList []) container ''PodmanArgs'')) (\<lambda>values.
     rbind (podman_mount_values (strings_of values)) (\<lambda>mounts.
     rbind (rmap (\<lambda>(option, value, i).
         if option \<in> {''volume'', ''v''} then mount_writable cwd config_root ''PodmanArgsVolume'' ''Volume'' value
         else mount_writable cwd config_root ''PodmanArgsMount'' ''Mount'' value) mounts) (\<lambda>bs. Inr (list_ex id bs))))"

definition container_writable :: "string \<Rightarrow> string option \<Rightarrow> pyval \<Rightarrow> bool res" where
  "container_writable cwd config_root raw_sections = (case raw_sections of
     VDict sections \<Rightarrow>
       (case get_val sections ''Container'' of
          VDict container \<Rightarrow>
            rbind (directive_writable cwd config_root container ''Volume'') (\<lambda>v.
            rbind (directive_writable cwd config_root container ''Mount'') (\<lambda>m.
            rbind (podman_args_writable cwd config_root container) (\<lambda>p. Inr (v \<or> m \<or> p))))
        | _ \<Rightarrow> Inr False)
   | _ \<Rightarrow> Inr False)"

definition managed_files_are_writable :: "string \<Rightarrow> pyval dict \<Rightarrow> string option \<Rightarrow> bool res" where
  "managed_files_are_writable cwd container_table config_root =
     rbind (rmap (\<lambda>e. container_writable cwd config_root (snd e)) container_table) (\<lambda>bs. Inr (list_ex id bs))"

subsection \<open>Units\<close>

record runtime_unit =
  ru_name :: string
  ru_filename :: string
  ru_service :: string
  ru_mode :: string

definition unit_text :: "string list \<Rightarrow> string" where
  "unit_text lines = rstrip is_space (join [CHR 0x0A] lines) @ [CHR 0x0A]"

text \<open>The warnings of the direct mounts and of those among the Podman arguments.\<close>

definition mount_warnings :: "string \<Rightarrow> string \<Rightarrow> string \<Rightarrow> directives \<Rightarrow> string \<Rightarrow> string list res" where
  "mount_warnings cwd config_root container_path d directive =
     rbind (rmapi 0 (\<lambda>i v.
       (let mount_path = item_path (container_path @ ''.Container.'' @ directive) i in
        rbind (require_string v mount_path) (\<lambda>s.
        managed_file_mount_warning cwd directive s mount_path (Some config_root))))
       (case dget d directive of None \<Rightarrow> [] | Some vs \<Rightarrow> vs)) (\<lambda>ws. Inr (List.map_filter id ws))"

definition podman_warnings :: "string \<Rightarrow> string \<Rightarrow> string \<Rightarrow> directives \<Rightarrow> string list res" where
  "podman_warnings cwd config_root container_path d =
     rbind (rmapi 0 (\<lambda>i v. require_string v (item_path (container_path @ ''.Container.PodmanArgs'') i))
       (case dget d ''PodmanArgs'' of None \<Rightarrow> [] | Some vs \<Rightarrow> vs)) (\<lambda>args.
     rbind (podman_mount_values args) (\<lambda>mounts.
     rbind (rmap (\<lambda>(option, value, i).
       managed_file_mount_warning cwd (if option \<in> {''volume'', ''v''} then ''PodmanArgsVolume'' else ''PodmanArgsMount'') value
         (item_path (container_path @ ''.Container.PodmanArgs'') i) (Some config_root)) mounts) (\<lambda>ws. Inr (List.map_filter id ws))))"

definition rewrite_ports :: "string \<Rightarrow> string \<Rightarrow> pyval list \<Rightarrow> (string \<times> string list) list res" where
  "rewrite_ports container_name container_path ports =
     rmapi 0 (\<lambda>i v. rbind (require_string v (item_path (container_path @ ''.Container.PublishPort'') i)) (\<lambda>s.
       rewrite_rootless_publish_port s container_name)) ports"

text \<open>The network and port rules: the new directives, the warnings and the mode.\<close>

definition confine :: "string \<Rightarrow> bool \<Rightarrow> directives \<Rightarrow> (directives \<times> string list \<times> string) res" where
  "confine container_name privileged d =
     (let container_path = ''container.'' @ container_name in
      if privileged then
        Inr (dset ''Network'' [VStr ''host''] d,
             (case dget d ''Network'' of
                Some vs \<Rightarrow> (if vs \<noteq> [VStr ''host'']
                  then [container_path @ ''.Container.Network overridden to host for privileged container''] else [])
              | None \<Rightarrow> []), ''rootful'')
      else
        (let d1 = dset ''Network'' [VStr ''pasta''] d;
             ws = (if has_key d ''Network''
                   then [container_path @ ''.Container.Network overridden to pasta for rootless container''] else []) in
         case dget d1 ''PublishPort'' of
           None \<Rightarrow> Inr (d1, ws, ''rootless'')
         | Some ports \<Rightarrow>
             rbind (rewrite_ports container_name container_path ports) (\<lambda>rs.
             Inr (dset ''PublishPort'' (map (\<lambda>r. VStr (fst r)) rs) d1, ws @ concat (map snd rs), ''rootless''))))"

definition render_optional_section :: "string \<Rightarrow> pyval dict \<Rightarrow> string \<Rightarrow> string \<Rightarrow> string list res" where
  "render_optional_section section_name sections path config_root = (case dget sections section_name of
     None \<Rightarrow> Inr []
   | Some raw \<Rightarrow>
       rbind (require_mapping raw (path @ ''.'' @ section_name)) (\<lambda>t.
       rbind (normalize_directives t (path @ ''.'' @ section_name)) (\<lambda>d. render_section section_name d config_root)))"

definition check_image :: "string \<Rightarrow> directives \<Rightarrow> unit res" where
  "check_image container_path d = (case dget d ''Image'' of
     Some [v] \<Rightarrow> rbind (require_string v (container_path @ ''.Container.Image'')) (\<lambda>s. Inr ())
   | _ \<Rightarrow> Inl (ProvisionError (container_path @ ''.Container.Image must be a single string value'')))"

definition render_container ::
  "string \<Rightarrow> string \<Rightarrow> string \<times> pyval \<Rightarrow> ((string \<times> string) \<times> runtime_unit \<times> string list) res" where
  "render_container cwd config_root entry = (case entry of (container_name, raw_sections) \<Rightarrow>
     (let path = ''container.'' @ container_name in
      rbind (validate_name container_name) (\<lambda>u1.
      rbind (require_mapping raw_sections path) (\<lambda>sections.
      rbind (require_bool (get_val sections ''privileged'') (path @ ''.privileged'')) (\<lambda>privileged.
      rbind (require_mapping (get_val sections ''Container'') (path @ ''.Container'')) (\<lambda>t.
      rbind (normalize_directives t (path @ ''.Container'')) (\<lambda>d.
      rbind (check_image path d) (\<lambda>u2.
      rbind (mount_warnings cwd config_root path d ''Volume'') (\<lambda>w1.
      rbind (mount_warnings cwd config_root path d ''Mount'') (\<lambda>w2.
      rbind (podman_warnings cwd config_root path d) (\<lambda>w3.
      rbind (confine container_name privileged d) (\<lambda>(d1, w4, mode).
      rbind (render_optional_section ''Unit'' sections path config_root) (\<lambda>unit_lines.
      rbind (render_section ''Container'' d1 config_root) (\<lambda>container_lines.
      rbind (render_optional_section ''Install'' sections path config_root) (\<lambda>install_lines.
      (let filename = container_name @ ''.container'' in
       Inr ((filename, unit_text (unit_lines @ container_lines @ install_lines)),
            \<lparr>ru_name = container_name, ru_filename = filename, ru_service = container_name @ ''.service'', ru_mode = mode\<rparr>,
            w1 @ w2 @ w3 @ w4)))))))))))))))))"

definition render_containers :: "string \<Rightarrow> pyval dict \<Rightarrow> string \<Rightarrow> (string dict \<times> runtime_unit list \<times> string list) res" where
  "render_containers cwd container_table config_root =
     (if container_table = [] then Inl (ProvisionError ''container must define at least one container'')
      else rbind (rmap (render_container cwd config_root) container_table) (\<lambda>rs.
           Inr (map fst rs, map (\<lambda>r. fst (snd r)) rs, concat (map (\<lambda>r. snd (snd r)) rs))))"

text \<open>Networks, volumes and builds share their rendering; only the service name and the modes differ.\<close>

definition render_resource ::
  "string \<Rightarrow> string \<Rightarrow> string \<Rightarrow> (string \<Rightarrow> string list) \<Rightarrow> string \<times> pyval \<Rightarrow> ((string \<times> string) \<times> runtime_unit list) res" where
  "render_resource kind section_name config_root modes entry = (case entry of (name, raw_sections) \<Rightarrow>
     (let path = kind @ ''.'' @ name in
      rbind (validate_name name) (\<lambda>u.
      rbind (require_mapping raw_sections path) (\<lambda>sections.
      rbind (require_mapping (get_val sections section_name) (path @ ''.'' @ section_name)) (\<lambda>t.
      rbind (normalize_directives t (path @ ''.'' @ section_name)) (\<lambda>d.
      rbind (render_section section_name d config_root) (\<lambda>lines.
      Inr ((name @ ''.'' @ kind, unit_text lines),
           map (\<lambda>mode. \<lparr>ru_name = name, ru_filename = name @ ''.'' @ kind,
                        ru_service = name @ ''-'' @ kind @ ''.service'', ru_mode = mode\<rparr>) (modes name)))))))))"

definition render_resources ::
  "string \<Rightarrow> string \<Rightarrow> string \<Rightarrow> (string \<Rightarrow> string list) \<Rightarrow> pyval dict \<Rightarrow> (string dict \<times> runtime_unit list) res" where
  "render_resources kind section_name config_root modes table =
     rbind (rmap (render_resource kind section_name config_root modes) table) (\<lambda>rs.
     Inr (map fst rs, concat (map snd rs)))"

definition render_networks :: "pyval dict \<Rightarrow> string \<Rightarrow> (string dict \<times> runtime_unit list) res" where
  "render_networks network_table config_root =
     render_resources ''network'' ''Network'' config_root (\<lambda>name. [''rootful'']) network_table"

text \<open>\<^verbatim>\<open>sorted((modes or {}).get(name, {"rootful"}))\<close>.\<close>

definition unit_modes :: "(string list) dict \<Rightarrow> string \<Rightarrow> string list" where
  "unit_modes modes name = (case dget modes name of None \<Rightarrow> [''rootful''] | Some ms \<Rightarrow> sort (remdups ms))"

definition render_volumes :: "pyval dict \<Rightarrow> string \<Rightarrow> (string list) dict \<Rightarrow> (string dict \<times> runtime_unit list) res" where
  "render_volumes volume_table config_root volume_modes =
     render_resources ''volume'' ''Volume'' config_root (unit_modes volume_modes) volume_table"

definition render_builds :: "pyval dict \<Rightarrow> string \<Rightarrow> (string list) dict \<Rightarrow> (string dict \<times> runtime_unit list) res" where
  "render_builds build_table config_root build_modes =
     render_resources ''build'' ''Build'' config_root (unit_modes build_modes) build_table"

subsection \<open>Modes of shared units\<close>

text \<open>The containers of a table as \<^verbatim>\<open>infer_build_modes\<close> and \<^verbatim>\<open>infer_volume_modes\<close> walk it: mode and \<^verbatim>\<open>Container\<close> table.\<close>

definition container_mode :: "pyval dict \<Rightarrow> string" where
  "container_mode sections = (if get_val sections ''privileged'' = VBool True then ''rootful'' else ''rootless'')"

definition consumers :: "pyval dict \<Rightarrow> (string \<times> pyval dict) list res" where
  "consumers container_table = rbind (rmap (\<lambda>e. case snd e of
       VDict sections \<Rightarrow>
         (case get_val sections ''Container'' of
            VDict container \<Rightarrow> Inr [(container_mode sections, container)]
          | _ \<Rightarrow> Inr [])
     | _ \<Rightarrow> Inl (PyExc ''AttributeError'')) container_table) (\<lambda>cs. Inr (concat cs))"

definition first_string :: "pyval \<Rightarrow> string option" where
  "first_string v = (case (case v of VList (x # xs) \<Rightarrow> x | _ \<Rightarrow> v) of VStr s \<Rightarrow> Some (strip s) | _ \<Rightarrow> None)"

definition infer_build_modes :: "pyval dict \<Rightarrow> pyval dict \<Rightarrow> (string list) dict res" where
  "infer_build_modes container_table build_table =
     (if build_table = [] then Inr []
      else rbind (consumers container_table) (\<lambda>cs. Inr (List.map_filter (\<lambda>e.
        case snd e of
          VDict sections \<Rightarrow>
            (case get_val sections ''Build'' of
               VDict build \<Rightarrow>
                 (case first_string (get_val build ''ImageTag'') of
                    None \<Rightarrow> None
                  | Some tag \<Rightarrow>
                      (let modes = filter (\<lambda>m. \<exists>c \<in> set cs. fst c = m \<and> first_string (get_val (snd c) ''Image'') = Some tag)
                                     [''rootful'', ''rootless''] in
                       if modes = [] then None else Some (fst e, modes)))
             | _ \<Rightarrow> None)
        | _ \<Rightarrow> None) build_table)))"

definition volume_values :: "pyval dict \<Rightarrow> pyval list" where
  "volume_values container = (case get_or (VList []) container ''Volume'' of VList xs \<Rightarrow> xs | v \<Rightarrow> [v])"

definition names_volume :: "string \<Rightarrow> pyval \<Rightarrow> bool" where
  "names_volume name v = (case v of VStr s \<Rightarrow> CHR '':'' \<in> set s \<and> fst (partition_on (CHR '':'') s) = name | _ \<Rightarrow> False)"

definition infer_volume_modes :: "pyval dict \<Rightarrow> pyval dict \<Rightarrow> (string list) dict res" where
  "infer_volume_modes container_table volume_table =
     (if volume_table = [] then Inr []
      else rbind (consumers container_table) (\<lambda>cs. Inr (List.map_filter (\<lambda>name.
        let modes = filter (\<lambda>m. \<exists>c \<in> set cs. fst c = m \<and> list_ex (names_volume name) (volume_values (snd c)))
                      [''rootful'', ''rootless''] in
        if modes = [] then None else Some (name, modes)) (dkeys volume_table))))"

fun validate_unique_runtime_services :: "((string \<times> string) \<times> string) list \<Rightarrow> runtime_unit list \<Rightarrow> unit res" where
  "validate_unique_runtime_services seen [] = Inr ()"
| "validate_unique_runtime_services seen (u # us) =
     (case map_of seen (ru_mode u, ru_service u) of
        Some previous \<Rightarrow> Inl (ProvisionError (''quadlet service name collision: '' @ previous @ '' and '' @ ru_filename u @
          '' both render '' @ ru_service u @ '' ('' @ ru_mode u @ '')''))
      | None \<Rightarrow> validate_unique_runtime_services (((ru_mode u, ru_service u), ru_filename u) # seen) us)"

definition get_table :: "pyval dict \<Rightarrow> string \<Rightarrow> pyval dict" where
  "get_table d k = (case get_val d k of VDict t \<Rightarrow> t | _ \<Rightarrow> [])"

text \<open>The rendering steps of \<^verbatim>\<open>write_imported_state\<close>: the unit files, the runtime units and the warnings.\<close>

definition render_units :: "string \<Rightarrow> pyval dict \<Rightarrow> string \<Rightarrow> (string dict \<times> runtime_unit list \<times> string list) res" where
  "render_units cwd containers render_root =
     (let container_table = get_table containers ''container''; network_table = get_table containers ''network'';
          volume_table = get_table containers ''volume''; build_table = get_table containers ''build'' in
      rbind (if container_table = [] then Inr ([], [], []) else render_containers cwd container_table render_root) (\<lambda>(r1, u1, ws).
      rbind (if network_table = [] then Inr ([], []) else render_networks network_table render_root) (\<lambda>(r2, u2).
      rbind (if volume_table = [] then Inr ([], [])
             else rbind (infer_volume_modes container_table volume_table) (render_volumes volume_table render_root)) (\<lambda>(r3, u3).
      rbind (if build_table = [] then Inr ([], [])
             else rbind (infer_build_modes container_table build_table) (render_builds build_table render_root)) (\<lambda>(r4, u4).
      rbind (validate_unique_runtime_services [] (u1 @ u2 @ u3 @ u4)) (\<lambda>u.
      Inr (r1 @ r2 @ r3 @ r4, u1 @ u2 @ u3 @ u4, ws)))))))"

section \<open>Theorems\<close>

subsection \<open>Reading unit files\<close>

text \<open>
  The reference reader, after the syntax of systemd unit files: a backslash at the end of a line joins it with
  the next, \<^verbatim>\<open>[name]\<close> opens a section, \<^verbatim>\<open>key=value\<close> is an entry, blanks around a key
  and a value do not count.
\<close>

fun logical_lines :: "string list \<Rightarrow> string list" where
  "logical_lines [] = []"
| "logical_lines (l # ls) =
     (if ends_with [CHR 0x5C] l
      then (case logical_lines ls of [] \<Rightarrow> [butlast l] | m # ms \<Rightarrow> (butlast l @ '' '' @ m) # ms)
      else l # logical_lines ls)"

fun unit_entries :: "string \<Rightarrow> string list \<Rightarrow> (string \<times> string \<times> string) list" where
  "unit_entries sec [] = []"
| "unit_entries sec (l # ls) =
     (if starts_with ''['' l then unit_entries (butlast (tl l)) ls
      else (case partition_on (CHR ''='') l of
              (k, Some v) \<Rightarrow> (sec, strip k, strip v) # unit_entries sec ls
            | (k, None) \<Rightarrow> unit_entries sec ls))"

definition clean :: "string list \<Rightarrow> string list" where
  "clean ls = filter (\<lambda>l. l \<noteq> []) (map strip ls)"

definition read_unit :: "string \<Rightarrow> (string \<times> string \<times> string) list" where
  "read_unit s = unit_entries [] (clean (logical_lines (split_on (CHR 0x0A) s)))"

definition unit_values :: "string \<Rightarrow> string \<Rightarrow> string \<Rightarrow> string list" where
  "unit_values sec key s = map (\<lambda>e. snd (snd e)) (filter (\<lambda>e. fst e = sec \<and> fst (snd e) = key) (read_unit s))"

definition no_continuation :: "string \<Rightarrow> bool" where
  "no_continuation s = list_all (\<lambda>l. \<not> ends_with [CHR 0x5C] l) (split_on (CHR 0x0A) s)"

lemma clean_append [simp]: "clean (xs @ ys) = clean xs @ clean ys" "clean [] = []"
  by (simp_all add: clean_def)

lemma logical_lines_id: "list_all (\<lambda>l. \<not> ends_with [CHR 0x5C] l) ls \<Longrightarrow> logical_lines ls = ls"
  by (induction ls) auto

lemma split_on_snoc:
  "split_on c (s @ [x]) = (if x = c then split_on c s @ [[]] else butlast (split_on c s) @ [last (split_on c s) @ [x]])"
  by (induction s) (auto split: list.splits)

lemma strip_Nil: "strip [] = []"
  by (simp add: strip_def lstrip_def rstrip_def)

lemma strip_snoc: "is_space c \<Longrightarrow> strip (l @ [c]) = strip l"
  by (cases "\<forall>x \<in> set l. is_space x")
    (auto simp: strip_def lstrip_def rstrip_def dropWhile_append dest: set_dropWhileD)

lemma clean_split_snoc: "is_space c \<Longrightarrow> clean (split_on (CHR 0x0A) (s @ [c])) = clean (split_on (CHR 0x0A) s)"
proof -
  assume c: "is_space c"
  obtain bs l where "split_on (CHR 0x0A) s = bs @ [l]" by (cases "split_on (CHR 0x0A) s" rule: rev_cases) auto
  then show ?thesis using c by (auto simp: split_on_snoc clean_def strip_snoc strip_Nil)
qed

lemma clean_split_rstrip: "clean (split_on (CHR 0x0A) (rstrip is_space s)) = clean (split_on (CHR 0x0A) s)"
  by (induction s rule: rev_induct) (auto simp: rstrip_def clean_split_snoc)

lemma read_unit_text:
  assumes "no_continuation (unit_text ls)" "ls \<noteq> []" "\<And>l. l \<in> set ls \<Longrightarrow> CHR 0x0A \<notin> set l"
  shows "read_unit (unit_text ls) = unit_entries [] (clean ls)"
proof -
  have lf: "is_space (CHR 0x0A)" by (simp add: is_space_def cp_def)
  have "clean (split_on (CHR 0x0A) (unit_text ls)) = clean (split_on (CHR 0x0A) (join [CHR 0x0A] ls))"
    by (simp add: unit_text_def clean_split_snoc [OF lf] clean_split_rstrip)
  also have "\<dots> = clean ls" using assms(2,3) by (simp add: split_on_join)
  finally show ?thesis using assms(1) by (simp add: read_unit_def no_continuation_def logical_lines_id)
qed

subsection \<open>Rendered sections\<close>

definition value_text :: "string \<Rightarrow> pyval \<Rightarrow> string" where
  "value_text config_root v = (case format_scalar (case v of VStr s \<Rightarrow> VStr (substitute_tokens s config_root) | _ \<Rightarrow> v) of
     Inr s \<Rightarrow> s | Inl e \<Rightarrow> [])"

definition section_entries :: "string \<Rightarrow> directives \<Rightarrow> (string \<times> string) list" where
  "section_entries config_root d = concat (map (\<lambda>e. map (\<lambda>v. (fst e, strip (value_text config_root v))) (snd e)) d)"

fun value_ok :: "pyval \<Rightarrow> bool" where
  "value_ok (VStr s) = (CHR 0x0A \<notin> set s)"
| "value_ok v = True"

definition directives_ok :: "directives \<Rightarrow> bool" where
  "directives_ok d = (\<forall>e \<in> set d. directive_name_re (fst e) \<and> (\<forall>v \<in> set (snd e). value_ok v))"

lemma normalize_value_ok: "normalize_value v path = Inr w \<Longrightarrow> w = v \<and> value_ok v"
  by (cases v) (auto simp: normalize_value_def validate_directive_value_def rguard_def list_ex_iff breaks_line_def split: if_splits)

lemma normalize_values_ok:
  assumes "normalize_values raw path = Inr vs"
  shows "\<forall>v \<in> set vs. value_ok v" "vs = (case raw of VList xs \<Rightarrow> xs | _ \<Rightarrow> [raw])"
proof -
  have "vs = (case raw of VList xs \<Rightarrow> xs | _ \<Rightarrow> [raw]) \<and> (\<forall>v \<in> set vs. value_ok v)"
  proof (cases "\<exists>xs. raw = VList xs")
    case True
    then obtain xs where xs: "raw = VList xs" by blast
    then have "length vs = length xs" and i: "\<And>i. i < length xs \<Longrightarrow> normalize_value (xs ! i) (item_path path i) = Inr (vs ! i)"
      using assms by (auto simp: normalize_values_def rmapi_eq_Inr)
    then have "vs = xs" using normalize_value_ok [OF i] by (intro nth_equalityI) auto
    moreover have "\<forall>v \<in> set xs. value_ok v" using normalize_value_ok [OF i] by (auto simp: in_set_conv_nth)
    ultimately show ?thesis using xs by simp
  next
    case False
    then have "rbind (normalize_value raw path) (\<lambda>v. Inr [v]) = Inr vs" using assms by (simp add: normalize_values_def split: pyval.splits)
    then show ?thesis using False by (auto simp: res_simps split: pyval.splits dest!: normalize_value_ok)
  qed
  then show "\<forall>v \<in> set vs. value_ok v" "vs = (case raw of VList xs \<Rightarrow> xs | _ \<Rightarrow> [raw])" by auto
qed

lemma normalize_directives_ok:
  "normalize_directives t path = Inr d \<Longrightarrow> directives_ok d \<and> set (dkeys d) \<subseteq> set (dkeys t) \<and> (distinct (dkeys t) \<longrightarrow> distinct (dkeys d))"
proof (induction t path arbitrary: d rule: normalize_directives.induct)
  case (2 key raw table path)
  show ?case
  proof (cases "raw = VList []")
    case True
    then show ?thesis using "2.prems" "2.IH"(1) by (auto simp: res_simps)
  next
    case False
    then obtain vs d' where d: "d = (key, vs) # d'" "directive_name_re key" "normalize_values raw (path @ ''.'' @ key) = Inr vs"
      "normalize_directives table path = Inr d'"
      using "2.prems" by (auto simp: res_simps validate_directive_name_def)
    then show ?thesis using "2.IH"(2) False normalize_values_ok(1) [OF d(3)]
      by (auto simp: directives_ok_def)
  qed
qed (simp add: directives_ok_def)

lemma directive_name_props:
  assumes "directive_name_re k"
  shows "k \<noteq> []" "\<not> is_space (hd k)" "hd k \<noteq> CHR ''[''" "CHR ''='' \<notin> set k" "strip k = k" "CHR 0x0A \<notin> set k"
proof -
  have chars: "\<And>c. is_ascii_alnum c \<Longrightarrow> \<not> is_space c \<and> c \<noteq> CHR ''['' \<and> c \<noteq> CHR ''='' \<and> c \<noteq> CHR 0x0A"
  proof -
    fix c
    assume c: "is_ascii_alnum c"
    have "cp (CHR ''['') = 91" "cp (CHR ''='') = 61" "cp (CHR 0x0A) = 10" by (simp_all add: cp_def)
    then show "\<not> is_space c \<and> c \<noteq> CHR ''['' \<and> c \<noteq> CHR ''='' \<and> c \<noteq> CHR 0x0A"
      using c by (auto simp: is_ascii_alnum_def is_ascii_digit_def is_ascii_lower_def is_ascii_upper_def is_space_def Let_def)
  qed
  have k: "k \<noteq> []" "\<forall>c \<in> set k. is_ascii_alnum c"
    using assms by (cases k; auto simp: directive_name_re_def is_ascii_alnum_def list_all_iff)+
  then show "k \<noteq> []" "\<not> is_space (hd k)" "hd k \<noteq> CHR ''[''" "CHR ''='' \<notin> set k" "CHR 0x0A \<notin> set k"
    using chars hd_in_set [OF k(1)] by blast+
  then show "strip k = k" using k chars last_in_set [OF k(1)] by (intro strip_id) auto
qed

lemma rstrip_append: "\<not> is_space c \<Longrightarrow> rstrip is_space (a @ c # s) = a @ c # rstrip is_space s"
  by (simp add: rstrip_def dropWhile_append)

lemma strip_rstrip: "strip (rstrip is_space s) = strip s"
  by (induction s rule: rev_induct) (auto simp: rstrip_def strip_snoc)

lemma strip_prefix:
  assumes "q \<noteq> []" "\<not> is_space (hd q)" "\<not> is_space (last q)"
  shows "strip (q @ r) = q @ rstrip is_space r"
proof -
  have "lstrip is_space (q @ r) = q @ r" using assms(1,2) by (cases q) (auto simp: lstrip_def)
  moreover have "rstrip is_space (q @ r) = q @ rstrip is_space r"
    using rstrip_append [OF assms(3), of "butlast q" r] append_butlast_last_id [OF assms(1)] by (metis append.assoc append_Cons append_Nil)
  ultimately show ?thesis by (simp add: strip_def)
qed

lemma strip_entry: "directive_name_re k \<Longrightarrow> strip (k @ ''='' @ s) = k @ ''='' @ rstrip is_space s"
  using strip_prefix [of "k @ ''=''" s] directive_name_props(1,2) [of k] by (simp add: is_space_def [of "CHR ''=''"] cp_def)

lemma render_value_Inr: "render_value config_root k v = Inr l \<Longrightarrow> l = k @ ''='' @ value_text config_root v"
  by (auto simp: render_value_def value_text_def res_simps)

lemma entry_lines:
  assumes "rmap (render_value config_root k) vs = Inr ls" "directive_name_re k"
  shows "unit_entries sec (clean ls @ rest) = map (\<lambda>v. (sec, k, strip (value_text config_root v))) vs @ unit_entries sec rest"
  using assms(1)
proof (induction vs arbitrary: ls)
  case (Cons v vs)
  then obtain s ls' where s: "ls = (k @ ''='' @ s) # ls'" "value_text config_root v = s" "rmap (render_value config_root k) vs = Inr ls'"
    by (auto simp: res_simps dest: render_value_Inr)
  have "\<not> starts_with ''['' (k @ ''='' @ rstrip is_space s)"
    using directive_name_props(1,3) [OF assms(2)] by (cases k) (auto simp: starts_with_def)
  moreover have "clean ls = (k @ ''='' @ rstrip is_space s) # clean ls'"
    using s(1) strip_entry [OF assms(2), of s] by (simp add: clean_def)
  ultimately show ?case
    using s Cons.IH partition_on_append(1) [OF directive_name_props(4) [OF assms(2)]] directive_name_props(5) [OF assms(2)]
    by (simp add: strip_rstrip)
qed (simp add: clean_def)

lemma section_lines:
  assumes "render_section sec d config_root = Inr ls" "directives_ok d"
  shows "unit_entries s0 (clean ls @ rest) = map (Pair sec) (section_entries config_root d) @ unit_entries sec rest"
proof -
  have entries: "unit_entries sec (clean (concat lss) @ rest) = map (Pair sec) (section_entries config_root d) @ unit_entries sec rest"
    if "rmap (\<lambda>e. rmap (render_value config_root (fst e)) (snd e)) d = Inr lss" "directives_ok d" for lss d
    using that
  proof (induction d arbitrary: lss)
    case (Cons e d)
    then show ?case by (auto simp: res_simps entry_lines section_entries_def directives_ok_def)
  qed (simp add: section_entries_def)
  obtain lss where lss: "rmap (\<lambda>e. rmap (render_value config_root (fst e)) (snd e)) d = Inr lss"
    "ls = [''['' @ sec @ '']''] @ concat lss @ [[]]"
    using assms(1) by (auto simp: render_section_def render_directives_def res_simps)
  have "strip (''['' @ sec @ '']'') = ''['' @ sec @ '']''" by (rule strip_id) (simp_all add: is_space_def cp_def)
  then have "clean ls = (''['' @ sec @ '']'') # clean (concat lss)" using lss(2) by (simp add: clean_def strip_Nil)
  then show ?thesis using entries [OF lss(1) assms(2)] by (simp add: starts_with_def butlast_append)
qed

lemma value_text_no_lf:
  assumes "CHR 0x0A \<notin> set config_root" "value_ok v"
  shows "CHR 0x0A \<notin> set (value_text config_root v)"
proof (cases v)
  case (VInt i)
  have "\<not> is_ascii_digit (CHR 0x0A)" by (simp add: is_ascii_digit_def cp_def)
  then show ?thesis using VInt string_of_nat_digits by (auto simp: value_text_def string_of_int_def)
next
  case (VStr s)
  have "CHR 0x0A \<notin> set (path_child config_root ''files'')" using assms(1) by (auto simp: path_child_def)
  moreover have "CHR 0x0A \<notin> set (replace config_dir_token config_root s)"
    using set_replace(1) [of config_dir_token config_root s] assms VStr by auto
  ultimately have "CHR 0x0A \<notin> set (substitute_tokens s config_root)"
    using set_replace(1) [of files_dir_token "path_child config_root ''files''"] by (fastforce simp: substitute_tokens_def)
  then show ?thesis using VStr by (simp add: value_text_def)
qed (simp_all add: value_text_def)

lemma directive_lines_no_lf:
  assumes "rmap (render_value config_root k) vs = Inr ls" "directive_name_re k" "\<forall>v \<in> set vs. value_ok v"
    "CHR 0x0A \<notin> set config_root" "l \<in> set ls"
  shows "CHR 0x0A \<notin> set l"
proof -
  obtain v where "v \<in> set vs" "l = k @ ''='' @ value_text config_root v"
    using rmap_set [OF assms(1,5)] by (auto dest: render_value_Inr)
  then show ?thesis using assms(3) directive_name_props(6) [OF assms(2)] value_text_no_lf [OF assms(4), of v] by auto
qed

lemma section_lines_no_lf:
  assumes "render_section sec d config_root = Inr ls" "directives_ok d" "CHR 0x0A \<notin> set config_root" "CHR 0x0A \<notin> set sec" "l \<in> set ls"
  shows "CHR 0x0A \<notin> set l"
proof -
  obtain lss where lss: "rmap (\<lambda>e. rmap (render_value config_root (fst e)) (snd e)) d = Inr lss"
    "ls = [''['' @ sec @ '']''] @ concat lss @ [[]]"
    using assms(1) by (auto simp: render_section_def render_directives_def res_simps)
  have "CHR 0x0A \<notin> set l" if l: "l1 \<in> set lss" "l \<in> set l1" for l1
  proof -
    obtain e where "e \<in> set d" "rmap (render_value config_root (fst e)) (snd e) = Inr l1" using rmap_set [OF lss(1) l(1)] by blast
    then show ?thesis using directive_lines_no_lf [OF _ _ _ assms(3) l(2)] assms(2) by (simp add: directives_ok_def)
  qed
  then show ?thesis using assms(4,5) lss(2) by auto
qed

lemma section_values:
  "distinct (dkeys d) \<Longrightarrow> map snd (filter (\<lambda>e. fst e = key) (section_entries config_root d)) =
     map (\<lambda>v. strip (value_text config_root v)) (case dget d key of None \<Rightarrow> [] | Some vs \<Rightarrow> vs)"
proof (induction d)
  case (Cons e d)
  have none: "filter (\<lambda>e. fst e = key) (section_entries config_root d) = []" if "key \<notin> set (dkeys d)"
    using that by (auto simp: section_entries_def filter_empty_conv)
  show ?case
  proof (cases "fst e = key")
    case True
    then show ?thesis using Cons.prems none by (simp add: section_entries_def filter_map o_def)
  next
    case False
    then show ?thesis using Cons by (simp add: section_entries_def filter_map o_def)
  qed
qed (simp add: section_entries_def)

subsection \<open>Confinement\<close>

definition loopback_bind :: "string \<Rightarrow> bool" where
  "loopback_bind p = (starts_with ''127.0.0.1:'' p \<or> starts_with ''127.0.1.1:'' p)"

text \<open>A value that opens a bracket but is not \<^verbatim>\<open>[host]:port\<close>: it is passed on as it is.\<close>

definition malformed_bracket :: "string \<Rightarrow> bool" where
  "malformed_bracket p = (starts_with ''['' p \<and>
     (case dropWhile (\<lambda>c. c \<noteq> CHR '']'') p of x # y # r \<Rightarrow> y \<noteq> CHR '':'' | _ \<Rightarrow> True))"

lemma starts_with_append [simp]: "starts_with p (p @ s)"
  by (simp add: starts_with_def)

lemma starts_with_iff: "starts_with p s \<longleftrightarrow> (\<exists>r. s = p @ r)"
  by (metis append_eq_conv_conj append_take_drop_id starts_with_def)

lemma rebind_loopback_ok:
  assumes "bind_host \<in> {''127.0.0.1'', ''127.0.1.1''} \<Longrightarrow> starts_with (bind_host @ '':'') value"
  shows "loopback_bind (fst (rebind_loopback value n bind_host r))"
proof (cases "bind_host \<in> {''127.0.0.1'', ''127.0.1.1''}")
  case True
  then have "fst (rebind_loopback value n bind_host r) = value" by (simp add: rebind_loopback_def)
  moreover have "loopback_bind value" using assms [OF True] True unfolding loopback_bind_def by (elim insertE emptyE) simp_all
  ultimately show ?thesis by simp
next
  case False
  then have "fst (rebind_loopback value n bind_host r) = ''127.0.0.1:'' @ r" by (simp only: rebind_loopback_def if_False fst_conv split: if_split) simp
  then show ?thesis unfolding loopback_bind_def by (metis starts_with_append)
qed

lemma no_second:
  assumes "\<nexists>x r. d = x # y # r"
  shows "case d of x # z # r \<Rightarrow> z \<noteq> y | _ \<Rightarrow> True" "(case d of x # z # r \<Rightarrow> if z = y then f r else g | _ \<Rightarrow> g) = g"
  using assms by (auto split: list.splits)

lemma rewrite_port_bracket:
  assumes "rewrite_rootless_publish_port value n = Inr (p, ws)" "starts_with ''['' value"
  shows "loopback_bind p \<or> p = value \<and> malformed_bracket value"
proof -
  let ?h = "takeWhile (\<lambda>c. c \<noteq> CHR '']'') value @ '']''" and ?d = "dropWhile (\<lambda>c. c \<noteq> CHR '']'') value"
  have "last ?h \<noteq> last ''127.0.0.1''" "last ?h \<noteq> last ''127.0.1.1''" by simp_all
  then have h: "?h \<notin> {''127.0.0.1'', ''127.0.1.1''}" by (metis empty_iff insert_iff)
  have lb: "loopback_bind (fst (rebind_loopback value n ?h r))" for r by (intro rebind_loopback_ok) (use h in blast)
  show ?thesis
  proof (cases "\<exists>x r. ?d = x # CHR '':'' # r")
    case True
    then obtain x r where "?d = x # CHR '':'' # r" by blast
    then have "(p, ws) = rebind_loopback value n ?h r" using assms by (simp add: rewrite_rootless_publish_port_def)
    then show ?thesis using lb [of r] by (metis fst_conv)
  next
    case False
    note second = no_second [OF this]
    have "malformed_bracket value" unfolding malformed_bracket_def using assms(2) second(1) by (rule conjI)
    moreover have "p = value" using assms(1) unfolding rewrite_rootless_publish_port_def second(2) if_P [OF assms(2)] by simp
    ultimately show ?thesis by blast
  qed
qed

lemma rewrite_port_plain:
  assumes "rewrite_rootless_publish_port value n = Inr (p, ws)" "\<not> starts_with ''['' value"
  shows "loopback_bind p"
proof -
  let ?ps = "split_on (CHR '':'') value"
  consider (two) "length ?ps = 2" | (short) "length ?ps < 2" | (long) "3 \<le> length ?ps" by linarith
  then show ?thesis
  proof cases
    case two
    then have "p = ''127.0.0.1:'' @ value" using assms by (simp add: rewrite_rootless_publish_port_def Let_def split: if_splits)
    then show ?thesis using starts_with_append [of "''127.0.0.1:''" "value"] by (simp add: loopback_bind_def)
  next
    case short
    then show ?thesis using assms by (simp add: rewrite_rootless_publish_port_def)
  next
    case long
    then obtain a b bs where ps: "?ps = a # b # bs" by (metis Suc_le_length_iff numeral_3_eq_3)
    have "value = join [CHR '':''] ?ps" by (rule join_split_on [symmetric])
    then have "starts_with (a @ '':'') value" unfolding ps by (simp add: starts_with_iff)
    then have "loopback_bind (fst (rebind_loopback value n a r))" for r by (rule rebind_loopback_ok)
    moreover have "(p, ws) = rebind_loopback value n a (join '':'' (b # bs))"
      using assms long ps by (cases bs) (simp_all add: rewrite_rootless_publish_port_def Let_def)
    ultimately show ?thesis by (metis fst_conv)
  qed
qed

lemma replace_prefix: "CHR ''$'' \<notin> set q \<Longrightarrow> replace (CHR ''$'' # tok) x (q @ r) = q @ replace (CHR ''$'' # tok) x r"
  by (induction q) (auto simp: starts_with_def)

lemma loopback_text:
  assumes "loopback_bind p"
  shows "loopback_bind (strip (value_text config_root (VStr p)))"
proof -
  have keep: "starts_with q (strip (value_text config_root (VStr p)))"
    if q: "starts_with q p" "CHR ''$'' \<notin> set q" "q \<noteq> []" "\<not> is_space (hd q)" "\<not> is_space (last q)" for q
  proof -
    obtain r where "p = q @ r" using q(1) by (auto simp: starts_with_iff)
    then have "value_text config_root (VStr p) = q @ substitute_tokens r config_root"
      using q(2) by (simp add: value_text_def substitute_tokens_def config_dir_token_def files_dir_token_def replace_prefix)
    then show ?thesis using q(3-5) by (simp add: strip_prefix)
  qed
  show ?thesis using assms keep [of "''127.0.0.1:''"] keep [of "''127.0.1.1:''"]
    by (auto simp: loopback_bind_def is_space_def cp_def)
qed

lemma set_strip: "set (strip s) \<subseteq> set s"
  by (auto simp: strip_def lstrip_def rstrip_def dest!: set_dropWhileD)

lemma rebind_loopback_no_lf:
  "CHR 0x0A \<notin> set value \<Longrightarrow> CHR 0x0A \<notin> set r \<Longrightarrow> CHR 0x0A \<notin> set (fst (rebind_loopback value n h r))"
  by (simp add: rebind_loopback_def)

lemma rewrite_port_cases:
  assumes "rewrite_rootless_publish_port value n = Inr (p, ws)"
  shows "ws = [] \<and> (p = value \<or> p = ''127.0.0.1:'' @ value) \<or> (\<exists>h r. set r \<subseteq> set value \<and> rebind_loopback value n h r = (p, ws))"
proof (cases "starts_with ''['' value")
  case True
  let ?d = "dropWhile (\<lambda>c. c \<noteq> CHR '']'') value"
  show ?thesis
  proof (cases "\<exists>x r. ?d = x # CHR '':'' # r")
    case d: True
    then obtain x r where r: "?d = x # CHR '':'' # r" by blast
    moreover have "set ?d \<subseteq> set value" by (auto dest: set_dropWhileD)
    ultimately have "set r \<subseteq> set value" by auto
    moreover have "rebind_loopback value n (takeWhile (\<lambda>c. c \<noteq> CHR '']'') value @ '']'') r = (p, ws)"
      using assms True r by (simp add: rewrite_rootless_publish_port_def)
    ultimately show ?thesis by blast
  next
    case False
    note second = no_second [OF this]
    show ?thesis using assms unfolding rewrite_rootless_publish_port_def second(2) if_P [OF True] by simp
  qed
next
  case False
  obtain a as where as: "split_on (CHR '':'') value = a # as" by (cases "split_on (CHR '':'') value") auto
  have "set (join [CHR '':''] as) \<subseteq> set (join [CHR '':''] (a # as))" by (cases as) auto
  then have "set (join [CHR '':''] as) \<subseteq> set value" by (simp add: as [symmetric] join_split_on)
  then show ?thesis using assms False by (auto simp: rewrite_rootless_publish_port_def Let_def as split: if_splits)
qed

lemma rewrite_port_no_lf:
  assumes "rewrite_rootless_publish_port value n = Inr (p, ws)" "CHR 0x0A \<notin> set value"
  shows "CHR 0x0A \<notin> set p"
  using rewrite_port_cases [OF assms(1)] assms(2) rebind_loopback_no_lf
  by (elim disjE exE conjE) (simp_all, metis fst_conv subsetD)

lemma rewrite_ports_ok:
  assumes "rewrite_ports n path ports = Inr rs" "\<forall>v \<in> set ports. value_ok v" "r \<in> set rs"
  shows "CHR 0x0A \<notin> set (fst r) \<and> (loopback_bind (fst r) \<or> malformed_bracket (fst r))"
proof -
  obtain i v s where v: "v \<in> set ports" "require_string v i = Inr s" "rewrite_rootless_publish_port s n = Inr r"
    using rmapi_set [OF assms(1) [unfolded rewrite_ports_def] assms(3)] by (auto simp: res_simps)
  obtain s0 where "v = VStr s0" "s = strip s0" using require_string_Inr [OF v(2)] by blast
  then have "CHR 0x0A \<notin> set s" using v(1) assms(2) set_strip by fastforce
  moreover obtain p ws where "r = (p, ws)" by fastforce
  ultimately show ?thesis
    using v(3) rewrite_port_no_lf rewrite_port_bracket rewrite_port_plain by (metis fst_conv)
qed

lemma directives_ok_dset:
  "directives_ok d \<Longrightarrow> directive_name_re k \<Longrightarrow> \<forall>v \<in> set vs. value_ok v \<Longrightarrow> directives_ok (dset k vs d)"
  using set_dset [of k vs d] by (fastforce simp: directives_ok_def)

lemma confine_ok:
  assumes "confine n privileged d = Inr (d1, ws, mode)" "directives_ok d"
  shows "directives_ok d1" "distinct (dkeys d) \<Longrightarrow> distinct (dkeys d1)" "mode = (if privileged then ''rootful'' else ''rootless'')"
    "dget d1 ''Network'' = Some [VStr (if privileged then ''host'' else ''pasta'')]"
    "\<not> privileged \<Longrightarrow> dget d1 ''PublishPort'' = Some vs \<Longrightarrow> v \<in> set vs \<Longrightarrow> \<exists>s. v = VStr s \<and> (loopback_bind s \<or> malformed_bracket s)"
proof -
  have names: "directive_name_re ''Network''" "directive_name_re ''PublishPort''" by code_simp+
  let ?d = "dset ''Network'' [VStr ''pasta''] d"
  have nets: "directives_ok (dset ''Network'' [VStr ''host''] d)" "directives_ok ?d"
    using assms(2) names(1) by (auto intro!: directives_ok_dset)
  have "(privileged \<and> d1 = dset ''Network'' [VStr ''host''] d \<and> mode = ''rootful'') \<or>
    (\<not> privileged \<and> mode = ''rootless'' \<and> dget d ''PublishPort'' = None \<and> d1 = ?d) \<or>
    (\<exists>ports path rs. \<not> privileged \<and> mode = ''rootless'' \<and> dget d ''PublishPort'' = Some ports \<and> rewrite_ports n path ports = Inr rs \<and>
       d1 = dset ''PublishPort'' (map (\<lambda>r. VStr (fst r)) rs) ?d)"
    using assms(1) by (auto simp: confine_def Let_def res_simps split: if_splits option.splits)
  then consider (priv) "privileged" "d1 = dset ''Network'' [VStr ''host''] d" "mode = ''rootful''"
    | (none) "\<not> privileged" "mode = ''rootless''" "dget d ''PublishPort'' = None" "d1 = ?d"
    | (ports) ports path rs where "\<not> privileged" "mode = ''rootless''" "dget d ''PublishPort'' = Some ports"
        "rewrite_ports n path ports = Inr rs" "d1 = dset ''PublishPort'' (map (\<lambda>r. VStr (fst r)) rs) ?d"
    by (elim disjE exE conjE) (rule that; assumption)+
  note split = this
  from split show "directives_ok d1"
  proof cases
    case ports
    have "\<forall>v \<in> set ports. value_ok v" using assms(2) map_of_SomeD [OF ports(3)] by (auto simp: directives_ok_def)
    then show ?thesis using ports(5) nets(2) names(2) rewrite_ports_ok [OF ports(4)] by (auto intro!: directives_ok_dset)
  qed (use nets in simp_all)
  from split show "distinct (dkeys d) \<Longrightarrow> distinct (dkeys d1)" by cases simp_all
  from split show "mode = (if privileged then ''rootful'' else ''rootless'')" by cases simp_all
  from split show "dget d1 ''Network'' = Some [VStr (if privileged then ''host'' else ''pasta'')]" by cases simp_all
  from split show "\<exists>s. v = VStr s \<and> (loopback_bind s \<or> malformed_bracket s)"
    if a: "\<not> privileged" "dget d1 ''PublishPort'' = Some vs" "v \<in> set vs"
  proof cases
    case ports
    have "\<forall>v \<in> set ports. value_ok v" using assms(2) map_of_SomeD [OF ports(3)] by (auto simp: directives_ok_def)
    then show ?thesis using ports(5) a rewrite_ports_ok [OF ports(4)] by auto
  qed (use a in simp_all)
qed

lemma rmap_mem: "rmap f xs = Inr ys \<Longrightarrow> x \<in> set xs \<Longrightarrow> \<exists>y \<in> set ys. f x = Inr y"
  by (induction xs arbitrary: ys) (auto simp: res_simps)

lemma substitute_plain: "CHR ''$'' \<notin> set q \<Longrightarrow> substitute_tokens q config_root = q"
  using replace_prefix [of q _ _ "[]"] by (simp add: substitute_tokens_def config_dir_token_def files_dir_token_def)

lemma optional_section:
  assumes "render_optional_section sec sections path config_root = Inr ls" "CHR 0x0A \<notin> set config_root" "CHR 0x0A \<notin> set sec"
  shows "\<exists>es. \<forall>s0 rest. \<exists>s1. unit_entries s0 (clean ls @ rest) = map (Pair sec) es @ unit_entries s1 rest"
    "l \<in> set ls \<Longrightarrow> CHR 0x0A \<notin> set l"
proof -
  have "ls = [] \<or> (\<exists>d. directives_ok d \<and> render_section sec d config_root = Inr ls)"
    using assms(1) normalize_directives_ok by (auto simp: render_optional_section_def res_simps split: option.splits)
  then consider (none) "ls = []" | (some) d where "directives_ok d" "render_section sec d config_root = Inr ls" by blast
  note split = this
  from split show "\<exists>es. \<forall>s0 rest. \<exists>s1. unit_entries s0 (clean ls @ rest) = map (Pair sec) es @ unit_entries s1 rest"
    by cases (auto simp: section_lines intro: exI [of _ "[]"])
  from split show "l \<in> set ls \<Longrightarrow> CHR 0x0A \<notin> set l"
    by cases (use section_lines_no_lf assms(2,3) in auto)
qed

lemma container_unit_entries:
  assumes "render_optional_section ''Unit'' sections path config_root = Inr ls1" "render_section ''Container'' d config_root = Inr ls2"
    "render_optional_section ''Install'' sections path config_root = Inr ls3"
    and "directives_ok d" "distinct (dkeys d)" "CHR 0x0A \<notin> set config_root" "no_continuation (unit_text (ls1 @ ls2 @ ls3))"
  shows "unit_values ''Container'' key (unit_text (ls1 @ ls2 @ ls3)) =
    map (\<lambda>v. strip (value_text config_root v)) (case dget d key of None \<Rightarrow> [] | Some vs \<Rightarrow> vs)"
proof -
  have ne: "ls1 @ ls2 @ ls3 \<noteq> []" using assms(2) by (auto simp: render_section_def res_simps)
  have lf: "CHR 0x0A \<notin> set l" if "l \<in> set (ls1 @ ls2 @ ls3)" for l
    using that optional_section(2) [OF assms(1,6)] optional_section(2) [OF assms(3,6)] section_lines_no_lf [OF assms(2,4,6)] by auto
  obtain es1 where es1: "\<And>s0 rest. \<exists>s1. unit_entries s0 (clean ls1 @ rest) = map (Pair ''Unit'') es1 @ unit_entries s1 rest"
    using optional_section(1) [OF assms(1,6)] by auto
  obtain es3 where es3: "\<And>s0 rest. \<exists>s1. unit_entries s0 (clean ls3 @ rest) = map (Pair ''Install'') es3 @ unit_entries s1 rest"
    using optional_section(1) [OF assms(3,6)] by auto
  obtain s1 where s1: "unit_entries [] (clean ls1 @ clean ls2 @ clean ls3) = map (Pair ''Unit'') es1 @ unit_entries s1 (clean ls2 @ clean ls3)"
    using es1 by blast
  obtain s3 where s3: "unit_entries ''Container'' (clean ls3 @ []) = map (Pair ''Install'') es3 @ unit_entries s3 []" using es3 by blast
  have "read_unit (unit_text (ls1 @ ls2 @ ls3)) =
      map (Pair ''Unit'') es1 @ map (Pair ''Container'') (section_entries config_root d) @ map (Pair ''Install'') es3"
    using read_unit_text [OF assms(7) ne lf] s1 s3 section_lines [OF assms(2,4), of s1 "clean ls3"] by simp
  then have "unit_values ''Container'' key (unit_text (ls1 @ ls2 @ ls3)) =
      map snd (filter (\<lambda>e. fst e = key) (section_entries config_root d))"
    by (simp add: unit_values_def filter_map o_def)
  then show ?thesis by (simp add: section_values [OF assms(5)])
qed


definition sample_container :: "pyval dict" where
  "sample_container = [(''Image'', VStr ''web:1''), (''PublishPort'', VList [VStr ''0.0.0.0:80:80'']), (''Network'', VStr ''host'')]"

definition sample_sections :: "pyval dict" where
  "sample_sections = [(''privileged'', VBool False), (''Container'', VDict sample_container)]"

lemma sample_container_renders:
  "render_containers ''/'' [(''web'', VDict sample_sections)] ''/data/config'' = Inr
     ([(''web.container'', ''[Container]'' @ [CHR 0x0A] @ ''Image=web:1'' @ [CHR 0x0A] @ ''PublishPort=127.0.0.1:80:80'' @ [CHR 0x0A] @
         ''Network=pasta'' @ [CHR 0x0A])],
      [\<lparr>ru_name = ''web'', ru_filename = ''web.container'', ru_service = ''web.service'', ru_mode = ''rootless''\<rparr>],
      [''container.web.Container.Network overridden to pasta for rootless container'',
       ''container.web.Container.PublishPort rewrote non-loopback bind to 127.0.0.1''])"
  by code_simp


text \<open>A value that ends in a backslash takes the next directive with it: here the network of a rootless container.\<close>

lemma continuation_swallows_network:
  "case render_containers ''/'' [(''web'', VDict [(''privileged'', VBool False), (''Container'', VDict [(''Image'', VStr (''web:1'' @ [CHR 0x5C]))])])] ''/data/config'' of
     Inr ([(n, t)], us, ws) \<Rightarrow> unit_values ''Container'' ''Network'' t = [] \<and> unit_values ''Container'' ''Image'' t = [''web:1 Network=pasta'']
   | _ \<Rightarrow> False"
  by code_simp

subsection \<open>Warnings and write access\<close>

definition directive_values :: "pyval dict \<Rightarrow> string \<Rightarrow> pyval list" where
  "directive_values t k = (case dget t k of None \<Rightarrow> [] | Some (VList xs) \<Rightarrow> xs | Some v \<Rightarrow> [v])"

definition trimmed :: "pyval dict \<Rightarrow> bool" where
  "trimmed container = list_all (\<lambda>k. list_all (\<lambda>s. strip s = s) (strings_of (directive_values container k))) [''Volume'', ''Mount'', ''PodmanArgs'']"

abbreviation mount_notice :: string where
  "mount_notice \<equiv> '' mounts managed bundle files without a clearly read-only mount''"

lemma normalized_values:
  "normalize_directives t path = Inr d \<Longrightarrow> distinct (dkeys t) \<Longrightarrow>
     (case dget d k of None \<Rightarrow> [] | Some vs \<Rightarrow> vs) = directive_values t k"
proof (induction t path arbitrary: d rule: normalize_directives.induct)
  case (2 key raw table path)
  have absent: "k \<notin> set (dkeys d')" if "normalize_directives table path = Inr d'" "k = key" for d'
    using normalize_directives_ok [OF that(1)] "2.prems"(2) that(2) by auto
  show ?case
  proof (cases "raw = VList []")
    case True
    then have t: "normalize_directives table path = Inr d" "validate_directive_name key (path @ ''.'' @ key) = Inr ()"
      using "2.prems"(1) by (auto simp: res_simps)
    then have "(case dget d k of None \<Rightarrow> [] | Some vs \<Rightarrow> vs) = directive_values table k" using "2.IH"(1) True "2.prems"(2) by simp
    moreover have "dget d key = None" if "k = key" using absent [OF t(1) that] that by (simp add: map_of_eq_None_iff)
    ultimately show ?thesis using True by (cases "k = key") (auto simp: directive_values_def)
  next
    case False
    then obtain vs d' where d: "d = (key, vs) # d'" "normalize_values raw (path @ ''.'' @ key) = Inr vs"
      "normalize_directives table path = Inr d'" "validate_directive_name key (path @ ''.'' @ key) = Inr ()"
      using "2.prems"(1) by (auto simp: res_simps)
    then have "(case dget d' k of None \<Rightarrow> [] | Some vs \<Rightarrow> vs) = directive_values table k" using "2.IH"(2) False "2.prems"(2) by simp
    then show ?thesis using d(1) normalize_values_ok(2) [OF d(2)] by (auto simp: directive_values_def split: pyval.splits)
  qed
qed (simp add: directive_values_def)

lemma iterate_strings:
  assumes "\<forall>v \<in> set (directive_values t k). \<exists>s. v = VStr s"
  shows "iterate (get_or (VList []) t k) = Inr (directive_values t k)"
proof (cases "dget t k")
  case None
  then show ?thesis by (simp add: iterate_def get_or_def directive_values_def)
next
  case (Some v)
  then show ?thesis using assms by (cases v) (auto simp: iterate_def get_or_def directive_values_def)
qed

lemma warning_writable:
  assumes "managed_file_mount_warning cwd directive value path rt = Inr w" "is_volume_directive directive = is_volume_directive directive'"
  shows "mount_writable cwd rt directive directive' value = Inr (w \<noteq> None)" "w = Some m \<Longrightarrow> ends_with mount_notice m"
proof -
  have ro: "managed_file_mount_is_read_only directive' value = managed_file_mount_is_read_only directive value"
    using assms(2) by (simp add: managed_file_mount_is_read_only_def)
  obtain src where src: "mount_source directive value = Inr src" using assms(1) by (auto simp: managed_file_mount_warning_def res_simps)
  have "mount_writable cwd rt directive directive' value = Inr (w \<noteq> None) \<and> (\<forall>m. w = Some m \<longrightarrow> ends_with mount_notice m)"
  proof (cases "\<exists>s. src = Some s \<and> managed_file_source cwd s rt")
    case True
    then obtain s where s: "src = Some s" "managed_file_source cwd s rt" by blast
    then obtain b where "managed_file_mount_is_read_only directive value = Inr b"
      "w = (if b then None else Some (path @ mount_notice))"
      using assms(1) src by (auto simp: managed_file_mount_warning_def res_simps split: if_splits)
    then show ?thesis using s src ro by (simp add: mount_writable_def del: append_Cons)
  next
    case False
    then show ?thesis using assms(1) src by (cases src) (auto simp: managed_file_mount_warning_def mount_writable_def)
  qed
  then show "mount_writable cwd rt directive directive' value = Inr (w \<noteq> None)" "w = Some m \<Longrightarrow> ends_with mount_notice m" by blast+
qed

lemma checked_strings:
  assumes "rmapi i (\<lambda>i v. require_string v (p i)) vs = Inr ss"
  shows "\<forall>v \<in> set vs. \<exists>s. v = VStr s" "list_all (\<lambda>s. strip s = s) (strings_of vs) \<Longrightarrow> ss = strings_of vs"
  using assms
proof (induction vs arbitrary: i ss)
  case (Cons v vs)
  { case 1 then show ?case using Cons.IH(1) by (auto simp: res_simps dest: require_string_Inr) }
  { case 2 then show ?case using Cons.IH(2) by (auto simp: res_simps dest!: require_string_Inr) }
qed simp_all

lemma mount_loop:
  assumes "rmapi i (\<lambda>i v. rbind (require_string v (p i)) (\<lambda>s. managed_file_mount_warning cwd directive s (p i) rt)) vs = Inr ws"
    and "list_all (\<lambda>s. strip s = s) (strings_of vs)"
  shows "(\<forall>v \<in> set vs. \<exists>s. v = VStr s) \<and>
    rmap (mount_writable cwd rt directive directive) (strings_of vs) = Inr (map (\<lambda>w. w \<noteq> None) ws) \<and>
    (\<forall>m. Some m \<in> set ws \<longrightarrow> ends_with mount_notice m)"
  using assms
proof (induction vs arbitrary: i ws)
  case (Cons v vs)
  obtain x where x: "require_string v (p i) = Inr x" using Cons.prems(1) by (auto simp: res_simps)
  then obtain s where s: "v = VStr s" "x = strip s" using require_string_Inr by blast
  with x Cons.prems(1) obtain w ws' where v: "v = VStr s" "require_string v (p i) = Inr (strip s)" "managed_file_mount_warning cwd directive (strip s) (p i) rt = Inr w"
    "rmapi (Suc i) (\<lambda>i v. rbind (require_string v (p i)) (\<lambda>s. managed_file_mount_warning cwd directive s (p i) rt)) vs = Inr ws'" "ws = w # ws'"
    by (auto simp: res_simps)
  then show ?case using Cons.IH [OF v(4)] Cons.prems(2) warning_writable [OF v(3) refl] by auto
qed simp

lemma some_warning: "(List.map_filter id ws \<noteq> []) = list_ex id (map (\<lambda>w. w \<noteq> None) ws)" "m \<in> set (List.map_filter id ws) \<longleftrightarrow> Some m \<in> set ws"
  by (induction ws) (auto simp: List.map_filter_def)

lemma directive_warned:
  assumes "mount_warnings cwd config_root path d directive = Inr ws" "normalize_directives container p = Inr d" "distinct (dkeys container)"
    and "list_all (\<lambda>s. strip s = s) (strings_of (directive_values container directive))"
  shows "directive_writable cwd (Some config_root) container directive = Inr (ws \<noteq> [])" "m \<in> set ws \<Longrightarrow> ends_with mount_notice m"
proof -
  obtain os where os: "rmapi 0 (\<lambda>i v. rbind (require_string v (item_path (path @ ''.Container.'' @ directive) i)) (\<lambda>s.
      managed_file_mount_warning cwd directive s (item_path (path @ ''.Container.'' @ directive) i) (Some config_root)))
      (directive_values container directive) = Inr os" "ws = List.map_filter id os"
    using assms(1) normalized_values [OF assms(2,3), of directive] by (auto simp: mount_warnings_def Let_def res_simps)
  note loop = mount_loop [OF os(1) assms(4)]
  then show "directive_writable cwd (Some config_root) container directive = Inr (ws \<noteq> [])"
    using iterate_strings [of container directive] by (simp add: directive_writable_def os(2) some_warning)
  show "m \<in> set ws \<Longrightarrow> ends_with mount_notice m" using loop os(2) by (auto simp: some_warning)
qed

lemma podman_warned:
  assumes "podman_warnings cwd config_root path d = Inr ws" "normalize_directives container p = Inr d" "distinct (dkeys container)"
    and "list_all (\<lambda>s. strip s = s) (strings_of (directive_values container ''PodmanArgs''))"
  shows "podman_args_writable cwd (Some config_root) container = Inr (ws \<noteq> [])" "m \<in> set ws \<Longrightarrow> ends_with mount_notice m"
proof -
  let ?vs = "directive_values container ''PodmanArgs''"
  let ?f = "\<lambda>(option, value, i). managed_file_mount_warning cwd (if option \<in> {''volume'', ''v''} then ''PodmanArgsVolume'' else ''PodmanArgsMount'') value
         (item_path (path @ ''.Container.PodmanArgs'') i) (Some config_root)"
  let ?g = "\<lambda>(option, value, i). if option \<in> {''volume'', ''v''} then mount_writable cwd (Some config_root) ''PodmanArgsVolume'' ''Volume'' value
         else mount_writable cwd (Some config_root) ''PodmanArgsMount'' ''Mount'' value"
  obtain args mounts os where os: "rmapi 0 (\<lambda>i v. require_string v (item_path (path @ ''.Container.PodmanArgs'') i)) ?vs = Inr args"
    "podman_mount_values args = Inr mounts" "rmap ?f mounts = Inr os" "ws = List.map_filter id os"
    using assms(1) normalized_values [OF assms(2,3), of "''PodmanArgs''"] by (auto simp: podman_warnings_def res_simps)
  have step: "?g x = Inr (w \<noteq> None) \<and> (\<forall>m. w = Some m \<longrightarrow> ends_with mount_notice m)" if "?f x = Inr w" for x :: "string \<times> string \<times> nat" and w
  proof -
    obtain a b c where x: "x = (a, b, c)" by (cases x) auto
    have vol: "is_volume_directive ''PodmanArgsVolume'' = is_volume_directive ''Volume''" "is_volume_directive ''PodmanArgsMount'' = is_volume_directive ''Mount''"
      by (simp_all add: is_volume_directive_def)
    show ?thesis
    proof (cases "a \<in> {''volume'', ''v''}")
      case True
      then have "managed_file_mount_warning cwd ''PodmanArgsVolume'' b (item_path (path @ ''.Container.PodmanArgs'') c) (Some config_root) = Inr w"
        using that x by simp
      from warning_writable [OF this vol(1)] True show ?thesis unfolding x prod.case by simp
    next
      case False
      then have "managed_file_mount_warning cwd ''PodmanArgsMount'' b (item_path (path @ ''.Container.PodmanArgs'') c) (Some config_root) = Inr w"
        using that x by simp
      from warning_writable [OF this vol(2)] False show ?thesis unfolding x prod.case by simp
    qed
  qed
  have "rmap ?g mounts = Inr (map (\<lambda>w. w \<noteq> None) os)" using os(3) step
    by (auto simp: rmap_eq_Inr list_all2_conv_all_nth)
  moreover have "args = strings_of ?vs" "iterate (get_or (VList []) container ''PodmanArgs'') = Inr ?vs"
    using checked_strings [OF os(1)] assms(4) iterate_strings by blast+
  ultimately show "podman_args_writable cwd (Some config_root) container = Inr (ws \<noteq> [])"
    using os(2) by (simp add: podman_args_writable_def os(4) some_warning)
  show "m \<in> set ws \<Longrightarrow> ends_with mount_notice m" using rmap_set [OF os(3)] step os(4) by (fastforce simp: some_warning)
qed

lemma ends_withD: "ends_with p s \<Longrightarrow> \<exists>r. s = r @ p"
  unfolding ends_with_def by (metis append_take_drop_id)

lemma confine_warnings:
  assumes "confine n privileged d = Inr (d1, ws, mode)" "m \<in> set ws"
  shows "\<not> ends_with mount_notice m"
proof -
  have last: "last m = CHR ''t''" if "ends_with mount_notice m" using ends_withD [OF that] by auto
  have rebound: "last w = CHR ''1''" if "rebind_loopback s n h rest = r" "w \<in> set (snd r)" for s h rest r w
  proof -
    have "snd r = [] \<or> snd r = [''container.'' @ n @ ''.Container.PublishPort rewrote non-loopback bind to 127.0.0.1'']"
      unfolding that(1) [symmetric] rebind_loopback_def if_distrib [of snd] snd_conv by argo
    then show ?thesis using that(2) by (elim disjE) simp_all
  qed
  have port: "last w = CHR ''1''" if r: "rewrite_rootless_publish_port s n = Inr r" "w \<in> set (snd r)" for s r w
  proof -
    obtain p ws where pw: "r = (p, ws)" by fastforce
    from rewrite_port_cases [OF r(1) [unfolded this]] show ?thesis using r(2) rebound pw by auto
  qed
  have "last w = CHR ''1''" if "rewrite_ports n path ports = Inr rs" "(a, b) \<in> set rs" "w \<in> set b" for path ports rs a b w
    using that port [of _ "(a, b)" w] by (auto simp: rewrite_ports_def res_simps dest!: rmapi_set)
  then have "last m = CHR ''r'' \<or> last m = CHR ''1''"
    using assms by (auto simp: confine_def Let_def res_simps split: if_splits option.splits)
  then show ?thesis using last by auto
qed

lemma nonempty_all: "(\<And>m. m \<in> set w \<Longrightarrow> P m) \<Longrightarrow> (w \<noteq> []) = (\<exists>m \<in> set w. P m)"
  by (cases w) auto

lemma container_warned:
  assumes "render_container cwd config_root (name, VDict sections) = Inr r" "get_val sections ''Container'' = VDict container"
    and "distinct (dkeys container)" "trimmed container"
  shows "container_writable cwd (Some config_root) (VDict sections) = Inr (\<exists>m \<in> set (snd (snd r)). ends_with mount_notice m)"
proof -
  obtain d w1 w2 w3 d1 w4 mode privileged where c: "normalize_directives container (''container.'' @ name @ ''.Container'') = Inr d"
    "mount_warnings cwd config_root (''container.'' @ name) d ''Volume'' = Inr w1" "mount_warnings cwd config_root (''container.'' @ name) d ''Mount'' = Inr w2"
    "podman_warnings cwd config_root (''container.'' @ name) d = Inr w3" "confine name privileged d = Inr (d1, w4, mode)" "snd (snd r) = w1 @ w2 @ w3 @ w4"
    using assms(1,2) by (auto simp: render_container_def Let_def res_simps require_mapping_def)
  have t: "list_all (\<lambda>s. strip s = s) (strings_of (directive_values container k))" if "k \<in> {''Volume'', ''Mount'', ''PodmanArgs''}" for k
    using assms(4) that by (auto simp: trimmed_def)
  note v = directive_warned [OF c(2,1) assms(3) t] and m = directive_warned [OF c(3,1) assms(3) t] and p = podman_warned [OF c(4,1) assms(3) t]
  have "container_writable cwd (Some config_root) (VDict sections) = Inr (w1 \<noteq> [] \<or> w2 \<noteq> [] \<or> w3 \<noteq> [])"
    using assms(2) v(1) m(1) p(1) by (simp add: container_writable_def)
  moreover have "(w1 \<noteq> [] \<or> w2 \<noteq> [] \<or> w3 \<noteq> []) = (\<exists>m \<in> set (w1 @ w2 @ w3). ends_with mount_notice m)"
    using nonempty_all [of w1, OF v(2)] nonempty_all [of w2, OF m(2)] nonempty_all [of w3, OF p(2)] by (simp add: bex_Un)
  moreover have "\<forall>m \<in> set w4. \<not> ends_with mount_notice m" using confine_warnings [OF c(5)] by blast
  ultimately show ?thesis using c(6) by auto
qed

text \<open>Write access and warnings agree. For an accepted container table whose mount values have no surrounding
  blanks, the service is granted write access to the managed bundle files exactly when the operator got
  a warning about such a mount: the two passes over \<^verbatim>\<open>Volume\<close>, \<^verbatim>\<open>Mount\<close> and
  \<^verbatim>\<open>PodmanArgs\<close> classify every mount in the same way, and the second one raises nothing that
  the first has not rejected.\<close>

theorem writable_iff_warned:
  assumes "render_containers cwd table config_root = Inr (files, units, warnings)"
    and "\<forall>e \<in> set table. \<exists>sections container. snd e = VDict sections \<and> get_val sections ''Container'' = VDict container \<and>
           distinct (dkeys container) \<and> trimmed container"
  shows "managed_files_are_writable cwd table (Some config_root) = Inr (\<exists>m \<in> set warnings. ends_with mount_notice m)"
proof -
  obtain rs where rs: "rmap (render_container cwd config_root) table = Inr rs" "warnings = concat (map (\<lambda>r. snd (snd r)) rs)"
    using assms(1) by (auto simp: render_containers_def res_simps split: if_splits)
  have "container_writable cwd (Some config_root) (snd e) = Inr (\<exists>m \<in> set (snd (snd r)). ends_with mount_notice m)"
    if e: "e \<in> set table" "render_container cwd config_root e = Inr r" for e r
  proof -
    obtain name raw where n: "e = (name, raw)" by fastforce
    obtain sections container where s: "raw = VDict sections" "get_val sections ''Container'' = VDict container"
      "distinct (dkeys container)" "trimmed container" using bspec [OF assms(2) e(1)] n by auto
    then show ?thesis using container_warned [OF _ s(2-4), of cwd config_root name r] e(2) n by simp
  qed
  then have "rmap (\<lambda>e. container_writable cwd (Some config_root) (snd e)) table =
      Inr (map (\<lambda>r. \<exists>m \<in> set (snd (snd r)). ends_with mount_notice m) rs)"
    using rs(1) by (auto simp: rmap_eq_Inr list_all2_conv_all_nth)
  then show ?thesis by (auto simp: managed_files_are_writable_def rs(2) list_ex_iff)
qed

theorem writable_iff_warned_witness:
  "managed_files_are_writable ''/'' [(''web'', VDict [(''privileged'', VBool False), (''Container'',
      VDict [(''Image'', VStr ''web:1''), (''Volume'', VStr ''${FILES_DIR}/site:/srv'')])])] (Some ''/data/config'') = Inr True"
proof -
  let ?c = "[(''Image'', VStr ''web:1''), (''Volume'', VStr ''${FILES_DIR}/site:/srv'')]"
  let ?t = "[(''web'', VDict [(''privileged'', VBool False), (''Container'', VDict ?c)])]"
  have "trimmed ?c" by code_simp
  then have t: "\<forall>e \<in> set ?t. \<exists>sections container. snd e = VDict sections \<and> get_val sections ''Container'' = VDict container \<and>
      distinct (dkeys container) \<and> trimmed container" by (simp add: get_or_def)
  have "(case render_containers ''/'' ?t ''/data/config'' of Inr (f, u, [w]) \<Rightarrow> w = ''container.web.Container.Volume[0]'' @ mount_notice | _ \<Rightarrow> False)"
    by code_simp
  then obtain f u w where r: "render_containers ''/'' ?t ''/data/config'' = Inr (f, u, [w])" "w = ''container.web.Container.Volume[0]'' @ mount_notice"
    by (auto split: sum.splits prod.splits list.splits)
  have "ends_with mount_notice w" unfolding r(2) by (rule ends_with_append)
  then show ?thesis using writable_iff_warned [OF r(1) t] by simp
qed

end
