(* ===== verification/Quadlet_Sync.thy ===== *)
theory Quadlet_Sync
  imports Quadlet_Render
begin

text \<open>
  \<^verbatim>\<open>quadlet_sync.py\<close>: copying the rendered units into the rootful and the rootless Quadlet directory, and
  removing the units that are no longer configured.

  A target directory is a dict of unit files beside its manifest of managed files, which is never a unit
  (its suffix is \<^verbatim>\<open>.json\<close>). A file is replaced by renaming a complete temporary copy, so a copy is one
  step. Sets of file names are lists; the order in which Python walks a set is the parameter \<open>iter\<close>.
\<close>

section \<open>Definitions\<close>

record target_dir =
  unit_files :: "string dict"
  managed :: json_file

definition quadlet_suffixes :: "string list" where
  "quadlet_suffixes = [''.build'', ''.container'', ''.image'', ''.kube'', ''.network'', ''.pod'', ''.volume'']"

definition load_runtime_metadata :: "json_file \<Rightarrow> pyval list res" where
  "load_runtime_metadata f = (case f of
     Absent \<Rightarrow> Inl (ProvisionError ''missing runtime metadata'')
   | Unreadable \<Rightarrow> Inl (OSErr ''EACCES'')
   | NotJson \<Rightarrow> Inl (ProvisionError ''invalid runtime metadata'')
   | Json v \<Rightarrow>
       (case v of
          VDict d \<Rightarrow> (case get_val d ''units'' of
              VList us \<Rightarrow> Inr us | _ \<Rightarrow> Inl (ProvisionError ''invalid runtime metadata structure''))
        | _ \<Rightarrow> Inl (ProvisionError ''invalid runtime metadata structure'')))"

text \<open>\<^verbatim>\<open>Path(name).suffix\<close> of a name without a slash: from its last dot, unless that is the first or last character.\<close>

definition path_suffix :: "string \<Rightarrow> string" where
  "path_suffix name =
     (let stem_length = length name - length (takeWhile (\<lambda>c. c \<noteq> CHR ''.'') (rev name)) - 1 in
      if CHR ''.'' \<in> set name \<and> 0 < stem_length \<and> stem_length + 1 < length name then drop stem_length name else [])"

definition validate_runtime_filename :: "string \<Rightarrow> unit res" where
  "validate_runtime_filename filename =
     rguard (filename \<noteq> [] \<and> CHR ''/'' \<notin> set filename \<and> filename \<notin> {''.'', ''..''} \<and> path_suffix filename \<in> set quadlet_suffixes)
       (ProvisionError ''invalid runtime unit filename'')"

fun all_strings :: "pyval list \<Rightarrow> bool" where
  "all_strings [] = True"
| "all_strings (VStr s # vs) = all_strings vs"
| "all_strings (v # vs) = False"

definition load_managed_manifest :: "target_dir \<Rightarrow> string list res" where
  "load_managed_manifest t = (case managed t of
     Absent \<Rightarrow> Inr []
   | Unreadable \<Rightarrow> Inl (OSErr ''EACCES'')
   | NotJson \<Rightarrow> Inl (ProvisionError ''invalid managed quadlet manifest'')
   | Json v \<Rightarrow>
       (case v of
          VList vs \<Rightarrow>
            (if all_strings vs
             then rbind (rmap validate_runtime_filename (remdups (strings_of vs))) (\<lambda>us. Inr (remdups (strings_of vs)))
             else Inl (ProvisionError ''invalid managed quadlet manifest structure''))
        | _ \<Rightarrow> Inl (ProvisionError ''invalid managed quadlet manifest structure'')))"

definition write_managed_manifest :: "string list \<Rightarrow> target_dir \<Rightarrow> target_dir" where
  "write_managed_manifest filenames t = t\<lparr>managed := Json (VList (map VStr (sort (remdups filenames))))\<rparr>"

fun copy_units :: "string dict \<Rightarrow> string list \<Rightarrow> target_dir \<Rightarrow> unit res \<times> target_dir" where
  "copy_units source [] t = (Inr (), t)"
| "copy_units source (f # fs) t = (case dget source f of
     None \<Rightarrow> (Inl (OSErr ''ENOENT''), t)
   | Some content \<Rightarrow> copy_units source fs (t\<lparr>unit_files := dset f content (unit_files t)\<rparr>))"

definition remove_units :: "string list \<Rightarrow> target_dir \<Rightarrow> target_dir" where
  "remove_units fs t = t\<lparr>unit_files := fold dpop fs (unit_files t)\<rparr>"

text \<open>The part of \<^verbatim>\<open>sync_quadlet_units\<close> for one target, written out there for each of the two.\<close>

definition sync_target ::
  "(string list \<Rightarrow> string list) \<Rightarrow> string dict \<Rightarrow> string list \<Rightarrow> target_dir \<Rightarrow> unit res \<times> target_dir" where
  "sync_target iter source desired t = (case load_managed_manifest t of
     Inl e \<Rightarrow> (Inl e, t)
   | Inr existing \<Rightarrow>
       (case copy_units source (iter desired) t of
          (Inl e, t1) \<Rightarrow> (Inl e, t1)
        | (Inr u, t1) \<Rightarrow>
            (Inr (), write_managed_manifest desired (remove_units (iter (filter (\<lambda>f. f \<notin> set desired) existing)) t1))))"

definition unit_entry :: "pyval \<Rightarrow> (string \<times> string) res" where
  "unit_entry v = (case v of
     VDict d \<Rightarrow>
       (case (get_val d ''filename'', get_val d ''mode'') of
          (VStr filename, VStr mode) \<Rightarrow>
            (if mode \<in> {''rootful'', ''rootless''}
             then rbind (validate_runtime_filename filename) (\<lambda>u. Inr (mode, filename))
             else Inl (ProvisionError ''invalid runtime unit metadata''))
        | (VStr filename, VList xs) \<Rightarrow> Inl (PyExc ''TypeError'')
        | (VStr filename, VDict xs) \<Rightarrow> Inl (PyExc ''TypeError'')
        | _ \<Rightarrow> Inl (ProvisionError ''invalid runtime unit metadata''))
   | _ \<Rightarrow> Inl (ProvisionError ''invalid runtime unit entry''))"

definition units_of_mode :: "string \<Rightarrow> (string \<times> string) list \<Rightarrow> string list" where
  "units_of_mode mode us = remdups (map snd (filter (\<lambda>u. fst u = mode) us))"

definition sync_quadlet_units ::
  "(string list \<Rightarrow> string list) \<Rightarrow> json_file \<Rightarrow> string dict \<Rightarrow> target_dir \<Rightarrow> target_dir option \<Rightarrow>
   unit res \<times> target_dir \<times> target_dir option" where
  "sync_quadlet_units iter metadata source rootful_target rootless_target =
     (case rbind (load_runtime_metadata metadata) (rmap unit_entry) of
        Inl e \<Rightarrow> (Inl e, rootful_target, rootless_target)
      | Inr us \<Rightarrow>
          (case sync_target iter source (units_of_mode ''rootful'' us) rootful_target of
             (Inl e, t1) \<Rightarrow> (Inl e, t1, rootless_target)
           | (Inr u, t1) \<Rightarrow>
               (case rootless_target of
                  None \<Rightarrow>
                    (if units_of_mode ''rootless'' us \<noteq> []
                     then (Inl (ProvisionError ''rootless target path is required when rootless units are present''), t1, None)
                     else (Inr (), t1, None))
                | Some t \<Rightarrow>
                    (case sync_target iter source (units_of_mode ''rootless'' us) t of (r, t2) \<Rightarrow> (r, t1, Some t2)))))"

text \<open>The runtime metadata that provisioning writes for the rendered units.\<close>

definition runtime_unit_dict :: "runtime_unit \<Rightarrow> pyval" where
  "runtime_unit_dict u = VDict [(''name'', VStr (ru_name u)), (''filename'', VStr (ru_filename u)),
     (''service'', VStr (ru_service u)), (''mode'', VStr (ru_mode u))]"

definition runtime_metadata :: "runtime_unit list \<Rightarrow> pyval" where
  "runtime_metadata units = VDict [(''app_user'', VStr ''appsvc''), (''rootless_network'', VStr ''pasta''),
     (''units'', VList (map runtime_unit_dict units))]"

section \<open>Theorems\<close>

subsection \<open>One target\<close>

lemma rmap_map: "rmap f (map g xs) = rmap (f \<circ> g) xs"
  by (induction xs) auto

lemma copy_units_ok:
  "\<forall>f \<in> set fs. dget source f \<noteq> None \<Longrightarrow> \<exists>t'. copy_units source fs t = (Inr (), t') \<and> managed t' = managed t \<and>
     (\<forall>f. dget (unit_files t') f = (if f \<in> set fs then dget source f else dget (unit_files t) f))"
proof (induction fs arbitrary: t)
  case (Cons f fs)
  then obtain c where c: "dget source f = Some c" by auto
  obtain t' where "copy_units source fs (t\<lparr>unit_files := dset f c (unit_files t)\<rparr>) = (Inr (), t')" "managed t' = managed t"
    "\<forall>g. dget (unit_files t') g = (if g \<in> set fs then dget source g else dget (dset f c (unit_files t)) g)"
    using Cons.IH [of "t\<lparr>unit_files := dset f c (unit_files t)\<rparr>"] Cons.prems by auto
  then show ?case using c by (intro exI [of _ t']) auto
qed simp

lemma copy_units_Inl: "copy_units source fs t = (Inl e, t') \<Longrightarrow> managed t' = managed t \<and> (\<forall>f. f \<notin> set fs \<longrightarrow> dget (unit_files t') f = dget (unit_files t) f)"
  by (induction fs arbitrary: t) (fastforce split: option.splits if_splits)+

lemma dget_fold_dpop: "dget (fold dpop fs d) f = (if f \<in> set fs then None else dget d f)"
  by (induction fs arbitrary: d) auto

lemma strings_of_VStr [simp]: "strings_of (map VStr ss) = ss" "all_strings (map VStr ss)"
  by (induction ss) auto

lemma manifest_round_trip:
  assumes "\<forall>f \<in> set fs. validate_runtime_filename f = Inr ()"
  shows "\<exists>gs. load_managed_manifest (write_managed_manifest fs t) = Inr gs \<and> set gs = set fs"
proof -
  have "rmap validate_runtime_filename (remdups (sort (remdups fs))) = Inr (map (\<lambda>f. ()) (remdups (sort (remdups fs))))"
    using assms by (intro rmap_total) auto
  then show ?thesis by (simp add: load_managed_manifest_def write_managed_manifest_def)
qed

lemma sync_target_ok:
  assumes "load_managed_manifest t = Inr existing" "\<forall>f \<in> set desired. dget source f \<noteq> None" "\<And>xs. set (iter xs) = set xs"
  shows "\<exists>t'. sync_target iter source desired t = (Inr (), t') \<and> managed t' = managed (write_managed_manifest desired t) \<and>
    (\<forall>f. dget (unit_files t') f =
       (if f \<in> set desired then dget source f else if f \<in> set existing then None else dget (unit_files t) f))"
proof -
  obtain t1 where "copy_units source (iter desired) t = (Inr (), t1)"
    "\<forall>f. dget (unit_files t1) f = (if f \<in> set desired then dget source f else dget (unit_files t) f)"
    using copy_units_ok [of "iter desired" source t] assms(2,3) by auto
  then show ?thesis using assms(1,3)
    by (simp add: sync_target_def write_managed_manifest_def remove_units_def dget_fold_dpop)
qed

subsection \<open>Rendered units\<close>

definition installable :: "string dict \<Rightarrow> runtime_unit \<Rightarrow> bool" where
  "installable files u = (ru_mode u \<in> {''rootful'', ''rootless''} \<and> validate_runtime_filename (ru_filename u) = Inr () \<and>
     ru_filename u \<in> set (dkeys files))"

lemma path_suffix_append:
  assumes "n \<noteq> []" "e \<noteq> []" "CHR ''.'' \<notin> set e"
  shows "path_suffix (n @ CHR ''.'' # e) = CHR ''.'' # e"
proof -
  have "takeWhile (\<lambda>c. c \<noteq> CHR ''.'') (rev e @ CHR ''.'' # rev n) = rev e" using assms(3) by (subst takeWhile_append2) auto
  then show ?thesis using assms(1,2) by (simp add: path_suffix_def Let_def)
qed

lemma unit_filename_valid:
  assumes "validate_name n = Inr m" "sfx \<in> {''build'', ''container'', ''network'', ''volume''}"
  shows "validate_runtime_filename (n @ ''.'' @ sfx) = Inr ()"
proof -
  have n: "n \<noteq> []" "CHR ''/'' \<notin> set n" using assms(1) by (auto simp: validate_name_def Let_def split: if_splits)
  have s: "sfx \<noteq> []" "CHR ''.'' \<notin> set sfx" "CHR ''/'' \<notin> set sfx" "CHR ''.'' # sfx \<in> set quadlet_suffixes"
    using assms(2) by (auto simp: quadlet_suffixes_def)
  have "path_suffix (n @ CHR ''.'' # sfx) = CHR ''.'' # sfx" by (rule path_suffix_append) (use n s in auto)
  moreover have "n @ CHR ''.'' # sfx \<notin> {''.'', ''..''}" using n(1) s(1) by (cases n; cases sfx; auto simp: Cons_eq_append_conv)
  ultimately show ?thesis using n s by (simp add: validate_runtime_filename_def)
qed

lemma containers_installable:
  assumes "render_containers cwd table rt = Inr (files, units, ws)" "u \<in> set units"
  shows "installable files u"
proof -
  obtain rs where rs: "rmap (render_container cwd rt) table = Inr rs" "files = map fst rs" "units = map (\<lambda>r. fst (snd r)) rs"
    using assms(1) by (auto simp: render_containers_def res_simps split: if_splits)
  obtain r where r: "r \<in> set rs" "u = fst (snd r)" using assms(2) rs(3) by auto
  obtain n raw where "render_container cwd rt (n, raw) = Inr r" using rmap_set [OF rs(1) r(1)] by fastforce
  then obtain d priv d1 w mode m where c: "validate_name n = Inr m" "confine n priv d = Inr (d1, w, mode)"
    "fst (fst r) = n @ ''.container''" "u = \<lparr>ru_name = n, ru_filename = n @ ''.container'', ru_service = n @ ''.service'', ru_mode = mode\<rparr>"
    using r(2) by (auto simp: render_container_def Let_def res_simps)
  have "mode \<in> {''rootful'', ''rootless''}"
    using c(2) by (auto simp: confine_def Let_def res_simps split: if_splits option.splits)
  then show ?thesis using c unit_filename_valid [OF c(1), of "''container''"] r(1) rs(2)
    by (force simp: installable_def)
qed

lemma resources_installable:
  assumes "render_resources kind sec rt modes table = Inr (files, units)" "u \<in> set units"
    and "kind \<in> {''build'', ''network'', ''volume''}" "\<And>n. set (modes n) \<subseteq> {''rootful'', ''rootless''}"
  shows "installable files u"
proof -
  obtain rs where rs: "rmap (render_resource kind sec rt modes) table = Inr rs" "files = map fst rs" "units = concat (map snd rs)"
    using assms(1) by (auto simp: render_resources_def res_simps)
  obtain r where r: "r \<in> set rs" "u \<in> set (snd r)" using assms(2) rs(3) by auto
  obtain n raw where "render_resource kind sec rt modes (n, raw) = Inr r" using rmap_set [OF rs(1) r(1)] by fastforce
  then obtain mode m where c: "validate_name n = Inr m" "fst (fst r) = n @ ''.'' @ kind" "mode \<in> set (modes n)"
    "ru_filename u = n @ ''.'' @ kind" "ru_mode u = mode"
    using r(2) by (auto simp: render_resource_def Let_def res_simps)
  then show ?thesis using unit_filename_valid [OF c(1), of kind] assms(3,4) r(1) rs(2)
    by (force simp: installable_def)
qed

lemma map_filter_SomeD: "y \<in> set (List.map_filter f xs) \<Longrightarrow> \<exists>x \<in> set xs. f x = Some y"
  by (auto simp: List.map_filter_def)

lemma inferred_modes:
  assumes "infer_volume_modes ct table = Inr ms \<or> infer_build_modes ct table = Inr ms"
  shows "set (unit_modes ms n) \<subseteq> {''rootful'', ''rootless''}"
proof -
  have "set m \<subseteq> {''rootful'', ''rootless''}" if "(k, m) \<in> set ms" for k m
    using assms that
    by (auto simp: infer_volume_modes_def infer_build_modes_def res_simps Let_def
        split: if_splits pyval.splits option.splits dest!: map_filter_SomeD)
  then show ?thesis by (auto simp: unit_modes_def split: option.splits dest: map_of_SomeD)
qed

lemma shared_units_installable:
  assumes "render_resources kind sec rt (unit_modes ms) table = Inr (files, units)" "u \<in> set units" "kind \<in> {''build'', ''network'', ''volume''}"
    and "infer_volume_modes ct table = Inr ms \<or> infer_build_modes ct table = Inr ms"
  shows "installable files u"
  by (rule resources_installable [OF assms(1-3)]) (rule inferred_modes [OF assms(4)])

lemma installable_mono: "installable files u \<Longrightarrow> set (dkeys files) \<subseteq> set (dkeys files') \<Longrightarrow> installable files' u"
  by (auto simp: installable_def)

lemma units_installable:
  assumes "render_units cwd containers rt = Inr (files, units, ws)" "u \<in> set units"
  shows "installable files u"
proof -
  let ?t = "get_table containers"
  obtain r1 u1 r2 u2 r3 u3 r4 u4 where
    p1: "(if ?t ''container'' = [] then Inr ([], [], []) else render_containers cwd (?t ''container'') rt) = Inr (r1, u1, ws)" and
    p2: "(if ?t ''network'' = [] then Inr ([], []) else render_networks (?t ''network'') rt) = Inr (r2, u2)" and
    p3: "(if ?t ''volume'' = [] then Inr ([], []) else rbind (infer_volume_modes (?t ''container'') (?t ''volume'')) (render_volumes (?t ''volume'') rt)) = Inr (r3, u3)" and
    p4: "(if ?t ''build'' = [] then Inr ([], []) else rbind (infer_build_modes (?t ''container'') (?t ''build'')) (render_builds (?t ''build'') rt)) = Inr (r4, u4)" and
    all: "files = r1 @ r2 @ r3 @ r4" "units = u1 @ u2 @ u3 @ u4"
    using assms(1) by (auto simp: render_units_def Let_def rbind_eq_Inr)
  have "u \<in> set u1 \<Longrightarrow> installable r1 u" using p1 containers_installable by (auto split: if_splits)
  moreover have "u \<in> set u2 \<Longrightarrow> installable r2 u"
    using p2 resources_installable [of "''network''" "''Network''" rt "\<lambda>n. [''rootful'']"] by (auto simp: render_networks_def split: if_splits)
  moreover have "u \<in> set u3 \<Longrightarrow> installable r3 u"
    using p3 by (auto simp: render_volumes_def rbind_eq_Inr split: if_splits intro: shared_units_installable)
  moreover have "u \<in> set u4 \<Longrightarrow> installable r4 u"
    using p4 by (auto simp: render_builds_def rbind_eq_Inr split: if_splits intro: shared_units_installable)
  ultimately show ?thesis using assms(2) all by (auto elim!: installable_mono)
qed

lemma unit_entry_installable: "installable files u \<Longrightarrow> unit_entry (runtime_unit_dict u) = Inr (ru_mode u, ru_filename u)"
  by (auto simp: installable_def unit_entry_def runtime_unit_dict_def get_or_def)

text \<open>C23: Rendering and synchronization fit together. The metadata and unit files that provisioning renders from any
  accepted configuration are accepted by the synchronization, whatever order it walks its sets in:
  afterwards each target directory holds exactly the rendered units of its mode, the units it managed
  before and that are no longer rendered are gone, every other file is as before, and the manifest of
  managed units lists the rendered ones.\<close>

theorem rendered_units_install:
  assumes "render_units cwd containers render_root = Inr (files, units, warnings)" "\<And>xs. set (iter xs) = set xs"
    and "load_managed_manifest t_ful = Inr old_ful" "load_managed_manifest t_less = Inr old_less"
  shows "\<exists>t_ful' t_less'. sync_quadlet_units iter (Json (runtime_metadata units)) files t_ful (Some t_less) = (Inr (), t_ful', Some t_less') \<and>
    (\<forall>(mode, t, t', old) \<in> {(''rootful'', t_ful, t_ful', old_ful), (''rootless'', t_less, t_less', old_less)}.
      (\<forall>f. dget (unit_files t') f =
         (if \<exists>u \<in> set units. ru_filename u = f \<and> ru_mode u = mode then dget files f
          else if f \<in> set old then None else dget (unit_files t) f)) \<and>
      (\<exists>new. load_managed_manifest t' = Inr new \<and> (\<forall>f. f \<in> set new \<longleftrightarrow> (\<exists>u \<in> set units. ru_filename u = f \<and> ru_mode u = mode)))) \<and>
    (\<forall>u \<in> set units. dget files (ru_filename u) \<noteq> None)"
proof -
  let ?us = "map (\<lambda>u. (ru_mode u, ru_filename u)) units" and ?d = "\<lambda>mode. units_of_mode mode (map (\<lambda>u. (ru_mode u, ru_filename u)) units)"
  note inst = units_installable [OF assms(1)]
  have "rmap (\<lambda>u. unit_entry (runtime_unit_dict u)) units = Inr ?us" by (intro rmap_total unit_entry_installable [of files] inst)
  then have load: "rbind (load_runtime_metadata (Json (runtime_metadata units))) (rmap unit_entry) = Inr ?us"
    by (simp add: load_runtime_metadata_def runtime_metadata_def get_or_def rmap_map o_def)
  have d: "f \<in> set (?d mode) \<longleftrightarrow> (\<exists>u \<in> set units. ru_filename u = f \<and> ru_mode u = mode)" for f mode
    by (force simp: units_of_mode_def)
  have src: "\<forall>u \<in> set units. dget files (ru_filename u) \<noteq> None" using inst by (auto simp: installable_def map_of_eq_None_iff)
  have valid: "\<forall>f \<in> set (?d mode). validate_runtime_filename f = Inr ()" for mode using inst by (auto simp: installable_def d)
  have one: "\<exists>t'. sync_target iter files (?d mode) t = (Inr (), t') \<and>
      (\<forall>f. dget (unit_files t') f = (if f \<in> set (?d mode) then dget files f else if f \<in> set old then None else dget (unit_files t) f)) \<and>
      (\<exists>new. load_managed_manifest t' = Inr new \<and> set new = set (?d mode))" if "load_managed_manifest t = Inr old" for mode t old
  proof -
    have "\<forall>f \<in> set (?d mode). dget files f \<noteq> None" using src by (auto simp: d)
    from sync_target_ok [OF that this assms(2)] obtain t' where t': "sync_target iter files (?d mode) t = (Inr (), t')"
      "managed t' = managed (write_managed_manifest (?d mode) t)"
      "\<forall>f. dget (unit_files t') f = (if f \<in> set (?d mode) then dget files f else if f \<in> set old then None else dget (unit_files t) f)" by blast
    have "load_managed_manifest t' = load_managed_manifest (write_managed_manifest (?d mode) t)"
      by (simp add: load_managed_manifest_def t'(2))
    then show ?thesis using t'(1,3) manifest_round_trip [OF valid, of mode t] by auto
  qed
  obtain t1 new1 where t1: "sync_target iter files (?d ''rootful'') t_ful = (Inr (), t1)"
    "\<forall>f. dget (unit_files t1) f = (if f \<in> set (?d ''rootful'') then dget files f else if f \<in> set old_ful then None else dget (unit_files t_ful) f)"
    "load_managed_manifest t1 = Inr new1" "set new1 = set (?d ''rootful'')" using one [OF assms(3), of "''rootful''"] by blast
  obtain t2 new2 where t2: "sync_target iter files (?d ''rootless'') t_less = (Inr (), t2)"
    "\<forall>f. dget (unit_files t2) f = (if f \<in> set (?d ''rootless'') then dget files f else if f \<in> set old_less then None else dget (unit_files t_less) f)"
    "load_managed_manifest t2 = Inr new2" "set new2 = set (?d ''rootless'')" using one [OF assms(4), of "''rootless''"] by blast
  have "sync_quadlet_units iter (Json (runtime_metadata units)) files t_ful (Some t_less) = (Inr (), t1, Some t2)"
    unfolding sync_quadlet_units_def load using t1(1) t2(1) by simp
  then show ?thesis using t1(2-4) t2(2-4) src by (intro exI [of _ t1] exI [of _ t2]) (simp add: d)
qed

theorem rendered_units_install_witness:
  "\<exists>files units warnings t1 t2. render_units ''/'' [(''container'', VDict [(''web'', VDict sample_sections)])] ''/data/config'' = Inr (files, units, warnings) \<and>
     sync_quadlet_units rev (Json (runtime_metadata units)) files \<lparr>unit_files = [], managed = Absent\<rparr>
       (Some \<lparr>unit_files = [(''old.container'', ''x'')], managed = Json (VList [VStr ''old.container''])\<rparr>) = (Inr (), t1, Some t2) \<and>
     dget (unit_files t2) ''web.container'' \<noteq> None \<and> dget (unit_files t2) ''old.container'' = None"
proof -
  let ?c = "[(''container'', VDict [(''web'', VDict sample_sections)])]"
  have "(case render_units ''/'' ?c ''/data/config'' of
      Inr (f, [u], w) \<Rightarrow> ru_filename u = ''web.container'' \<and> ru_mode u = ''rootless'' | _ \<Rightarrow> False)" by code_simp
  then obtain f u w where r: "render_units ''/'' ?c ''/data/config'' = Inr (f, [u], w)" "ru_filename u = ''web.container''" "ru_mode u = ''rootless''"
    by (auto split: sum.splits prod.splits list.splits)
  let ?t = "\<lparr>unit_files = [], managed = Absent\<rparr>" and
    ?l = "\<lparr>unit_files = [(''old.container'', ''x'')], managed = Json (VList [VStr ''old.container''])\<rparr>"
  have m: "load_managed_manifest ?t = Inr []" "load_managed_manifest ?l = Inr [''old.container'']" by code_simp+
  from rendered_units_install [OF r(1) set_rev m] r show ?thesis by force
qed

end
