(* ===== verification/Activation.thy ===== *)
theory Activation
  imports Config_Sections
begin

text \<open>
  \<^verbatim>\<open>activation.py\<close>: the activation policy of a configuration root and the activation sequence (hook,
  restarts, settling, service status, health checks).

  The world outside is \<open>act_env\<close>: the activation hook, the user of the rootless services, the clock and the
  outcome of every command. Clock and outcomes depend on the number of calls made before, which
  \<open>act_state\<close> counts beside the log of the commands run, so they may change arbitrarily over time. The
  runtime metadata is a list of dicts of strings, as its annotation says: a field that is no string is
  read as absent. Progress reports are not modelled.
\<close>

section \<open>Definitions\<close>

subsection \<open>The world\<close>

datatype cmd_result = Exited int string | Timed_Out | Not_Found

record act_env =
  hook_command :: "string option"
  hook_is_file :: bool
  app_uid :: "int option"
  monotonic :: "nat \<Rightarrow> real"
  run_command :: "nat \<Rightarrow> string list \<Rightarrow> real \<Rightarrow> cmd_result"

record act_state =
  calls :: nat
  ran :: "(string list \<times> cmd_result) list"

definition read_clock :: "act_env \<Rightarrow> act_state \<Rightarrow> real \<times> act_state" where
  "read_clock env st = (monotonic env (calls st), st\<lparr>calls := Suc (calls st)\<rparr>)"

definition exec_cmd :: "act_env \<Rightarrow> string list \<Rightarrow> real \<Rightarrow> act_state \<Rightarrow> cmd_result \<times> act_state" where
  "exec_cmd env cmd timeout st =
     (let r = run_command env (calls st) cmd timeout in (r, st\<lparr>calls := Suc (calls st), ran := ran st @ [(cmd, r)]\<rparr>))"

subsection \<open>Runtime metadata\<close>

fun string_fields :: "pyval dict \<Rightarrow> string dict" where
  "string_fields [] = []"
| "string_fields ((k, v) # d) = (case v of VStr s \<Rightarrow> (k, s) # string_fields d | _ \<Rightarrow> string_fields d)"

fun dict_items :: "pyval list \<Rightarrow> string dict list" where
  "dict_items [] = []"
| "dict_items (VDict d # vs) = string_fields d # dict_items vs"
| "dict_items (v # vs) = dict_items vs"

definition load_runtime_units :: "json_file \<Rightarrow> string dict list res" where
  "load_runtime_units f = (case f of
     Json v \<Rightarrow>
       (case v of
          VDict d \<Rightarrow>
            (case get_or (VList []) d ''units'' of
               VList us \<Rightarrow> Inr (dict_items us)
             | VDict e \<Rightarrow> Inr []
             | VStr s \<Rightarrow> Inr []
             | _ \<Rightarrow> Inl (PyExc ''TypeError''))
        | _ \<Rightarrow> Inl (PyExc ''AttributeError''))
   | _ \<Rightarrow> Inr [])"

definition field_or :: "string \<Rightarrow> string dict \<Rightarrow> string \<Rightarrow> string" where
  "field_or dflt d k = (case dget d k of None \<Rightarrow> dflt | Some s \<Rightarrow> s)"

definition unit_mode_dict :: "string dict list \<Rightarrow> string dict" where
  "unit_mode_dict us = fold (\<lambda>u d. dset (field_or [] u ''service'') (field_or ''rootful'' u ''mode'') d) us []"

definition load_runtime_unit_modes :: "json_file \<Rightarrow> string dict res" where
  "load_runtime_unit_modes f = rbind (load_runtime_units f) (\<lambda>us. Inr (unit_mode_dict us))"

subsection \<open>The policy of a root\<close>

record root_files =
  policy_file :: json_file
  health_file :: json_file
  metadata_file :: json_file

definition service_name :: "string \<Rightarrow> string" where
  "service_name unit = (if ends_with ''.service'' unit then unit else unit @ ''.service'')"

definition default_activation_policy :: "pyval dict" where
  "default_activation_policy = [(''required'', VList []), (''timeout_seconds'', VInt 300), (''settle_seconds'', VInt 0),
     (''restart'', VList []), (''allow_degraded'', VList []), (''strategy'', VStr ''rollback'')]"

definition policy_error :: "string \<Rightarrow> error" where
  "policy_error s = ActivationPolicyError (''activation policy '' @ s)"

definition check_policy_entry :: "string list \<Rightarrow> bool \<Rightarrow> string \<Rightarrow> pyval \<Rightarrow> unit res" where
  "check_policy_entry services strict key v = (case v of
     VStr s \<Rightarrow> rguard (strict \<longrightarrow> service_name s \<in> set services) (policy_error (key @ '' references unknown provisioned service: '' @ s))
   | _ \<Rightarrow> Inl (policy_error (key @ '' entries must be strings'')))"

definition check_policy_list :: "string list \<Rightarrow> bool \<Rightarrow> pyval dict \<Rightarrow> string \<Rightarrow> unit res" where
  "check_policy_list services strict policy key = (case get_or (VList []) policy key of
     VList vs \<Rightarrow> rbind (rmap (check_policy_entry services strict key) vs) (\<lambda>us. Inr ())
   | _ \<Rightarrow> Inl (policy_error (key @ '' must be a list'')))"

definition policy_int :: "pyval \<Rightarrow> string \<Rightarrow> int res" where
  "policy_int v key = (case v of VInt i \<Rightarrow> Inr i | _ \<Rightarrow> Inl (policy_error (key @ '' must be an integer'')))"

definition validate_runtime_activation_policy :: "root_files \<Rightarrow> pyval dict \<Rightarrow> bool \<Rightarrow> unit res" where
  "validate_runtime_activation_policy files policy strict =
     rbind (load_runtime_units (metadata_file files)) (\<lambda>us.
     (let services = map (\<lambda>u. field_or [] u ''service'') us in
      rbind (check_policy_list services strict policy ''required'') (\<lambda>u1.
      rbind (check_policy_list services strict policy ''restart'') (\<lambda>u2.
      rbind (check_policy_list services strict policy ''allow_degraded'') (\<lambda>u3.
      rbind (policy_int (get_or (VInt 300) policy ''timeout_seconds'') ''timeout_seconds'') (\<lambda>timeout.
      rbind (policy_int (get_or (VInt 0) policy ''settle_seconds'') ''settle_seconds'') (\<lambda>settle.
      rbind (rguard (1 \<le> timeout \<and> timeout \<le> 3600) (policy_error ''timeout_seconds must be in range 1..3600'')) (\<lambda>u4.
      rbind (rguard (0 \<le> settle \<and> settle \<le> 300) (policy_error ''settle_seconds must be in range 0..300'')) (\<lambda>u5.
      rbind (rguard (get_or (VStr ''rollback'') policy ''strategy'' = VStr ''rollback'') (policy_error ''strategy must be rollback'')) (\<lambda>u6.
      case dget policy ''allow_degraded_configured'' of
        None \<Rightarrow> Inr ()
      | Some v \<Rightarrow> rguard (\<exists>b \<in> {True, False}. v = VBool b) (policy_error ''allow_degraded_configured must be a boolean'')))))))))))"

definition dict_update :: "pyval dict \<Rightarrow> pyval dict \<Rightarrow> pyval dict" where
  "dict_update d e = fold (\<lambda>(k, v) d. dset k v d) e d"

text \<open>\<^verbatim>\<open>activation.load_activation_policy\<close>: the policy file, or else the legacy list of required units.\<close>

definition load_root_activation_policy :: "root_files \<Rightarrow> pyval dict res" where
  "load_root_activation_policy files = (case policy_file files of
     Absent \<Rightarrow>
       (let checked = (\<lambda>p. rbind (validate_runtime_activation_policy files (dset ''strict_units'' (VBool False) p) False)
                             (\<lambda>u. Inr (dset ''strict_units'' (VBool False) p))) in
        case health_file files of
          Absent \<Rightarrow> checked default_activation_policy
        | Json (VList vs) \<Rightarrow>
            checked (dset ''required'' (VList (filter (\<lambda>v. case v of VStr s \<Rightarrow> True | _ \<Rightarrow> False) vs)) default_activation_policy)
        | Json v \<Rightarrow> checked default_activation_policy
        | _ \<Rightarrow> Inr default_activation_policy)
   | Json v \<Rightarrow>
       (case v of
          VDict raw \<Rightarrow>
            (let policy = dset ''strict_units'' (VBool True) (dict_update default_activation_policy raw) in
             rbind (validate_runtime_activation_policy files policy True) (\<lambda>u. Inr policy))
        | _ \<Rightarrow> Inl (policy_error ''must be an object''))
   | _ \<Rightarrow> Inl (ActivationPolicyError ''invalid activation policy''))"

subsection \<open>Commands\<close>

definition remaining_timeout :: "act_env \<Rightarrow> real \<Rightarrow> act_state \<Rightarrow> real \<times> act_state" where
  "remaining_timeout env deadline st = (case read_clock env st of (now, st1) \<Rightarrow> (max 0 (deadline - now), st1))"

definition command_timeout :: "act_env \<Rightarrow> real option \<Rightarrow> act_state \<Rightarrow> real \<times> act_state" where
  "command_timeout env deadline st = (case deadline of
     None \<Rightarrow> (10, st)
   | Some d \<Rightarrow> (case remaining_timeout env d st of (r, st1) \<Rightarrow> (max (1 / 1000) (min 10 r), st1)))"

definition string_of_uid :: "int \<Rightarrow> string" where
  "string_of_uid uid = ''/run/user/'' @ string_of_int uid"

definition rootless_command :: "int \<Rightarrow> string list \<Rightarrow> string list" where
  "rootless_command uid args = [''runuser'', ''-u'', ''appsvc'', ''--'', ''env'', ''HOME=/var/lib/appsvc'',
     ''XDG_RUNTIME_DIR='' @ string_of_uid uid, ''DBUS_SESSION_BUS_ADDRESS=unix:path='' @ string_of_uid uid @ ''/bus'',
     ''systemctl'', ''--user''] @ args"

text \<open>\<^verbatim>\<open>_check_service\<close>, \<^verbatim>\<open>_restart_service\<close> and their rootless variants: the arguments differ only.\<close>

definition rootless_service :: "act_env \<Rightarrow> string list \<Rightarrow> real option \<Rightarrow> act_state \<Rightarrow> cmd_result \<times> act_state" where
  "rootless_service env args deadline st = (case app_uid env of
     None \<Rightarrow> (Exited 1 [], st)
   | Some uid \<Rightarrow> (case command_timeout env deadline st of (t, st1) \<Rightarrow> exec_cmd env (rootless_command uid args) t st1))"

definition service_call :: "act_env \<Rightarrow> string list \<Rightarrow> string \<Rightarrow> real option \<Rightarrow> act_state \<Rightarrow> cmd_result \<times> act_state" where
  "service_call env args mode deadline st =
     (if mode = ''rootless'' then rootless_service env args deadline st
      else (case command_timeout env deadline st of (t, st1) \<Rightarrow> exec_cmd env (''systemctl'' # args) t st1))"

definition check_service :: "act_env \<Rightarrow> string \<Rightarrow> string \<Rightarrow> real option \<Rightarrow> act_state \<Rightarrow> cmd_result \<times> act_state" where
  "check_service env service mode deadline st = service_call env [''is-active'', ''--quiet'', service] mode deadline st"

definition restart_service :: "act_env \<Rightarrow> string \<Rightarrow> string \<Rightarrow> real option \<Rightarrow> act_state \<Rightarrow> cmd_result \<times> act_state" where
  "restart_service env service mode deadline st = service_call env [''restart'', service] mode deadline st"

definition exited_ok :: "cmd_result \<Rightarrow> bool" where
  "exited_ok r = (case r of Exited n out \<Rightarrow> n = 0 | _ \<Rightarrow> False)"

definition activate_services :: "act_env \<Rightarrow> int \<Rightarrow> act_state \<Rightarrow> string list \<times> act_state" where
  "activate_services env timeout st = (case hook_command env of
     None \<Rightarrow> ([], st)
   | Some command \<Rightarrow>
       (if command = [] then ([], st)
        else if \<not> starts_with ''/'' command then ([''activation command must be an absolute path, got: '' @ command], st)
        else if \<not> hook_is_file env then ([''activation command not found: '' @ command], st)
        else (case exec_cmd env [command] (of_int timeout) st of
          (Exited n err, st1) \<Rightarrow>
            (if n = 0 then [] else [''activation script failed (exit '' @ string_of_int n @ ''): '' @ take 200 (strip err)], st1)
        | (Timed_Out, st1) \<Rightarrow> ([''activation script timed out after '' @ string_of_int timeout @ ''s''], st1)
        | (Not_Found, st1) \<Rightarrow> ([''activation script not found''], st1))))"

definition deadline_passed :: "act_env \<Rightarrow> real option \<Rightarrow> act_state \<Rightarrow> bool \<times> act_state" where
  "deadline_passed env deadline st = (case deadline of
     None \<Rightarrow> (False, st) | Some d \<Rightarrow> (case remaining_timeout env d st of (r, st1) \<Rightarrow> (r \<le> 0, st1)))"

fun restart_loop :: "act_env \<Rightarrow> string dict \<Rightarrow> real option \<Rightarrow> pyval list \<Rightarrow> act_state \<Rightarrow> string list \<times> act_state" where
  "restart_loop env modes deadline [] st = ([], st)"
| "restart_loop env modes deadline (v # vs) st =
     (case deadline_passed env deadline st of (late, st1) \<Rightarrow>
        if late then ([''activation restart timed out''], st1)
        else (case v of
          VStr unit \<Rightarrow>
            (case dget modes (service_name unit) of
               None \<Rightarrow> (case restart_loop env modes deadline vs st1 of (fs, st2) \<Rightarrow> (service_name unit # fs, st2))
             | Some mode \<Rightarrow>
                 (case restart_service env (service_name unit) mode deadline st1 of (r, st2) \<Rightarrow>
                    case restart_loop env modes deadline vs st2 of (fs, st3) \<Rightarrow>
                      (if exited_ok r then fs else service_name unit # fs, st3)))
        | _ \<Rightarrow> restart_loop env modes deadline vs st1))"

definition policy_list :: "pyval dict \<Rightarrow> string \<Rightarrow> pyval list" where
  "policy_list policy key = (case get_or (VList []) policy key of VList vs \<Rightarrow> vs | _ \<Rightarrow> [])"

definition restart_activation_services ::
  "act_env \<Rightarrow> root_files \<Rightarrow> pyval dict \<Rightarrow> real option \<Rightarrow> act_state \<Rightarrow> string list res \<times> act_state" where
  "restart_activation_services env files policy deadline st =
     (if policy_list policy ''restart'' = [] then (Inr [], st)
      else case load_runtime_unit_modes (metadata_file files) of
        Inl e \<Rightarrow> (Inl e, st)
      | Inr modes \<Rightarrow> (case restart_loop env modes deadline (policy_list policy ''restart'') st of (fs, st1) \<Rightarrow> (Inr fs, st1)))"

fun check_loop :: "act_env \<Rightarrow> bool \<Rightarrow> string dict \<Rightarrow> real option \<Rightarrow> pyval list \<Rightarrow> act_state \<Rightarrow> string list \<times> act_state" where
  "check_loop env strict modes deadline [] st = ([], st)"
| "check_loop env strict modes deadline (v # vs) st =
     (case deadline_passed env deadline st of (late, st1) \<Rightarrow>
        if late then ([''activation health checks timed out''], st1)
        else (case v of
          VStr unit \<Rightarrow>
            (if strict \<and> \<not> has_key modes (service_name unit)
             then (case check_loop env strict modes deadline vs st1 of (fs, st2) \<Rightarrow> (service_name unit # fs, st2))
             else (case check_service env (service_name unit) (field_or ''rootful'' modes (service_name unit)) deadline st1 of (r, st2) \<Rightarrow>
                     case check_loop env strict modes deadline vs st2 of (fs, st3) \<Rightarrow>
                       (if exited_ok r then fs else service_name unit # fs, st3)))
        | _ \<Rightarrow> check_loop env strict modes deadline vs st1))"

definition check_required_services ::
  "act_env \<Rightarrow> root_files \<Rightarrow> pyval dict \<Rightarrow> real option \<Rightarrow> act_state \<Rightarrow> string list res \<times> act_state" where
  "check_required_services env files policy deadline st =
     (if policy_list policy ''required'' = [] then (Inr [], st)
      else case load_runtime_unit_modes (metadata_file files) of
        Inl e \<Rightarrow> (Inl e, st)
      | Inr modes \<Rightarrow>
          (case check_loop env (py_truthy (get_or (VBool False) policy ''strict_units'')) modes deadline (policy_list policy ''required'') st of
             (fs, st1) \<Rightarrow> (Inr fs, st1)))"

fun report_loop :: "act_env \<Rightarrow> real option \<Rightarrow> string dict list \<Rightarrow> string dict \<Rightarrow> act_state \<Rightarrow> string dict \<times> act_state" where
  "report_loop env deadline [] statuses st = (statuses, st)"
| "report_loop env deadline (u # us) statuses st =
     (let service = field_or [] u ''service'' in
      if service = [] then report_loop env deadline us statuses st
      else (case check_service env service (field_or ''rootful'' u ''mode'') deadline st of (r, st1) \<Rightarrow>
        report_loop env deadline us
          (dset service (case r of Exited n out \<Rightarrow> if n = 0 then ''running'' else ''failed'' | _ \<Rightarrow> ''unknown'') statuses) st1))"

definition report_runtime_services ::
  "act_env \<Rightarrow> root_files \<Rightarrow> real option \<Rightarrow> act_state \<Rightarrow> string dict res \<times> act_state" where
  "report_runtime_services env files deadline st = (case load_runtime_units (metadata_file files) of
     Inl e \<Rightarrow> (Inl e, st)
   | Inr us \<Rightarrow> (case report_loop env deadline us [] st of (statuses, st1) \<Rightarrow> (Inr statuses, st1)))"

fun service_names :: "pyval list \<Rightarrow> string list" where
  "service_names [] = []"
| "service_names (VStr s # vs) = service_name s # service_names vs"
| "service_names (v # vs) = service_names vs"

definition degraded_service_failures :: "pyval dict \<Rightarrow> string dict \<Rightarrow> string list" where
  "degraded_service_failures policy statuses =
     (if \<not> py_truthy (get_or (VBool False) policy ''strict_units'') \<or> \<not> py_truthy (get_or (VBool False) policy ''allow_degraded_configured'')
      then []
      else (let required = service_names (policy_list policy ''required''); allowed = service_names (policy_list policy ''allow_degraded'') in
        map fst (filter (\<lambda>e. snd e \<noteq> ''running'' \<and> fst e \<notin> set required \<and> fst e \<notin> set allowed) statuses)))"

subsection \<open>The activation sequence\<close>

definition int_field :: "pyval dict \<Rightarrow> string \<Rightarrow> int \<Rightarrow> int" where
  "int_field policy key dflt = (case get_or (VInt dflt) policy key of VInt i \<Rightarrow> i | _ \<Rightarrow> dflt)"

text \<open>Settling: whether the time is left to wait; the wait itself only lets the clock go on.\<close>

definition settle_wait :: "act_env \<Rightarrow> int \<Rightarrow> real \<Rightarrow> act_state \<Rightarrow> bool \<times> act_state" where
  "settle_wait env settle deadline st =
     (if settle = 0 then (True, st)
      else (case remaining_timeout env deadline st of (r, st1) \<Rightarrow> (of_int settle \<le> r, st1)))"

definition health_phase :: "act_env \<Rightarrow> root_files \<Rightarrow> pyval dict \<Rightarrow> real \<Rightarrow> act_state \<Rightarrow> string list res \<times> act_state" where
  "health_phase env files policy deadline st =
     (case settle_wait env (int_field policy ''settle_seconds'' 0) deadline st of (settled, st1) \<Rightarrow>
        if \<not> settled then (Inr [''activation timed out before health checks''], st1)
        else (case report_runtime_services env files (Some deadline) st1 of
          (Inl e, st2) \<Rightarrow> (Inl e, st2)
        | (Inr statuses, st2) \<Rightarrow>
            (case check_required_services env files policy (Some deadline) st2 of
               (Inl e, st3) \<Rightarrow> (Inl e, st3)
             | (Inr fs, st3) \<Rightarrow> (Inr (degraded_service_failures policy statuses @ fs), st3))))"

definition run_activation_sequence :: "act_env \<Rightarrow> root_files \<Rightarrow> act_state \<Rightarrow> string list res \<times> act_state" where
  "run_activation_sequence env files st = (case load_root_activation_policy files of
     Inl e \<Rightarrow> (Inl e, st)
   | Inr policy \<Rightarrow>
       (let timeout = int_field policy ''timeout_seconds'' 300 in
        case read_clock env st of (now, st1) \<Rightarrow>
        case activate_services env timeout st1 of (hook_failures, st2) \<Rightarrow>
          if hook_failures \<noteq> [] then (Inr hook_failures, st2)
          else (case restart_activation_services env files policy (Some (now + of_int timeout)) st2 of
            (Inl e, st3) \<Rightarrow> (Inl e, st3)
          | (Inr restart_failures, st3) \<Rightarrow>
              (if restart_failures \<noteq> [] then (Inr restart_failures, st3)
               else health_phase env files policy (now + of_int timeout) st3))))"

section \<open>Theorems\<close>

subsection \<open>Accepted policies\<close>

lemma policy_list_strings:
  assumes "check_policy_list services strict policy key = Inr u"
  shows "\<exists>ss. get_or (VList []) policy key = VList (map VStr ss) \<and> (strict \<longrightarrow> (\<forall>s \<in> set ss. service_name s \<in> set services))"
proof -
  obtain vs us where vs: "get_or (VList []) policy key = VList vs" "rmap (check_policy_entry services strict key) vs = Inr us"
    using assms by (auto simp: check_policy_list_def res_simps split: pyval.splits)
  have entry: "\<exists>s. v = VStr s \<and> (strict \<longrightarrow> service_name s \<in> set services)" if "check_policy_entry services strict key v = Inr w" for v w
    using that by (cases v) (auto simp: check_policy_entry_def res_simps)
  have "\<exists>ss. vs = map VStr ss \<and> (strict \<longrightarrow> (\<forall>s \<in> set ss. service_name s \<in> set services))"
    using vs(2)
  proof (induction vs arbitrary: us)
    case (Cons v vs)
    then obtain s ss where "v = VStr s" "strict \<longrightarrow> service_name s \<in> set services" "vs = map VStr ss"
      "strict \<longrightarrow> (\<forall>s \<in> set ss. service_name s \<in> set services)" using entry by (fastforce simp: res_simps)
    then show ?case by (intro exI [of _ "s # ss"]) auto
  qed simp
  then show ?thesis using vs(1) by simp
qed

definition policy_typed :: "string list \<Rightarrow> pyval dict \<Rightarrow> bool" where
  "policy_typed services policy =
     ((\<forall>key \<in> {''required'', ''restart'', ''allow_degraded''}. \<exists>ss. get_or (VList []) policy key = VList (map VStr ss) \<and>
        (get_or (VBool False) policy ''strict_units'' = VBool True \<longrightarrow> (\<forall>s \<in> set ss. service_name s \<in> set services))) \<and>
      (\<exists>t. get_or (VInt 300) policy ''timeout_seconds'' = VInt t \<and> 1 \<le> t \<and> t \<le> 3600) \<and>
      (\<exists>s. get_or (VInt 0) policy ''settle_seconds'' = VInt s \<and> 0 \<le> s \<and> s \<le> 300) \<and>
      get_or (VStr ''rollback'') policy ''strategy'' = VStr ''rollback'' \<and>
      (\<exists>b. get_or (VBool False) policy ''allow_degraded_configured'' = VBool b))"

lemma policy_int_Inr: "policy_int v key = Inr i \<longleftrightarrow> v = VInt i"
  by (cases v) (auto simp: policy_int_def)

lemma validated_policy:
  assumes "validate_runtime_activation_policy files policy strict = Inr u" "load_runtime_units (metadata_file files) = Inr us"
    and "get_or (VBool False) policy ''strict_units'' = VBool strict"
  shows "policy_typed (map (\<lambda>u. field_or [] u ''service'') us) policy"
proof -
  let ?s = "map (\<lambda>u. field_or [] u ''service'') us"
  have lists: "check_policy_list ?s strict policy ''required'' = Inr ()" "check_policy_list ?s strict policy ''restart'' = Inr ()"
    "check_policy_list ?s strict policy ''allow_degraded'' = Inr ()"
    using assms(1,2) by (auto simp: validate_runtime_activation_policy_def res_simps Let_def)
  have ints: "\<exists>t. get_or (VInt 300) policy ''timeout_seconds'' = VInt t \<and> 1 \<le> t \<and> t \<le> 3600"
    "\<exists>s. get_or (VInt 0) policy ''settle_seconds'' = VInt s \<and> 0 \<le> s \<and> s \<le> 300" "get_or (VStr ''rollback'') policy ''strategy'' = VStr ''rollback''"
    using assms(1,2) by (auto simp: validate_runtime_activation_policy_def res_simps Let_def policy_int_Inr)
  have conf: "\<exists>b. get_or (VBool False) policy ''allow_degraded_configured'' = VBool b"
    using assms(1,2) by (auto simp: validate_runtime_activation_policy_def res_simps Let_def get_or_def split: option.splits)
  show ?thesis using policy_list_strings [OF lists(1)] policy_list_strings [OF lists(2)] policy_list_strings [OF lists(3)] ints conf assms(3)
    unfolding policy_typed_def by simp
qed

lemma dget_fold_dset: "dget (fold (\<lambda>(k, v) d. dset k v d) e d) k = (case dget (rev e) k of None \<Rightarrow> dget d k | Some v \<Rightarrow> Some v)"
  by (induction e arbitrary: d) (auto simp: map_add_def split: option.splits prod.splits)

lemma loaded_policy_ok:
  assumes "load_root_activation_policy files = Inr policy" "load_runtime_units (metadata_file files) = Inr us"
  shows "policy_typed (map (\<lambda>u. field_or [] u ''service'') us) policy"
proof -
  have default: "policy_typed services default_activation_policy" for services
    by (auto simp: policy_typed_def default_activation_policy_def get_or_def)
  have "(\<exists>strict. validate_runtime_activation_policy files policy strict = Inr () \<and> get_or (VBool False) policy ''strict_units'' = VBool strict) \<or>
      policy = default_activation_policy"
    using assms(1) by (auto simp: load_root_activation_policy_def res_simps Let_def get_or_def split: json_file.splits pyval.splits)
  then show ?thesis using validated_policy assms(2) default by blast
qed

text \<open>C40: Every policy that the activation loads is well typed, from whichever file it comes: its three unit lists are
  lists of strings, the timeouts are integers within their ranges, the strategy is rollback, and in the
  strict case every unit it names is a service of the runtime metadata.\<close>

theorem loaded_policy_typed:
  assumes "load_root_activation_policy files = Inr policy" "load_runtime_units (metadata_file files) = Inr us"
  shows "policy_typed (map (\<lambda>u. field_or [] u ''service'') us) policy"
  by (rule loaded_policy_ok [OF assms])

theorem loaded_policy_typed_witness:
  "\<exists>policy. load_root_activation_policy \<lparr>policy_file = Json (VDict [(''required'', VList [VStr ''web''])]), health_file = Absent,
       metadata_file = Json (VDict [(''units'', VList [VDict [(''service'', VStr ''web.service'')]])])\<rparr> = Inr policy \<and>
     policy_typed [''web.service''] policy"
proof -
  let ?f = "\<lparr>policy_file = Json (VDict [(''required'', VList [VStr ''web''])]), health_file = Absent,
       metadata_file = Json (VDict [(''units'', VList [VDict [(''service'', VStr ''web.service'')]])])\<rparr>"
  have "\<not> isl (load_root_activation_policy ?f)" by code_simp
  then obtain p where p: "load_root_activation_policy ?f = Inr p" by (cases "load_root_activation_policy ?f") auto
  have us: "load_runtime_units (metadata_file ?f) = Inr [[(''service'', ''web.service'')]]" by code_simp
  show ?thesis using loaded_policy_typed [OF p us] p by (simp add: field_or_def)
qed

subsection \<open>What a successful activation has done\<close>

definition service_cmd :: "act_env \<Rightarrow> string list \<Rightarrow> string \<Rightarrow> string list" where
  "service_cmd env args mode = (if mode = ''rootless'' then rootless_command (the (app_uid env)) args else ''systemctl'' # args)"

text \<open>One successful command per unit, in order.\<close>

definition all_done :: "act_env \<Rightarrow> string list \<Rightarrow> string dict \<Rightarrow> pyval list \<Rightarrow> (string list \<times> cmd_result) list \<Rightarrow> bool" where
  "all_done env verb modes vs l = list_all2 (\<lambda>v e. \<exists>unit. v = VStr unit \<and> exited_ok (snd e) \<and>
     fst e = service_cmd env (verb @ [service_name unit]) (field_or ''rootful'' modes (service_name unit))) vs l"

lemma exited_ok_simps [simp]: "exited_ok (Exited n out) = (n = 0)" "\<not> exited_ok Timed_Out" "\<not> exited_ok Not_Found"
  by (simp_all add: exited_ok_def)

lemma clock_keeps_log [simp]:
  "ran (snd (read_clock env st)) = ran st" "ran (snd (remaining_timeout env d st)) = ran st"
  "ran (snd (command_timeout env dl st)) = ran st" "ran (snd (deadline_passed env dl st)) = ran st"
  "ran (snd (settle_wait env n d st)) = ran st"
  by (auto simp: read_clock_def remaining_timeout_def command_timeout_def deadline_passed_def settle_wait_def
      split: option.splits prod.splits)

lemma clock_log: "read_clock env st = (a, st') \<Longrightarrow> ran st' = ran st" "deadline_passed env dl st = (b, st') \<Longrightarrow> ran st' = ran st"
  "settle_wait env n d st = (b, st') \<Longrightarrow> ran st' = ran st" "command_timeout env dl st = (x, st') \<Longrightarrow> ran st' = ran st"
  by (metis clock_keeps_log snd_conv)+

lemma service_call_log:
  assumes "service_call env args mode dl st = (r, st')"
  shows "\<exists>l. ran st' = ran st @ l \<and> (exited_ok r \<longrightarrow> l = [(service_cmd env args mode, r)])"
  using assms by (auto simp: service_call_def rootless_service_def service_cmd_def exec_cmd_def Let_def exited_ok_def
      split: if_splits option.splits prod.splits dest: clock_log(4))

lemma check_loop_done:
  "check_loop env strict modes dl vs st = ([], st') \<Longrightarrow> list_all (\<lambda>v. \<exists>s. v = VStr s) vs \<Longrightarrow>
     \<exists>l. ran st' = ran st @ l \<and> all_done env [''is-active'', ''--quiet''] modes vs l"
proof (induction vs arbitrary: st)
  case (Cons v vs)
  obtain unit where v: "v = VStr unit" using Cons.prems(2) by auto
  obtain late st1 where late: "deadline_passed env dl st = (late, st1)" by fastforce
  then have not_late: "\<not> late" using Cons.prems(1) by (auto split: if_splits)
  obtain r st2 where r: "check_service env (service_name unit) (field_or ''rootful'' modes (service_name unit)) dl st1 = (r, st2)" by fastforce
  have rest: "exited_ok r" "check_loop env strict modes dl vs st2 = ([], st')"
    using Cons.prems(1) late not_late v r by (auto split: if_splits prod.splits)
  obtain l where l: "ran st' = ran st2 @ l" "all_done env [''is-active'', ''--quiet''] modes vs l"
    using Cons.IH [OF rest(2)] Cons.prems(2) by auto
  have "ran st2 = ran st @ [(service_cmd env ([''is-active'', ''--quiet''] @ [service_name unit]) (field_or ''rootful'' modes (service_name unit)), r)]"
    using service_call_log [OF r [unfolded check_service_def]] rest(1) clock_log(2) [OF late] by auto
  then show ?case using l v rest(1) by (auto simp: all_done_def)
qed (simp add: all_done_def)

lemma restart_loop_done:
  "restart_loop env modes dl vs st = ([], st') \<Longrightarrow> list_all (\<lambda>v. \<exists>s. v = VStr s) vs \<Longrightarrow>
     \<exists>l. ran st' = ran st @ l \<and> all_done env [''restart''] modes vs l"
proof (induction vs arbitrary: st)
  case (Cons v vs)
  obtain unit where v: "v = VStr unit" using Cons.prems(2) by auto
  obtain late st1 where late: "deadline_passed env dl st = (late, st1)" by fastforce
  then have not_late: "\<not> late" using Cons.prems(1) by (auto split: if_splits)
  then obtain mode where mode: "dget modes (service_name unit) = Some mode"
    using Cons.prems(1) late v by (cases "dget modes (service_name unit)") (auto split: prod.splits)
  obtain r st2 where r: "restart_service env (service_name unit) mode dl st1 = (r, st2)" by fastforce
  have rest: "exited_ok r" "restart_loop env modes dl vs st2 = ([], st')"
    using Cons.prems(1) late not_late v r mode by (auto split: if_splits prod.splits)
  obtain l where l: "ran st' = ran st2 @ l" "all_done env [''restart''] modes vs l" using Cons.IH [OF rest(2)] Cons.prems(2) by auto
  have "ran st2 = ran st @ [(service_cmd env ([''restart''] @ [service_name unit]) mode, r)]"
    using service_call_log [OF r [unfolded restart_service_def]] rest(1) clock_log(2) [OF late] by auto
  then show ?case using l v rest(1) mode by (auto simp: all_done_def field_or_def)
qed (simp add: all_done_def)

lemma report_loop_log:
  "report_loop env dl us statuses st = (statuses', st') \<Longrightarrow>
     \<exists>l. ran st' = ran st @ l \<and> set (dkeys statuses) \<subseteq> set (dkeys statuses') \<and>
       (\<forall>u \<in> set us. field_or [] u ''service'' = [] \<or> field_or [] u ''service'' \<in> set (dkeys statuses')) \<and>
       (\<forall>s. dget statuses' s = Some ''running'' \<longrightarrow> dget statuses s = Some ''running'' \<or>
          (\<exists>mode r. (service_cmd env [''is-active'', ''--quiet'', s] mode, r) \<in> set l \<and> exited_ok r))"
proof (induction us arbitrary: statuses st)
  case (Cons u us)
  let ?s = "field_or [] u ''service''" and ?m = "field_or ''rootful'' u ''mode''"
  show ?case
  proof (cases "?s = []")
    case True
    then show ?thesis using Cons by auto
  next
    case False
    obtain r st1 where r: "check_service env ?s ?m dl st = (r, st1)" by fastforce
    let ?x = "case r of Exited n out \<Rightarrow> if n = 0 then ''running'' else ''failed'' | _ \<Rightarrow> ''unknown''"
    have "report_loop env dl us (dset ?s ?x statuses) st1 = (statuses', st')" using Cons.prems False r by (simp add: Let_def)
    from Cons.IH [OF this] obtain l where l: "ran st' = ran st1 @ l" "set (dkeys (dset ?s ?x statuses)) \<subseteq> set (dkeys statuses')"
      "\<forall>u \<in> set us. field_or [] u ''service'' = [] \<or> field_or [] u ''service'' \<in> set (dkeys statuses')"
      "\<forall>s. dget statuses' s = Some ''running'' \<longrightarrow> dget (dset ?s ?x statuses) s = Some ''running'' \<or>
          (\<exists>mode r. (service_cmd env [''is-active'', ''--quiet'', s] mode, r) \<in> set l \<and> exited_ok r)" by blast
    obtain l0 where l0: "ran st1 = ran st @ l0" "exited_ok r \<longrightarrow> l0 = [(service_cmd env [''is-active'', ''--quiet'', ?s] ?m, r)]"
      using service_call_log [OF r [unfolded check_service_def]] by blast
    have running: "exited_ok r" if "?x = ''running''" using that by (auto simp: exited_ok_def split: cmd_result.splits if_splits)
    have keys: "set (dkeys statuses) \<subseteq> set (dkeys statuses')" "?s \<in> set (dkeys statuses')"
      using l(2) by (auto simp: AList.update_keys split: if_splits)
    show ?thesis
    proof (intro exI [of _ "l0 @ l"] conjI allI impI)
      fix s
      assume "dget statuses' s = Some ''running''"
      with l(4) [rule_format, of s] consider "s = ?s" "?x = ''running''" | "dget statuses s = Some ''running''"
        | "\<exists>mode r. (service_cmd env [''is-active'', ''--quiet'', s] mode, r) \<in> set l \<and> exited_ok r" by (auto split: if_splits)
      then show "dget statuses s = Some ''running'' \<or> (\<exists>mode r. (service_cmd env [''is-active'', ''--quiet'', s] mode, r) \<in> set (l0 @ l) \<and> exited_ok r)"
        by cases (use l0(2) running in auto)
    qed (use l l0(1) keys in auto)
  qed
qed simp

lemma policy_list_string_values:
  "policy_typed services policy \<Longrightarrow> key \<in> {''required'', ''restart'', ''allow_degraded''} \<Longrightarrow> list_all (\<lambda>v. \<exists>s. v = VStr s) (policy_list policy key)"
  by (auto simp: policy_typed_def policy_list_def list_all_iff)

lemma activate_services_done:
  assumes "activate_services env t st = ([], st')"
  shows "\<exists>l. ran st' = ran st @ l \<and> (l = [] \<and> hook_command env \<in> {None, Some []} \<or>
    (\<exists>command r. hook_command env = Some command \<and> l = [([command], r)] \<and> exited_ok r))"
  using assms by (auto simp: activate_services_def exec_cmd_def Let_def split: option.splits if_splits cmd_result.splits)

lemma restarts_done:
  assumes "restart_activation_services env files policy dl st = (Inr [], st')" "load_runtime_unit_modes (metadata_file files) = Inr modes"
    and "list_all (\<lambda>v. \<exists>s. v = VStr s) (policy_list policy ''restart'')"
  shows "\<exists>l. ran st' = ran st @ l \<and> all_done env [''restart''] modes (policy_list policy ''restart'') l"
  using assms restart_loop_done [OF _ assms(3)]
  by (auto simp: restart_activation_services_def all_done_def split: if_splits prod.splits)

lemma checks_done:
  assumes "check_required_services env files policy dl st = (Inr [], st')" "load_runtime_unit_modes (metadata_file files) = Inr modes"
    and "list_all (\<lambda>v. \<exists>s. v = VStr s) (policy_list policy ''required'')"
  shows "\<exists>l. ran st' = ran st @ l \<and> all_done env [''is-active'', ''--quiet''] modes (policy_list policy ''required'') l"
  using assms check_loop_done [OF _ assms(3)]
  by (auto simp: check_required_services_def all_done_def split: if_splits prod.splits)

definition tolerated :: "pyval dict \<Rightarrow> string \<Rightarrow> bool" where
  "tolerated policy s = (\<not> py_truthy (get_or (VBool False) policy ''strict_units'') \<or>
     \<not> py_truthy (get_or (VBool False) policy ''allow_degraded_configured'') \<or>
     s \<in> set (service_names (policy_list policy ''required'')) \<or> s \<in> set (service_names (policy_list policy ''allow_degraded'')))"

lemma no_degraded:
  assumes "degraded_service_failures policy statuses = []" "\<not> tolerated policy s" "s \<in> set (dkeys statuses)"
  shows "dget statuses s = Some ''running''"
proof -
  have "\<forall>e \<in> set statuses. snd e \<noteq> ''running'' \<longrightarrow> fst e \<noteq> s"
    using assms(1,2) by (auto simp: degraded_service_failures_def tolerated_def Let_def filter_empty_conv)
  moreover obtain x where x: "dget statuses s = Some x" using assms(3) by (cases "dget statuses s") (auto simp: map_of_eq_None_iff)
  ultimately show ?thesis using map_of_SomeD [OF x] by auto
qed


definition sample_files :: root_files where
  "sample_files = \<lparr>policy_file = Json (VDict [(''required'', VList [VStr ''web'']), (''restart'', VList [VStr ''db''])]), health_file = Absent,
     metadata_file = Json (VDict [(''units'', VList [VDict [(''service'', VStr ''web.service''), (''mode'', VStr ''rootless'')],
       VDict [(''service'', VStr ''db.service''), (''mode'', VStr ''rootful'')]])])\<rparr>"

definition sample_act_env :: act_env where
  "sample_act_env = \<lparr>hook_command = Some ''/run/hook'', hook_is_file = True, app_uid = Some 900, monotonic = (\<lambda>i. of_nat i),
     run_command = (\<lambda>i cmd t. Exited 0 [])\<rparr>"


end
