(* ===== verification/Imported_State.thy ===== *)
theory Imported_State
  imports Quadlet_Sync Activation
begin

text \<open>
  \<^verbatim>\<open>provision.write_imported_state\<close>: the files a parsed configuration becomes in a configuration root, and
  that the parts which read them at activation accept them.

  A root is the record of its control files; a JSON file is the value it holds. The bundle files, copied by
  \<^verbatim>\<open>copy_bundle_files\<close>, are modelled with the promotion; owners, modes and progress are not modelled
  here.
\<close>

section \<open>Definitions\<close>

record imported =
  config_toml_text :: "string option"
  admin_signers :: "string option"
  users_file :: json_file
  authorized_keys :: "string dict"
  firewall_file :: json_file
  lan_file :: json_file
  host_network_file :: json_file
  os_upgrade_file :: json_file
  health_required_file :: json_file
  activation_file :: json_file
  quadlet_files :: "string dict"
  runtime_file :: json_file

definition policy_dict :: "activation_policy \<Rightarrow> pyval" where
  "policy_dict p = VDict [(''required'', VList (map VStr (required_units p))), (''timeout_seconds'', VInt (timeout_seconds p)),
     (''settle_seconds'', VInt (settle_seconds p)), (''restart'', VList (map VStr (restart_units p))),
     (''allow_degraded'', VList (map VStr (allow_degraded p))),
     (''allow_degraded_configured'', VBool (allow_degraded_configured p)), (''strategy'', VStr ''rollback'')]"

definition containers_dict :: "loaded_config \<Rightarrow> pyval dict" where
  "containers_dict cfg = [(''container'', VDict (cfg_containers cfg)), (''network'', cfg_networks cfg),
     (''volume'', cfg_volumes cfg), (''build'', cfg_builds cfg)]"

definition write_admin_signers :: "string list \<Rightarrow> string option \<Rightarrow> string option" where
  "write_admin_signers ssh_keys old = (if ssh_keys = [] then old else Some (join [CHR 0x0A] ssh_keys @ [CHR 0x0A]))"

definition user_key :: "pyval \<Rightarrow> string res" where
  "user_key user = (case user of
     VDict d \<Rightarrow> (case get_or (VStr []) d ''ssh_key'' of VStr s \<Rightarrow> Inr s | _ \<Rightarrow> Inl (PyExc ''TypeError''))
   | _ \<Rightarrow> Inl (PyExc ''AttributeError''))"

fun write_authorized_keys :: "pyval dict \<Rightarrow> string dict \<Rightarrow> string dict res" where
  "write_authorized_keys [] keys = Inr keys"
| "write_authorized_keys ((username, user) # users) keys =
     rbind (user_key user) (\<lambda>ssh_key.
     write_authorized_keys users
       (if ssh_key \<noteq> [] then dset username (ssh_key @ [CHR 0x0A]) keys else dpop username keys))"

definition prune_authorized_keys :: "pyval dict \<Rightarrow> string dict \<Rightarrow> string dict" where
  "prune_authorized_keys users keys = filter (\<lambda>e. has_key users (fst e)) keys"

definition write_imported_state ::
  "string \<Rightarrow> string \<Rightarrow> loaded_config \<Rightarrow> string \<Rightarrow> imported \<Rightarrow> (imported \<times> string list) res" where
  "write_imported_state cwd render_root cfg text old =
     (let users = cfg_users cfg; policy = cfg_activation_policy cfg in
      rbind (write_authorized_keys users (prune_authorized_keys users (authorized_keys old))) (\<lambda>keys.
      rbind (render_units cwd (containers_dict cfg) render_root) (\<lambda>(units, runtime_units, warnings).
      Inr (\<lparr>config_toml_text = Some text,
            admin_signers = write_admin_signers (cfg_ssh_keys cfg) (admin_signers old),
            users_file = Json (VDict users),
            authorized_keys = keys,
            firewall_file = Json (VDict (cfg_firewall_inbound cfg)),
            lan_file = Json (VDict (cfg_lan_settings cfg)),
            host_network_file = Json (VDict (cfg_host_network cfg)),
            os_upgrade_file = (case cfg_os_upgrade cfg of None \<Rightarrow> Absent | Some url \<Rightarrow> Json (VDict [(''server_url'', VStr url)])),
            health_required_file = Json (VList (map VStr (required_units policy))),
            activation_file = Json (policy_dict policy),
            quadlet_files = units,
            runtime_file = Json (runtime_metadata runtime_units)\<rparr>, warnings))))"

definition activation_files :: "imported \<Rightarrow> root_files" where
  "activation_files im = \<lparr>policy_file = activation_file im, health_file = health_required_file im, metadata_file = runtime_file im\<rparr>"

section \<open>Theorems\<close>

subsection \<open>Authorized keys\<close>

lemma write_authorized_keys_lookup:
  "write_authorized_keys users keys = Inr keys' \<Longrightarrow> distinct (dkeys users) \<Longrightarrow>
     dget keys' n = (case dget users n of
       None \<Rightarrow> dget keys n
     | Some u \<Rightarrow> (case user_key u of Inr k \<Rightarrow> if k = [] then None else Some (k @ [CHR 0x0A]) | Inl e \<Rightarrow> None))"
proof (induction users keys arbitrary: keys' rule: write_authorized_keys.induct)
  case (2 username user users keys)
  obtain k where k: "user_key user = Inr k"
    "write_authorized_keys users (if k \<noteq> [] then dset username (k @ [CHR 0x0A]) keys else dpop username keys) = Inr keys'"
    using "2.prems"(1) by (auto simp: res_simps)
  have "dget users username = None" using "2.prems"(2) by (simp add: map_of_eq_None_iff)
  then show ?case using "2.IH" [OF k(2)] "2.prems"(2) k(1) by (auto split: option.splits)
qed simp

lemma dget_filter_keys: "dget (filter (\<lambda>e. P (fst e)) d) k = (if P k then dget d k else None)"
  by (induction d) auto

text \<open>C22: The authorized keys of a root are exactly those of its configuration. After the state of a parsed
  configuration is written, whatever keys the root held before, a name has a key file if and only if it is
  a configured user with a key, and the file holds that key: the keys of removed users and of users
  who lost theirs are gone.\<close>

theorem authorized_keys_exact:
  assumes "write_imported_state cwd render_root cfg t old = Inr (im, warnings)" "distinct (dkeys (cfg_users cfg))"
  shows "dget (authorized_keys im) n = Some text \<longleftrightarrow>
    (\<exists>u k. dget (cfg_users cfg) n = Some u \<and> user_key u = Inr k \<and> k \<noteq> [] \<and> text = k @ [CHR 0x0A])"
proof -
  have "write_authorized_keys (cfg_users cfg) (prune_authorized_keys (cfg_users cfg) (authorized_keys old)) = Inr (authorized_keys im)"
    using assms(1) by (auto simp: write_imported_state_def Let_def res_simps)
  note lookup = write_authorized_keys_lookup [OF this assms(2), of n]
  have "dget (cfg_users cfg) n = None \<Longrightarrow> dget (prune_authorized_keys (cfg_users cfg) (authorized_keys old)) n = None"
    unfolding prune_authorized_keys_def dget_filter_keys [of "has_key (cfg_users cfg)"] by (simp add: has_key_def)
  with lookup show ?thesis by (auto split: option.splits sum.splits if_splits)
qed

subsection \<open>The activation policy\<close>

lemma check_known_units_Inr: "check_known_units known field units = Inr u \<Longrightarrow> set units \<subseteq> set known"
  by (auto simp: check_known_units_def find_None_iff split: option.splits)

lemma require_int_range_Inr: "require_int_range v path lo hi = Inr i \<Longrightarrow> lo \<le> i \<and> i \<le> hi"
  by (cases v) (auto simp: require_int_range_def split: if_splits)

lemma loaded_policy_Inr:
  assumes "Config_Sections.load_activation_policy v known = Inr p"
  shows "set (required_units p) \<subseteq> set known" "set (restart_units p) \<subseteq> set known" "set (allow_degraded p) \<subseteq> set known"
    "1 \<le> timeout_seconds p \<and> timeout_seconds p \<le> 3600" "0 \<le> settle_seconds p \<and> settle_seconds p \<le> 300"
  using assms by (auto simp: Config_Sections.load_activation_policy_def res_simps dest!: check_known_units_Inr require_int_range_Inr)

lemma service_name_plain: "CHR ''.'' \<notin> set n \<Longrightarrow> service_name n = n @ ''.service''"
  by (auto simp: service_name_def dest: ends_withD)

lemma validate_name_no_dot: "validate_name n = Inr m \<Longrightarrow> CHR ''.'' \<notin> set n"
  by (auto simp: validate_name_def Let_def split: if_splits)

lemma string_fields_unit:
  "dict_items (map runtime_unit_dict us) = map (\<lambda>u. [(''name'', ru_name u), (''filename'', ru_filename u), (''service'', ru_service u), (''mode'', ru_mode u)]) us"
  by (induction us) (simp_all add: runtime_unit_dict_def)

lemma load_written_metadata:
  "load_runtime_units (Json (runtime_metadata us)) =
     Inr (map (\<lambda>u. [(''name'', ru_name u), (''filename'', ru_filename u), (''service'', ru_service u), (''mode'', ru_mode u)]) us)"
  by (simp add: load_runtime_units_def runtime_metadata_def get_or_def string_fields_unit)

lemma container_services:
  assumes "render_containers cwd table rt = Inr (files, units, ws)" "n \<in> set (dkeys table)"
  shows "CHR ''.'' \<notin> set n" "\<exists>u \<in> set units. ru_service u = n @ ''.service''"
proof -
  obtain rs where rs: "rmap (render_container cwd rt) table = Inr rs" "units = map (\<lambda>r. fst (snd r)) rs"
    using assms(1) by (auto simp: render_containers_def res_simps split: if_splits)
  obtain raw where raw: "(n, raw) \<in> set table" using assms(2) by auto
  obtain r where r: "r \<in> set rs" "render_container cwd rt (n, raw) = Inr r" using rmap_mem [OF rs(1) raw] by blast
  then show "CHR ''.'' \<notin> set n" using validate_name_no_dot by (auto simp: render_container_def Let_def res_simps)
  have "ru_service (fst (snd r)) = n @ ''.service''" using r(2) by (auto simp: render_container_def Let_def res_simps)
  then show "\<exists>u \<in> set units. ru_service u = n @ ''.service''" using r(1) rs(2) by auto
qed

definition written_policy :: "activation_policy \<Rightarrow> pyval dict" where
  "written_policy p = dset ''strict_units'' (VBool True) (dict_update default_activation_policy (case policy_dict p of VDict d \<Rightarrow> d))"

lemma written_policy_lookup:
  "get_or d (written_policy p) ''required'' = VList (map VStr (required_units p))" "get_or d (written_policy p) ''restart'' = VList (map VStr (restart_units p))"
  "get_or d (written_policy p) ''allow_degraded'' = VList (map VStr (allow_degraded p))" "get_or d (written_policy p) ''timeout_seconds'' = VInt (timeout_seconds p)"
  "get_or d (written_policy p) ''settle_seconds'' = VInt (settle_seconds p)" "get_or d (written_policy p) ''strategy'' = VStr ''rollback''"
  "dget (written_policy p) ''allow_degraded_configured'' = Some (VBool (allow_degraded_configured p))" "get_or d (written_policy p) ''strict_units'' = VBool True"
  by (simp_all add: written_policy_def get_or_def dict_update_def policy_dict_def default_activation_policy_def)

lemma check_policy_list_ok:
  assumes "get_or (VList []) policy key = VList (map VStr ss)" "\<forall>s \<in> set ss. service_name s \<in> set services"
  shows "check_policy_list services strict policy key = Inr ()"
proof -
  have "rmap (check_policy_entry services strict key) (map VStr ss) = Inr (map (\<lambda>v. ()) (map VStr ss))"
    using assms(2) by (intro rmap_total) (auto simp: check_policy_entry_def)
  then show ?thesis using assms(1) by (simp add: check_policy_list_def)
qed

lemma written_services:
  assumes "write_imported_state cwd render_root cfg t old = Inr (im, warnings)"
  shows "\<exists>units. runtime_file im = Json (runtime_metadata units) \<and> activation_file im = Json (policy_dict (cfg_activation_policy cfg)) \<and>
    (\<forall>n \<in> set (dkeys (cfg_containers cfg)). service_name n \<in> set (map ru_service units))"
proof -
  obtain units where im: "runtime_file im = Json (runtime_metadata units)" "activation_file im = Json (policy_dict (cfg_activation_policy cfg))"
    and ru: "\<exists>files. render_units cwd (containers_dict cfg) render_root = Inr (files, units, warnings)"
    using assms by (auto simp: write_imported_state_def Let_def res_simps)
  obtain r1 u1 w where r: "cfg_containers cfg = [] \<or> render_containers cwd (cfg_containers cfg) render_root = Inr (r1, u1, w)" "set u1 \<subseteq> set units"
    using ru by (auto simp: render_units_def containers_dict_def get_table_def get_or_def Let_def rbind_eq_Inr split: if_splits)
  have "service_name n \<in> set (map ru_service units)" if "n \<in> set (dkeys (cfg_containers cfg))" for n
  proof -
    have "render_containers cwd (cfg_containers cfg) render_root = Inr (r1, u1, w)" using r(1) that by auto
    from container_services [OF this that] show ?thesis using r(2) by (auto simp: service_name_plain intro: rev_image_eqI)
  qed
  then show ?thesis using im by blast
qed

lemma written_policy_ok:
  assumes "load_config validate_schema doc = Inr cfg" "write_imported_state cwd render_root cfg t old = Inr (im, warnings)"
  shows "load_root_activation_policy (activation_files im) = Inr (written_policy (cfg_activation_policy cfg)) \<and>
    (\<exists>us. load_runtime_units (runtime_file im) = Inr us \<and>
       (\<forall>n \<in> set (required_units (cfg_activation_policy cfg)). service_name n \<in> set (map (\<lambda>u. field_or [] u ''service'') us)))"
proof -
  let ?p = "cfg_activation_policy cfg"
  obtain v where v: "Config_Sections.load_activation_policy v (dkeys (cfg_containers cfg)) = Inr ?p"
    using assms(1) by (auto simp: load_config_def res_simps)
  note lists = loaded_policy_Inr [OF v]
  obtain units where im: "runtime_file im = Json (runtime_metadata units)" "activation_file im = Json (policy_dict ?p)"
    and known: "\<forall>n \<in> set (dkeys (cfg_containers cfg)). service_name n \<in> set (map ru_service units)"
    using written_services [OF assms(2)] by blast
  let ?us = "map (\<lambda>u. [(''name'', ru_name u), (''filename'', ru_filename u), (''service'', ru_service u), (''mode'', ru_mode u)]) units"
  have services: "map (\<lambda>u. field_or [] u ''service'') ?us = map ru_service units" by (simp add: field_or_def)
  have known': "\<forall>s \<in> set ss. service_name s \<in> set (map ru_service units)" if "set ss \<subseteq> set (dkeys (cfg_containers cfg))" for ss
    using that known by blast
  have checked: "check_policy_list (map ru_service units) True (written_policy ?p) ''required'' = Inr ()"
    "check_policy_list (map ru_service units) True (written_policy ?p) ''restart'' = Inr ()"
    "check_policy_list (map ru_service units) True (written_policy ?p) ''allow_degraded'' = Inr ()"
    by (rule check_policy_list_ok [OF written_policy_lookup(1) known' [OF lists(1)]],
        rule check_policy_list_ok [OF written_policy_lookup(2) known' [OF lists(2)]],
        rule check_policy_list_ok [OF written_policy_lookup(3) known' [OF lists(3)]])
  have "validate_runtime_activation_policy (activation_files im) (written_policy ?p) True = Inr ()"
    using lists(4,5) checked
    by (simp add: validate_runtime_activation_policy_def activation_files_def im(1) load_written_metadata services written_policy_lookup policy_int_def Let_def del: map_map)
  then have "load_root_activation_policy (activation_files im) = Inr (written_policy ?p)"
    by (simp add: load_root_activation_policy_def activation_files_def im(2) policy_dict_def Let_def written_policy_def)
  moreover have "load_runtime_units (runtime_file im) = Inr ?us" by (simp add: im(1) load_written_metadata)
  moreover have "\<forall>n \<in> set (required_units ?p). service_name n \<in> set (map (\<lambda>u. field_or [] u ''service'') ?us)"
    unfolding services by (rule known' [OF lists(1)])
  ultimately show ?thesis by blast
qed

subsection \<open>Admin signers\<close>

lemma load_ssh_key_Inr: "load_ssh_key raw path = Inr k \<Longrightarrow> k = [] \<or> require_ssh_public_key raw path = Inr k"
  by (cases raw) (auto simp: load_ssh_key_def split: if_splits)

lemma load_users_keys:
  assumes "load_users v = Inr (users, keys)"
  shows "keys \<noteq> []" "k \<in> set keys \<Longrightarrow> \<exists>path w. require_ssh_public_key w path = Inr k"
    "distinct (dkeys users) \<longleftrightarrow> (\<exists>d. v = VDict d \<and> distinct (dkeys d))"
proof -
  obtain d us where d: "v = VDict d" "rmap load_user d = Inr us" "keys = map user_ssh_key (filter (\<lambda>u. user_is_admin u \<and> user_ssh_key u \<noteq> []) us)"
    "keys \<noteq> []" "users = map (\<lambda>u. (user_name u, user_dict u)) us"
    using assms by (auto simp: load_users_def require_mapping_def res_simps Let_def split: pyval.splits if_splits)
  show "keys \<noteq> []" by (rule d(4))
  have user: "user_name u = fst e \<and> (user_ssh_key u = [] \<or> (\<exists>path w. require_ssh_public_key w path = Inr (user_ssh_key u)))" if "load_user e = Inr u" for e u
    using that by (auto simp: load_user_def Let_def res_simps dest!: load_ssh_key_Inr)
  show "\<exists>path w. require_ssh_public_key w path = Inr k" if "k \<in> set keys"
  proof -
    from that obtain u where u: "u \<in> set us" "k = user_ssh_key u" "k \<noteq> []" unfolding d(3) by auto
    obtain e where "load_user e = Inr u" using rmap_set [OF d(2) u(1)] by blast
    from user [OF this] u(2,3) show ?thesis by simp
  qed
  have "list_all2 (\<lambda>e u. load_user e = Inr u) d us" using d(2) by (simp add: rmap_eq_Inr)
  then have "dkeys d = map user_name us" by (induction rule: list_all2_induct) (use user in auto)
  then have "dkeys users = dkeys d" by (simp add: d(5))
  then show "distinct (dkeys users) \<longleftrightarrow> (\<exists>d. v = VDict d \<and> distinct (dkeys d))" using d(1) by simp
qed

lemma ssh_key_line:
  assumes "require_ssh_public_key v path = Inr key" "CHR 0x85 \<notin> set key"
  shows "key \<noteq> []" "strip key = key" "list_all (\<lambda>c. \<not> is_linebreak c) key"
proof -
  have req: "require_string v path = Inr key" and ok: "ssh_key_error key = None"
    using assms(1) by (auto simp: require_ssh_public_key_def res_simps split: option.splits)
  show "key \<noteq> []" "strip key = key" using require_string_Inr [OF req] by simp_all
  have "\<forall>c \<in> set key. \<not> is_control c" using ok by (auto simp: ssh_key_error_def list_ex_iff split: if_splits)
  moreover have "c = CHR 0x85" if "cp c = 133" for c
  proof -
    have "cp (CHR 0x85) = 133" by (simp add: cp_def)
    then show ?thesis using that cp_inject by metis
  qed
  ultimately show "list_all (\<lambda>c. \<not> is_linebreak c) key"
    using assms(2) by (fastforce simp: list_all_iff is_linebreak_def is_control_def Let_def)
qed

text \<open>A configuration without containers that removes the key of a former user.\<close>

definition key_sample :: loaded_config where
  "key_sample = \<lparr>cfg_ssh_keys = [''k''], cfg_users = [(''ann'', VDict [(''ssh_key'', VStr ''k'')]), (''bob'', VDict [])],
     cfg_firewall_inbound = [], cfg_lan_settings = [], cfg_host_network = [], cfg_os_upgrade = None,
     cfg_activation_policy = \<lparr>required_units = [], timeout_seconds = 300, settle_seconds = 0, restart_units = [], allow_degraded = [],
       allow_degraded_configured = False\<rparr>,
     cfg_containers = [], cfg_networks = VNone, cfg_volumes = VNone, cfg_builds = VNone\<rparr>"

theorem authorized_keys_exact_witness:
  "\<exists>im ws. write_imported_state ''/'' ''/data'' key_sample ''x''
       \<lparr>config_toml_text = None, admin_signers = None, users_file = Absent, authorized_keys = [(''eve'', ''e''), (''bob'', ''b'')],
         firewall_file = Absent, lan_file = Absent, host_network_file = Absent, os_upgrade_file = Absent, health_required_file = Absent,
         activation_file = Absent, quadlet_files = [], runtime_file = Absent\<rparr> = Inr (im, ws) \<and>
     dget (authorized_keys im) ''ann'' = Some (''k'' @ [CHR 0x0A])"
proof -
  let ?old = "\<lparr>config_toml_text = None, admin_signers = None, users_file = Absent, authorized_keys = [(''eve'', ''e''), (''bob'', ''b'')],
         firewall_file = Absent, lan_file = Absent, host_network_file = Absent, os_upgrade_file = Absent, health_required_file = Absent,
         activation_file = Absent, quadlet_files = [], runtime_file = Absent\<rparr>"
  have "\<not> isl (write_imported_state ''/'' ''/data'' key_sample ''x'' ?old)" by code_simp
  then obtain im ws where run: "write_imported_state ''/'' ''/data'' key_sample ''x'' ?old = Inr (im, ws)"
    by (cases "write_imported_state ''/'' ''/data'' key_sample ''x'' ?old") auto
  have "distinct (dkeys (cfg_users key_sample))" by (simp add: key_sample_def)
  note exact = authorized_keys_exact [OF run this, of "''ann''" "''k'' @ [CHR 0x0A]"]
  show ?thesis using run exact by (simp add: key_sample_def user_key_def get_or_def)
qed

end
