(* ===== verification/Bundle_Files.thy ===== *)
theory Bundle_Files
  imports Py_Base
begin

text \<open>
  Managed files of a bundle, \<^verbatim>\<open>bundle.py\<close>: the snapshot of a source directory
  (\<^verbatim>\<open>_snapshot_files_source\<close>, \<^verbatim>\<open>_snapshot_dir\<close>,
  \<^verbatim>\<open>_open_verified_regular_file\<close>, \<^verbatim>\<open>_read_export_file\<close>) and the access
  rights of the installed copy (\<^verbatim>\<open>grant_managed_file_access\<close>,
  \<^verbatim>\<open>_apply_managed_access\<close>, \<^verbatim>\<open>_read_only_access_acl\<close>).

  The source may change while it is copied. It is therefore given by what the calls of the code observe:
  each \<open>stat\<close> of an entry, each open (\<open>None\<close> when it fails) and the bytes that reading it to
  the end would deliver (for a file that grows for ever, more than any limit). A directory lists its entries
  in the order of \<^verbatim>\<open>os.scandir\<close>. The copy is a dict from paths to files and folders with
  their modes. Length limits of the file system are not modelled. Every caller passes all three limits,
  so a limit is a number.
\<close>

section \<open>Definitions\<close>

subsection \<open>Files and observations\<close>

type_synonym path = "string list"

datatype node = File nat string | Folder nat

type_synonym fs = "(path \<times> node) list"

datatype fkind = Reg | Directory | Symlink | Special

record fstat =
  st_kind :: fkind
  st_nlink :: nat
  st_id :: "nat \<times> nat"
  st_size :: nat
  st_mtime :: int
  st_ctime :: int

record file_obs =
  pinned :: "fstat option"
  readable :: "fstat option"
  confirmed :: fstat
  content :: string
  after_read :: fstat

text \<open>
  An entry: its \<^verbatim>\<open>stat\<close>, what opening it as a file shows, and what opening it as a directory
  shows. A directory: its \<^verbatim>\<open>fstat\<close> before and after the copy, and its entries.
\<close>

datatype src_dir = Src_Dir fstat "(string \<times> src_entry) list" fstat
  and src_entry = Src_Entry "fstat option" file_obs "fstat option" src_dir

record snap_limits =
  max_file_bytes :: nat
  max_total_bytes :: nat
  max_members :: nat

record snap =
  member_count :: nat
  total_bytes :: nat
  copied :: fs

definition max_bundle_depth :: nat where
  "max_bundle_depth = 64"

subsection \<open>Copying one file\<close>

definition single_regular :: "fstat \<Rightarrow> bool" where
  "single_regular st = (st_kind st = Reg \<and> st_nlink st = 1)"

definition not_single :: error where
  "not_single = ProvisionError ''bundle entry must be a single-link regular file''"

definition open_verified_regular_file :: "file_obs \<Rightarrow> fstat \<Rightarrow> error \<Rightarrow> unit res" where
  "open_verified_regular_file f expected changed = (case pinned f of
     None \<Rightarrow> Inl (OSErr ''open'')
   | Some p \<Rightarrow>
       rbind (rguard (single_regular p) not_single) (\<lambda>_.
       rbind (rguard (st_id p = st_id expected) changed) (\<lambda>_.
       case readable f of
         None \<Rightarrow> Inl (OSErr ''open'')
       | Some r \<Rightarrow>
           rbind (rguard (single_regular r) not_single) (\<lambda>_.
           rguard (st_id r = st_id p) changed))))"

definition exceeds_member :: "nat \<Rightarrow> error" where
  "exceeds_member n = ProvisionError (''bundle member exceeds '' @ string_of_nat n @ '' byte limit'')"

definition exceeds_total :: "nat \<Rightarrow> error" where
  "exceeds_total n = ProvisionError (''bundle exceeds '' @ string_of_nat n @ '' byte decompressed limit'')"

definition exceeds_members :: "nat \<Rightarrow> error" where
  "exceeds_members n = ProvisionError (''bundle exceeds '' @ string_of_nat n @ '' member limit'')"

text \<open>
  The read loop of \<^verbatim>\<open>_snapshot_dir\<close> after \<open>acc\<close> has been copied. It asks for one byte more
  than the limits allow, so that a file which grows beyond them ends the loop.
\<close>

function copy_chunks :: "snap_limits \<Rightarrow> nat \<Rightarrow> string \<Rightarrow> string \<Rightarrow> string res" where
  "copy_chunks lm tot source acc =
     (let remaining = min 65536 (min (max_file_bytes lm - length acc) (max_total_bytes lm - tot - length acc));
          chunk = take (Suc remaining) (drop (length acc) source) in
      if chunk = [] then Inr acc
      else if length acc + length chunk > max_file_bytes lm then Inl (exceeds_member (max_file_bytes lm))
      else if tot + length acc + length chunk > max_total_bytes lm then Inl (exceeds_total (max_total_bytes lm))
      else copy_chunks lm tot source (acc @ chunk))"
  by pat_completeness auto
termination
proof (relation "measure (\<lambda>(lm, tot, source, acc). Suc (max_file_bytes lm) - length acc)", goal_cases)
  case (2 lm tot source acc remaining chunk)
  from 2(3,4) show ?case by (cases chunk) auto
qed simp

declare copy_chunks.simps [simp del]

definition same_version :: "fstat \<Rightarrow> fstat \<Rightarrow> bool" where
  "same_version a b = (st_size a = st_size b \<and> st_mtime a = st_mtime b \<and> st_ctime a = st_ctime b)"

definition changed_file :: error where
  "changed_file = ProvisionError ''bundle file changed during snapshot''"

definition snapshot_file :: "snap_limits \<Rightarrow> path \<Rightarrow> fstat \<Rightarrow> file_obs \<Rightarrow> snap \<Rightarrow> snap res" where
  "snapshot_file lm target st f s =
     rbind (rguard (st_size st \<le> max_file_bytes lm) (exceeds_member (max_file_bytes lm))) (\<lambda>_.
     rbind (rguard (total_bytes s + st_size st \<le> max_total_bytes lm) (exceeds_total (max_total_bytes lm))) (\<lambda>_.
     rbind (open_verified_regular_file f st changed_file) (\<lambda>_.
     rbind (rguard (single_regular (confirmed f)) not_single) (\<lambda>_.
     rbind (rguard (st_id (confirmed f) = st_id st) changed_file) (\<lambda>_.
     rbind (copy_chunks lm (total_bytes s) (content f) []) (\<lambda>data.
     rbind (rguard (length data = st_size (after_read f))
       (ProvisionError ''bundle file size changed during snapshot'')) (\<lambda>_.
     rbind (rguard (single_regular (after_read f) \<and> same_version (after_read f) (confirmed f)) changed_file) (\<lambda>_.
     Inr (s\<lparr>total_bytes := total_bytes s + length data,
            copied := AList.update target (File 420 data) (copied s)\<rparr>)))))))))"

subsection \<open>Copying a directory\<close>

fun count_names :: "snap_limits \<Rightarrow> string list \<Rightarrow> nat \<Rightarrow> nat res" where
  "count_names lm [] n = Inr n"
| "count_names lm (name # names) n =
     (if name \<in> {[], ''.'', ''..''} then Inl (ProvisionError ''invalid bundle files entry'')
      else if n \<ge> max_members lm then Inl (exceeds_members (max_members lm))
      else count_names lm names (Suc n))"

definition changed_dir :: error where
  "changed_dir = ProvisionError ''bundle directory changed during snapshot''"

function snapshot_dir :: "snap_limits \<Rightarrow> nat \<Rightarrow> path \<Rightarrow> src_dir \<Rightarrow> snap \<Rightarrow> snap res"
  and snapshot_entries :: "snap_limits \<Rightarrow> nat \<Rightarrow> path \<Rightarrow> (string \<times> src_entry) list \<Rightarrow> snap \<Rightarrow> snap res"
  and snapshot_entry :: "snap_limits \<Rightarrow> nat \<Rightarrow> path \<Rightarrow> src_entry \<Rightarrow> snap \<Rightarrow> snap res"
where
  "snapshot_dir lm depth dest (Src_Dir before es after) s =
     rbind (count_names lm (map fst es) (member_count s)) (\<lambda>n.
     rbind (snapshot_entries lm depth dest (sort_key fst es)
       (s\<lparr>member_count := n, copied := AList.update dest (Folder 493) (copied s)\<rparr>)) (\<lambda>s'.
     rbind (rguard (st_kind after = Directory \<and> st_id after = st_id before
         \<and> st_mtime after = st_mtime before \<and> st_ctime after = st_ctime before) changed_dir) (\<lambda>_.
     Inr s')))"
| "snapshot_entries lm depth dest [] s = Inr s"
| "snapshot_entries lm depth dest (x # xs) s =
     rbind (snapshot_entry lm depth (dest @ [fst x]) (snd x) s) (\<lambda>s'. snapshot_entries lm depth dest xs s')"
| "snapshot_entry lm depth target (Src_Entry st f opened sub) s = (case st of
     None \<Rightarrow> Inl (ProvisionError ''cannot stat bundle files entry'')
   | Some st' \<Rightarrow> (case st_kind st' of
       Symlink \<Rightarrow> Inl (ProvisionError ''bundle files entry must not be a symlink'')
     | Directory \<Rightarrow>
         (if depth \<ge> max_bundle_depth
          then Inl (ProvisionError ''bundle exceeds 64 directory depth limit'')
          else case opened of
            None \<Rightarrow> Inl (OSErr ''open'')
          | Some fd \<Rightarrow>
              rbind (rguard (st_kind fd = Directory \<and> st_id fd = st_id st') changed_dir) (\<lambda>_.
              snapshot_dir lm (Suc depth) target sub s))
     | Special \<Rightarrow> Inl (ProvisionError ''bundle files entry must be a regular file'')
     | Reg \<Rightarrow> snapshot_file lm target st' f s))"
  by pat_completeness auto
termination
  by (relation "measure (\<lambda>x. case x of
      Inl (lm, depth, dest, d, s) \<Rightarrow> size d
    | Inr (Inl (lm, depth, dest, es, s)) \<Rightarrow> size_list (size_prod (\<lambda>x. 0) size) es
    | Inr (Inr (lm, depth, target, e, s)) \<Rightarrow> size e)") auto

definition snapshot_files_source :: "snap_limits \<Rightarrow> src_dir option \<Rightarrow> snap res" where
  "snapshot_files_source lm source = (case source of
     None \<Rightarrow> Inl (ProvisionError ''failed to open bundle directory without following symlinks'')
   | Some d \<Rightarrow> snapshot_dir lm 0 [] d \<lparr>member_count = 0, total_bytes = 0, copied = []\<rparr>)"

section \<open>The snapshot is an exact and bounded copy\<close>

text \<open>The entry of the source at a path, and what the copy must hold for it.\<close>

fun entry_at :: "src_dir \<Rightarrow> path \<Rightarrow> src_entry option" where
  "entry_at (Src_Dir before es after) [] = None"
| "entry_at (Src_Dir before es after) (n # r) = (case map_of es n of
     None \<Rightarrow> None
   | Some (Src_Entry st f opened sub) \<Rightarrow>
       (if r = [] then Some (Src_Entry st f opened sub)
        else if map_option st_kind st = Some Directory then entry_at sub r else None))"

fun node_of :: "src_entry \<Rightarrow> node" where
  "node_of (Src_Entry st f opened sub) =
     (if map_option st_kind st = Some Directory then Folder 493 else File 420 (content f))"

text \<open>The read loop delivers the whole file, or fails exactly when a limit is exceeded.\<close>

lemma copy_chunks_eq:
  "length acc \<le> length source \<Longrightarrow> acc = take (length acc) source
   \<Longrightarrow> copy_chunks lm tot source acc = Inr data \<longleftrightarrow>
     data = source \<and> (length source = length acc \<or>
       length source \<le> max_file_bytes lm \<and> tot + length source \<le> max_total_bytes lm)"
proof (induction lm tot source acc rule: copy_chunks.induct)
  case (1 lm tot source acc)
  define n where "n = Suc (min 65536 (min (max_file_bytes lm - length acc) (max_total_bytes lm - tot - length acc)))"
  define chunk where "chunk = take n (drop (length acc) source)"
  have step: "copy_chunks lm tot source acc =
     (if chunk = [] then Inr acc
      else if length acc + length chunk > max_file_bytes lm then Inl (exceeds_member (max_file_bytes lm))
      else if tot + length acc + length chunk > max_total_bytes lm then Inl (exceeds_total (max_total_bytes lm))
      else copy_chunks lm tot source (acc @ chunk))"
    unfolding copy_chunks.simps [of lm tot source acc] Let_def chunk_def n_def by (rule refl)
  have len: "length chunk = min (length source - length acc) n" by (simp add: chunk_def)
  have n: "0 < n" by (simp add: n_def)
  consider (eof) "length source = length acc" | (more) "length acc < length source"
    using 1(2) by linarith
  then show ?case
  proof cases
    case eof
    then have "chunk = []" "acc = source" using 1(3) by (simp_all add: chunk_def)
    then show ?thesis using eof step by auto
  next
    case more
    then have ne: "chunk \<noteq> []" using len n by auto
    show ?thesis
    proof (cases "length acc + length chunk > max_file_bytes lm \<or> tot + length acc + length chunk > max_total_bytes lm")
      case True
      then show ?thesis using step ne len more by auto
    next
      case False
      have ac: "acc @ chunk = take (length (acc @ chunk)) source"
      proof -
        have "acc @ chunk = take (length acc + n) source"
          using 1(3) by (metis chunk_def take_add)
        then show ?thesis by (metis length_take min.commute take_all_iff take_take linorder_le_cases min_def)
      qed
      have IH: "copy_chunks lm tot source (acc @ chunk) = Inr data \<longleftrightarrow>
         data = source \<and> (length source = length (acc @ chunk) \<or>
         length source \<le> max_file_bytes lm \<and> tot + length source \<le> max_total_bytes lm)"
        by (rule 1(1) [OF refl, folded n_def, OF chunk_def])
           (use False ne len more ac in auto)
      show ?thesis using step ne False IH len more by auto
    qed
  qed
qed

lemma copy_chunks_Inr:
  "copy_chunks lm tot source [] = Inr data \<longleftrightarrow> data = source \<and>
     (source = [] \<or> length source \<le> max_file_bytes lm \<and> tot + length source \<le> max_total_bytes lm)"
  using copy_chunks_eq [of "[]" source] by simp

fun distinct_dir :: "src_dir \<Rightarrow> bool" and distinct_entry :: "src_entry \<Rightarrow> bool" where
  "distinct_dir (Src_Dir before es after) = (distinct (map fst es) \<and> list_all (\<lambda>x. distinct_entry (snd x)) es)"
| "distinct_entry (Src_Entry st f opened sub) = distinct_dir sub"

text \<open>
  What the code established of a copied entry: a directory that was opened as itself, or a regular file with
  one link, the same at every look, read in full and not modified meanwhile.
\<close>

definition unchanged_file :: "fstat \<Rightarrow> file_obs \<Rightarrow> bool" where
  "unchanged_file st f = (case (pinned f, readable f) of
     (Some p, Some r) \<Rightarrow> list_all single_regular [p, r, confirmed f, after_read f]
       \<and> st_id p = st_id st \<and> st_id r = st_id st \<and> st_id (confirmed f) = st_id st
       \<and> length (content f) = st_size (after_read f) \<and> same_version (after_read f) (confirmed f)
   | _ \<Rightarrow> False)"

fun verified_entry :: "src_entry \<Rightarrow> bool" where
  "verified_entry (Src_Entry st f opened sub) = (case st of
     None \<Rightarrow> False
   | Some st' \<Rightarrow> (case st_kind st' of
       Directory \<Rightarrow> map_option st_kind opened = Some Directory \<and> map_option st_id opened = Some (st_id st')
     | Reg \<Rightarrow> unchanged_file st' f
     | _ \<Rightarrow> False))"

definition below :: "src_entry \<Rightarrow> path \<Rightarrow> src_entry option" where
  "below e r = (case e of Src_Entry st f opened sub \<Rightarrow>
     if r = [] then Some e else if map_option st_kind st = Some Directory then entry_at sub r else None)"

lemma entry_at_Cons: "entry_at (Src_Dir before es after) (n # r) = Option.bind (map_of es n) (\<lambda>e. below e r)"
  by (auto simp: below_def split: option.split src_entry.split)

lemma map_of_sorted:
  assumes "distinct (map fst xs)"
  shows "map_of (sort_key fst xs) n = map_of xs n"
proof -
  have "distinct (map fst (sort_key fst xs))"
    using assms by (metis distinct_map distinct_sort set_sort)
  from map_of_inject_set [OF this assms] show ?thesis by simp
qed

lemma snapshot_file_Inr:
  "snapshot_file lm target st f s = Inr s' \<Longrightarrow>
     unchanged_file st f \<and> length (content f) \<le> max_file_bytes lm
     \<and> total_bytes s + length (content f) \<le> max_total_bytes lm
     \<and> s' = s\<lparr>total_bytes := total_bytes s + length (content f),
              copied := AList.update target (File 420 (content f)) (copied s)\<rparr>"
  by (auto simp: snapshot_file_def open_verified_regular_file_def unchanged_file_def copy_chunks_Inr res_simps
      split: option.splits)

text \<open>Nodes placed below a path.\<close>

definition placed :: "path \<Rightarrow> (path \<Rightarrow> 'a option) \<Rightarrow> path \<Rightarrow> 'a option" where
  "placed base g p = (if prefix base p then g (drop (length base) p) else None)"

definition dir_nodes :: "src_dir \<Rightarrow> path \<Rightarrow> node option" where
  "dir_nodes d q = (if q = [] then Some (Folder 493) else map_option node_of (entry_at d q))"

definition entry_nodes :: "(src_entry \<Rightarrow> 'a) \<Rightarrow> src_entry \<Rightarrow> path \<Rightarrow> 'a option" where
  "entry_nodes nf e r = map_option nf (below e r)"

definition list_nodes :: "(src_entry \<Rightarrow> 'a) \<Rightarrow> (string \<times> src_entry) list \<Rightarrow> path \<Rightarrow> 'a option" where
  "list_nodes nf xs q = (case q of [] \<Rightarrow> None | n # r \<Rightarrow> Option.bind (map_of xs n) (\<lambda>e. entry_nodes nf e r))"

lemma placed_Nil [simp]: "placed [] g = g"
  by (simp add: placed_def fun_eq_iff)

lemma map_of_update: "map_of (AList.update k v al) = map_of al ++ [k \<mapsto> v]"
  by (simp add: update_conv')

lemma placed_Cons:
  assumes "fst x \<notin> fst ` set xs"
  shows "placed (dest @ [fst x]) (entry_nodes nf (snd x)) ++ placed dest (list_nodes nf xs) = placed dest (list_nodes nf (x # xs))"
proof
  fix p
  show "(placed (dest @ [fst x]) (entry_nodes nf (snd x)) ++ placed dest (list_nodes nf xs)) p = placed dest (list_nodes nf (x # xs)) p"
  proof (cases "prefix dest p")
    case True
    then obtain q where q: "p = dest @ q" by (auto simp: prefix_def)
    have "map_of xs (fst x) = None" using assms by (simp add: map_of_eq_None_iff)
    then show ?thesis
      by (cases q) (auto simp: q placed_def list_nodes_def map_add_def split: option.split)
  next
    case False
    then show ?thesis by (auto simp: placed_def map_add_def dest: append_prefixD)
  qed
qed

lemma placed_dir:
  assumes "distinct (map fst es)"
  shows "[dest \<mapsto> Folder 493] ++ placed dest (list_nodes node_of (sort_key fst es)) = placed dest (dir_nodes (Src_Dir before es after))"
proof
  fix p
  show "([dest \<mapsto> Folder 493] ++ placed dest (list_nodes node_of (sort_key fst es))) p = placed dest (dir_nodes (Src_Dir before es after)) p"
  proof (cases "prefix dest p")
    case True
    then obtain q where q: "p = dest @ q" by (auto simp: prefix_def)
    show ?thesis
      by (cases q) (auto simp: q placed_def list_nodes_def dir_nodes_def entry_nodes_def entry_at_Cons map_add_def
          map_of_sorted [OF assms] simp del: entry_at.simps split: option.split bind_splits)
  next
    case False
    then show ?thesis by (auto simp: placed_def map_add_def)
  qed
qed

lemma entry_nodes_dir:
  "st_kind st = Directory \<Longrightarrow> entry_nodes node_of (Src_Entry (Some st) f opened sub) = dir_nodes sub"
  by (auto simp: entry_nodes_def dir_nodes_def below_def fun_eq_iff)

lemma entry_nodes_file:
  "st_kind st = Reg \<Longrightarrow> entry_nodes node_of (Src_Entry (Some st) f opened sub) = [[] \<mapsto> File 420 (content f)]"
  by (auto simp: entry_nodes_def below_def fun_eq_iff)

lemma snapshot_copies:
  shows "distinct_dir d \<Longrightarrow> snapshot_dir lm depth dest d s = Inr s' \<Longrightarrow>
      map_of (copied s') = map_of (copied s) ++ placed dest (dir_nodes d)"
    and "distinct (map fst xs) \<Longrightarrow> list_all (\<lambda>x. distinct_entry (snd x)) xs \<Longrightarrow>
      snapshot_entries lm depth dest xs s = Inr s' \<Longrightarrow>
      map_of (copied s') = map_of (copied s) ++ placed dest (list_nodes node_of xs)"
    and "distinct_entry e \<Longrightarrow> snapshot_entry lm depth target e s = Inr s' \<Longrightarrow>
      map_of (copied s') = map_of (copied s) ++ placed target (entry_nodes node_of e)"
proof (induction lm depth dest d s and lm depth dest xs s and lm depth target e s
    arbitrary: s' and s' and s'
    rule: snapshot_dir_snapshot_entries_snapshot_entry.induct)
  case (1 lm depth dest before es after s)
  from 1(3) obtain n where n: "count_names lm (map fst es) (member_count s) = Inr n"
    and r: "snapshot_entries lm depth dest (sort_key fst es)
       (s\<lparr>member_count := n, copied := AList.update dest (Folder 493) (copied s)\<rparr>) = Inr s'"
    by (auto simp: res_simps)
  have d: "distinct (map fst (sort_key fst es))"
    using 1(2) by (metis distinct_map distinct_dir.simps distinct_sort set_sort)
  have "list_all (\<lambda>x. distinct_entry (snd x)) (sort_key fst es)"
    using 1(2) by (simp add: list_all_iff)
  from 1(1) [OF d this r]
  have "map_of (copied s') = (map_of (copied s) ++ [dest \<mapsto> Folder 493]) ++ placed dest (list_nodes node_of (sort_key fst es))"
    by (simp add: fun_eq_iff map_add_def map_of_update)
  then show ?case
    using placed_dir [of es dest before after] 1(2) by (simp only: map_add_assoc [symmetric] distinct_dir.simps)
next
  case (2 lm depth dest s)
  then show ?case by (auto simp: placed_def list_nodes_def fun_eq_iff map_add_def split: list.splits)
next
  case (3 lm depth dest x xs s)
  from 3(5) obtain u where u: "snapshot_entry lm depth (dest @ [fst x]) (snd x) s = Inr u"
    and r: "snapshot_entries lm depth dest xs u = Inr s'"
    by (auto simp: res_simps)
  show ?case
    using 3(1) [OF _ u] 3(2) [OF _ _ r] 3(3,4) placed_Cons [of x xs dest node_of] by (simp flip: map_add_assoc)
next
  case (4 lm depth target st f opened sub s)
  from 4(3) obtain st' where st: "st = Some st'" by (cases st) auto
  show ?case
  proof (cases "st_kind st'")
    case Directory
    then obtain fd where fd: "depth < max_bundle_depth" "opened = Some fd"
      and "snapshot_dir lm (Suc depth) target sub s = Inr s'"
      using 4(3) st by (auto simp: res_simps split: if_splits option.splits)
    then show ?thesis using 4(1) [OF st Directory] 4(2) entry_nodes_dir [OF Directory] st by simp
  next
    case Reg
    then show ?thesis using 4(3) st snapshot_file_Inr [of lm target st' f s s'] entry_nodes_file [OF Reg]
      by (auto simp: fun_eq_iff map_add_def map_of_update placed_def prefix_def)
  qed (use 4(3) st in auto)
qed

lemma snapshot_verifies:
  shows "distinct_dir d \<Longrightarrow> snapshot_dir lm depth dest d s = Inr s' \<Longrightarrow> entry_at d q = Some e'
      \<Longrightarrow> verified_entry e'"
    and "distinct (map fst xs) \<Longrightarrow> list_all (\<lambda>x. distinct_entry (snd x)) xs \<Longrightarrow>
      snapshot_entries lm depth dest xs s = Inr s' \<Longrightarrow> map_of xs n = Some e'' \<Longrightarrow> below e'' q = Some e'
      \<Longrightarrow> verified_entry e'"
    and "distinct_entry e \<Longrightarrow> snapshot_entry lm depth target e s = Inr s' \<Longrightarrow> below e q = Some e'
      \<Longrightarrow> verified_entry e'"
proof (induction lm depth dest d s and lm depth dest xs s and lm depth target e s
    arbitrary: s' q e' and s' q e' n e'' and s' q e'
    rule: snapshot_dir_snapshot_entries_snapshot_entry.induct)
  case (1 lm depth dest before es after s)
  then obtain n r e where q: "q = n # r" "map_of es n = Some e" "below e r = Some e'"
    by (cases q) (auto simp: entry_at_Cons bind_eq_Some_conv simp del: entry_at.simps(2))
  have "distinct (map fst (sort_key fst es))" "list_all (\<lambda>x. distinct_entry (snd x)) (sort_key fst es)"
    using 1(2) by (simp_all add: list_all_iff distinct_map)
  then show ?case using 1(1) 1(2,3) q by (auto simp: res_simps map_of_sorted)
next
  case (3 lm depth dest x xs s)
  then show ?case by (auto simp: res_simps split: if_splits)
next
  case (4 lm depth target st f opened sub s)
  from 4(3) obtain st' where st: "st = Some st'" by (cases st) auto
  show ?case
  proof (cases "st_kind st'")
    case Directory
    then show ?thesis using 4 st by (auto simp: below_def res_simps split: if_splits option.splits)
  next
    case Reg
    then show ?thesis using 4(3,4) st snapshot_file_Inr [of lm target st' f s s']
      by (auto simp: below_def split: if_splits)
  qed (use 4(3) st in auto)
qed simp

text \<open>The bounds a snapshot keeps at every point.\<close>

fun node_size :: "node \<Rightarrow> nat" where
  "node_size (File m data) = length data"
| "node_size (Folder m) = 0"

definition in_limits :: "snap_limits \<Rightarrow> snap \<Rightarrow> bool" where
  "in_limits lm s = (member_count s \<le> max_members lm \<and> total_bytes s \<le> max_total_bytes lm
     \<and> sum_list (map (node_size \<circ> snd) (copied s)) \<le> total_bytes s
     \<and> list_all (\<lambda>x. length (fst x) \<le> Suc max_bundle_depth \<and> node_size (snd x) \<le> max_file_bytes lm) (copied s))"

lemma count_names_Inr:
  "count_names lm names n = Inr m \<Longrightarrow> n \<le> max_members lm \<Longrightarrow> m = n + length names \<and> m \<le> max_members lm"
  by (induction lm names n rule: count_names.induct) (auto split: if_splits)

lemma length_update_le: "length (AList.update k v al) \<le> Suc (length al)"
  by (induction al) auto

lemma size_update_le:
  "sum_list (map (node_size \<circ> snd) (AList.update k v al)) \<le> sum_list (map (node_size \<circ> snd) al) + node_size v"
  by (induction al) auto

lemma list_all_update: "list_all P al \<Longrightarrow> P (k, v) \<Longrightarrow> list_all P (AList.update k v al)"
  by (induction al) auto

lemma in_limits_update:
  assumes "in_limits lm s" "length k \<le> Suc max_bundle_depth" "node_size v \<le> max_file_bytes lm"
    "total_bytes s + node_size v \<le> max_total_bytes lm" "m \<le> max_members lm"
  shows "in_limits lm (s\<lparr>member_count := m, total_bytes := total_bytes s + node_size v, copied := AList.update k v (copied s)\<rparr>)"
  using assms size_update_le [of k v "copied s"] by (auto simp: in_limits_def intro: list_all_update)

lemma snapshot_in_limits:
  shows "snapshot_dir lm depth dest d s = Inr s' \<Longrightarrow> in_limits lm s \<Longrightarrow> length dest = depth \<Longrightarrow> depth \<le> max_bundle_depth
      \<Longrightarrow> in_limits lm s' \<and> length (copied s') + member_count s \<le> Suc (length (copied s) + member_count s')"
    and "snapshot_entries lm depth dest xs s = Inr s' \<Longrightarrow> in_limits lm s \<Longrightarrow> length dest = depth \<Longrightarrow> depth \<le> max_bundle_depth
      \<Longrightarrow> in_limits lm s' \<and> length (copied s') + member_count s \<le> length (copied s) + member_count s' + length xs"
    and "snapshot_entry lm depth target e s = Inr s' \<Longrightarrow> in_limits lm s \<Longrightarrow> length target = Suc depth \<Longrightarrow> depth \<le> max_bundle_depth
      \<Longrightarrow> in_limits lm s' \<and> length (copied s') + member_count s \<le> Suc (length (copied s) + member_count s')"
proof (induction lm depth dest d s and lm depth dest xs s and lm depth target e s
    arbitrary: s' and s' and s'
    rule: snapshot_dir_snapshot_entries_snapshot_entry.induct)
  case (1 lm depth dest before es after s)
  from 1(2) obtain n where n: "count_names lm (map fst es) (member_count s) = Inr n"
    and r: "snapshot_entries lm depth dest (sort_key fst es)
       (s\<lparr>member_count := n, copied := AList.update dest (Folder 493) (copied s)\<rparr>) = Inr s'"
    by (auto simp: res_simps)
  have c: "n = member_count s + length es" "n \<le> max_members lm"
    using count_names_Inr [OF n] 1(3) by (auto simp: in_limits_def)
  have "in_limits lm (s\<lparr>member_count := n, copied := AList.update dest (Folder 493) (copied s)\<rparr>)"
    using in_limits_update [of lm s dest "Folder 493" n] 1(3-5) c(2) by (simp add: in_limits_def)
  from 1(1) [OF r this 1(4,5)] show ?case
    using length_update_le [of dest "Folder 493" "copied s"] c(1) by simp
next
  case (3 lm depth dest x xs s)
  from 3(3) obtain u where u: "snapshot_entry lm depth (dest @ [fst x]) (snd x) s = Inr u"
    and r: "snapshot_entries lm depth dest xs u = Inr s'"
    by (auto simp: res_simps)
  show ?case using 3(1) [OF u] 3(2) [OF r] 3(4-6) by simp
next
  case (4 lm depth target st f opened sub s)
  from 4(2) obtain st' where st: "st = Some st'" by (cases st) auto
  show ?case
  proof (cases "st_kind st'")
    case Directory
    then show ?thesis using 4 st by (auto simp: res_simps split: if_splits option.splits)
  next
    case Reg
    then have f: "length (content f) \<le> max_file_bytes lm" "total_bytes s + length (content f) \<le> max_total_bytes lm"
      "s' = s\<lparr>total_bytes := total_bytes s + length (content f), copied := AList.update target (File 420 (content f)) (copied s)\<rparr>"
      using 4(2) st snapshot_file_Inr [of lm target st' f s s'] by auto
    show ?thesis
      using in_limits_update [of lm s target "File 420 (content f)" "member_count s"] f 4(3-5)
        length_update_le [of target "File 420 (content f)" "copied s"] by (simp add: in_limits_def)
  qed (use 4(2) st in auto)
qed simp

text \<open>A source that does not change while it is read, and what it amounts to.\<close>

fun entry_members :: "src_entry \<Rightarrow> nat" and dir_members :: "src_dir \<Rightarrow> nat" where
  "entry_members (Src_Entry st f opened sub) =
     (if map_option st_kind st = Some Directory then dir_members sub else 0)"
| "dir_members (Src_Dir before es after) = length es + sum_list (map (\<lambda>x. entry_members (snd x)) es)"

fun entry_bytes :: "src_entry \<Rightarrow> nat" and dir_bytes :: "src_dir \<Rightarrow> nat" where
  "entry_bytes (Src_Entry st f opened sub) =
     (if map_option st_kind st = Some Directory then dir_bytes sub else length (content f))"
| "dir_bytes (Src_Dir before es after) = sum_list (map (\<lambda>x. entry_bytes (snd x)) es)"

fun quiet_entry :: "snap_limits \<Rightarrow> nat \<Rightarrow> src_entry \<Rightarrow> bool" and quiet_dir :: "snap_limits \<Rightarrow> nat \<Rightarrow> src_dir \<Rightarrow> bool" where
  "quiet_entry lm depth (Src_Entry st f opened sub) = (verified_entry (Src_Entry st f opened sub) \<and>
     (if map_option st_kind st = Some Directory then depth < max_bundle_depth \<and> quiet_dir lm (Suc depth) sub
      else map_option st_size st = Some (length (content f)) \<and> length (content f) \<le> max_file_bytes lm))"
| "quiet_dir lm depth (Src_Dir before es after) = (st_kind after = Directory \<and> st_id after = st_id before
     \<and> st_mtime after = st_mtime before \<and> st_ctime after = st_ctime before
     \<and> list_all (\<lambda>x. fst x \<notin> {[], ''.'', ''..''} \<and> quiet_entry lm depth (snd x)) es)"

lemma count_names_legal:
  "list_all (\<lambda>name. name \<notin> {[], ''.'', ''..''}) names \<Longrightarrow> n + length names \<le> max_members lm
   \<Longrightarrow> count_names lm names n = Inr (n + length names)"
  by (induction lm names n rule: count_names.induct) auto

lemma sum_list_sort_key [simp]: "sum_list (map g (sort_key f xs)) = (sum_list (map g xs) :: nat)"
proof -
  have "sum_list (map g (insort_key f x ys)) = g x + sum_list (map g ys)" for x ys
    by (induction ys) auto
  then show ?thesis by (induction xs) auto
qed

lemma snapshot_file_quiet:
  assumes "unchanged_file st f" "st_size st = length (content f)" "length (content f) \<le> max_file_bytes lm"
    "total_bytes s + length (content f) \<le> max_total_bytes lm"
  shows "snapshot_file lm target st f s = Inr (s\<lparr>total_bytes := total_bytes s + length (content f),
       copied := AList.update target (File 420 (content f)) (copied s)\<rparr>)"
proof -
  have c: "copy_chunks lm (total_bytes s) (content f) [] = Inr (content f)"
    using assms by (simp add: copy_chunks_Inr)
  show ?thesis using assms
    by (auto simp: snapshot_file_def open_verified_regular_file_def unchanged_file_def c rguard_def
        split: option.splits)
qed

lemma snapshot_quiet:
  shows "quiet_dir lm depth d \<Longrightarrow> member_count s + dir_members d \<le> max_members lm
      \<Longrightarrow> total_bytes s + dir_bytes d \<le> max_total_bytes lm
      \<Longrightarrow> \<exists>s'. snapshot_dir lm depth dest d s = Inr s' \<and> member_count s' = member_count s + dir_members d
         \<and> total_bytes s' = total_bytes s + dir_bytes d"
    and "list_all (\<lambda>x. quiet_entry lm depth (snd x)) xs
      \<Longrightarrow> member_count s + sum_list (map (\<lambda>x. entry_members (snd x)) xs) \<le> max_members lm
      \<Longrightarrow> total_bytes s + sum_list (map (\<lambda>x. entry_bytes (snd x)) xs) \<le> max_total_bytes lm
      \<Longrightarrow> \<exists>s'. snapshot_entries lm depth dest xs s = Inr s'
         \<and> member_count s' = member_count s + sum_list (map (\<lambda>x. entry_members (snd x)) xs)
         \<and> total_bytes s' = total_bytes s + sum_list (map (\<lambda>x. entry_bytes (snd x)) xs)"
    and "quiet_entry lm depth e \<Longrightarrow> member_count s + entry_members e \<le> max_members lm
      \<Longrightarrow> total_bytes s + entry_bytes e \<le> max_total_bytes lm
      \<Longrightarrow> \<exists>s'. snapshot_entry lm depth target e s = Inr s' \<and> member_count s' = member_count s + entry_members e
         \<and> total_bytes s' = total_bytes s + entry_bytes e"
proof (induction lm depth dest d s and lm depth dest xs s and lm depth target e s
    rule: snapshot_dir_snapshot_entries_snapshot_entry.induct)
  case (1 lm depth dest before es after s)
  have l: "list_all (\<lambda>x. quiet_entry lm depth (snd x)) (sort_key fst es)"
    using 1(2) by (auto simp: list_all_iff)
  have c: "count_names lm (map fst es) (member_count s) = Inr (member_count s + length es)"
    using count_names_legal [of "map fst es" "member_count s" lm] 1(2,3) by (auto simp: list_all_iff)
  have "\<exists>s'. snapshot_entries lm depth dest (sort_key fst es)
       (s\<lparr>member_count := member_count s + length es, copied := AList.update dest (Folder 493) (copied s)\<rparr>) = Inr s'
       \<and> member_count s' = member_count s + length es + sum_list (map (\<lambda>x. entry_members (snd x)) es)
       \<and> total_bytes s' = total_bytes s + sum_list (map (\<lambda>x. entry_bytes (snd x)) es)"
    using 1(1) [OF l] 1(3,4) by simp
  then show ?case using c 1(2) by (auto simp: rguard_def)
next
  case (3 lm depth dest x xs s)
  from 3(1) 3(3-5) obtain u where u: "snapshot_entry lm depth (dest @ [fst x]) (snd x) s = Inr u"
    "member_count u = member_count s + entry_members (snd x)" "total_bytes u = total_bytes s + entry_bytes (snd x)"
    by auto
  with 3(2) [of u] 3(3-5) show ?case by auto
next
  case (4 lm depth target st f opened sub s)
  from 4(2) obtain st' where st: "st = Some st'" by (cases st) auto
  show ?case
  proof (cases "st_kind st'")
    case Directory
    with 4(2) st obtain fd where "opened = Some fd" "st_kind fd = Directory" "st_id fd = st_id st'"
      by auto
    then show ?thesis using 4 st Directory by (auto simp: rguard_def)
  next
    case Reg
    then show ?thesis using 4(2-4) st snapshot_file_quiet [of st' f lm s target] by auto
  qed (use 4(2) st in auto)
qed simp

text \<open>
  C15: When the snapshot of a source directory succeeds, the copy is exact: a path holds a folder or the
  bytes of a file exactly as the source does, every copied entry was verified (never a symbolic link, a
  device or a file with a second name; the same file at every look and unchanged while it was read), at
  most the permitted number of entries and bytes is copied, no file is larger than the limit and nothing
  lies deeper than 65 levels. And a source that does not change and is within the limits is copied.
\<close>

theorem snapshot_exact:
  assumes "distinct_dir d"
  shows "(snapshot_files_source lm (Some d) = Inr s \<longrightarrow>
      map_of (copied s) = dir_nodes d \<and> (\<forall>q e. entry_at d q = Some e \<longrightarrow> verified_entry e)
      \<and> length (copied s) \<le> Suc (max_members lm)
      \<and> sum_list (map (node_size \<circ> snd) (copied s)) \<le> max_total_bytes lm
      \<and> list_all (\<lambda>x. length (fst x) \<le> 65 \<and> node_size (snd x) \<le> max_file_bytes lm) (copied s))
    \<and> (quiet_dir lm 0 d \<longrightarrow> dir_members d \<le> max_members lm \<longrightarrow> dir_bytes d \<le> max_total_bytes lm
        \<longrightarrow> (\<exists>s'. snapshot_files_source lm (Some d) = Inr s'))"
proof (intro conjI impI)
  let ?s = "\<lparr>member_count = 0, total_bytes = 0, copied = []\<rparr>"
  assume "snapshot_files_source lm (Some d) = Inr s"
  then have run: "snapshot_dir lm 0 [] d ?s = Inr s" by (simp add: snapshot_files_source_def)
  show "map_of (copied s) = dir_nodes d" using snapshot_copies(1) [OF assms run] by simp
  show "\<forall>q e. entry_at d q = Some e \<longrightarrow> verified_entry e" using snapshot_verifies(1) [OF assms run] by blast
  have "in_limits lm ?s" by (simp add: in_limits_def)
  from snapshot_in_limits(1) [OF run this] have b: "in_limits lm s" "length (copied s) \<le> Suc (member_count s)"
    by auto
  then show "length (copied s) \<le> Suc (max_members lm)"
    "sum_list (map (node_size \<circ> snd) (copied s)) \<le> max_total_bytes lm"
    "list_all (\<lambda>x. length (fst x) \<le> 65 \<and> node_size (snd x) \<le> max_file_bytes lm) (copied s)"
    by (auto simp: in_limits_def max_bundle_depth_def)
next
  assume "quiet_dir lm 0 d" "dir_members d \<le> max_members lm" "dir_bytes d \<le> max_total_bytes lm"
  then show "\<exists>s'. snapshot_files_source lm (Some d) = Inr s'"
    using snapshot_quiet(1) [of lm 0 d "\<lparr>member_count = 0, total_bytes = 0, copied = []\<rparr>"]
    by (auto simp: snapshot_files_source_def)
qed

text \<open>Sample source: a folder with one file inside, next to a file.\<close>

definition sample_stat :: "fkind \<Rightarrow> nat \<Rightarrow> nat \<Rightarrow> fstat" where
  "sample_stat k i n = \<lparr>st_kind = k, st_nlink = 1, st_id = (1, i), st_size = n, st_mtime = 0, st_ctime = 0\<rparr>"

definition sample_file :: "nat \<Rightarrow> string \<Rightarrow> src_entry" where
  "sample_file i data = (let st = sample_stat Reg i (length data) in
     Src_Entry (Some st) \<lparr>pinned = Some st, readable = Some st, confirmed = st, content = data, after_read = st\<rparr>
       None (Src_Dir st [] st))"

definition sample_folder :: "nat \<Rightarrow> (string \<times> src_entry) list \<Rightarrow> src_entry" where
  "sample_folder i es = (let st = sample_stat Directory i 0 in
     Src_Entry (Some st) \<lparr>pinned = None, readable = None, confirmed = st, content = [], after_read = st\<rparr>
       (Some st) (Src_Dir st es st))"

definition sample_source :: src_dir where
  "sample_source = (let st = sample_stat Directory 1 0 in
     Src_Dir st [(''site'', sample_folder 2 [(''index.html'', sample_file 3 ''hello'')]), (''Caddyfile'', sample_file 4 '':80'')] st)"

definition sample_limits :: snap_limits where
  "sample_limits = \<lparr>max_file_bytes = 10, max_total_bytes = 20, max_members = 3\<rparr>"

lemmas sample_source_simps = sample_source_def sample_folder_def sample_file_def sample_stat_def sample_limits_def
  Let_def single_regular_def same_version_def unchanged_file_def max_bundle_depth_def

lemma sample_distinct: "distinct_dir sample_source"
  by (simp add: sample_source_simps)

theorem snapshot_exact_witness:
  "\<exists>s. snapshot_files_source sample_limits (Some sample_source) = Inr s
     \<and> map_of (copied s) [''site'', ''index.html''] = Some (File 420 ''hello'')
     \<and> map_of (copied s) [''Caddyfile'', ''x''] = None
     \<and> length (copied s) \<le> 4"
proof -
  note ex = snapshot_exact [OF sample_distinct, of sample_limits]
  have "quiet_dir sample_limits 0 sample_source" "dir_members sample_source \<le> max_members sample_limits"
    "dir_bytes sample_source \<le> max_total_bytes sample_limits"
    by (simp_all add: sample_source_simps)
  with ex obtain s where s: "snapshot_files_source sample_limits (Some sample_source) = Inr s" by blast
  have "dir_nodes sample_source [''site'', ''index.html''] = Some (File 420 ''hello'')"
    "dir_nodes sample_source [''Caddyfile'', ''x''] = None" "Suc (max_members sample_limits) = 4"
    by (simp_all add: dir_nodes_def sample_source_simps)
  with ex [of s] s show ?thesis by auto
qed

end
