(* ===== verification/Managed_Access.thy ===== *)
theory Managed_Access
  imports Bundle_Files
begin

text \<open>
  Owners, modes and access control lists of the managed files, \<^verbatim>\<open>bundle.py\<close>:
  \<^verbatim>\<open>_read_only_access_acl\<close>, \<^verbatim>\<open>_apply_managed_access\<close>,
  \<^verbatim>\<open>_grant_managed_dir_access\<close> and \<^verbatim>\<open>grant_managed_file_access\<close>. The tree is
  observed as in \<open>Bundle_Files\<close>; the access data of a path is what the calls on its descriptor set. A call
  that fails leaves what was set before. Whether the file system takes or clears an access control list is a
  parameter, as are the identities of \<^verbatim>\<open>appsvc\<close> and the reader group.
\<close>

unbundle bit_operations_syntax

section \<open>Definitions\<close>

subsection \<open>Access control lists\<close>

text \<open>\<^verbatim>\<open>struct.pack\<close> of an unsigned number in \<open>k\<close> bytes, least significant first.\<close>

fun pack_le :: "nat \<Rightarrow> nat \<Rightarrow> string" where
  "pack_le 0 n = []"
| "pack_le (Suc k) n = char_of (n mod 256) # pack_le k (n div 256)"

definition read_only_access_acl :: "nat \<Rightarrow> nat \<Rightarrow> string" where
  "read_only_access_acl app_uid perm =
     pack_le 4 2 @ concat (map (\<lambda>(tag, entry_perm, entry_id). pack_le 2 tag @ pack_le 2 entry_perm @ pack_le 4 entry_id)
       [(1, perm, 4294967295), (2, perm, app_uid), (4, perm, 4294967295), (16, perm, 4294967295), (32, 0, 4294967295)])"

subsection \<open>Setting the access of one descriptor\<close>

record access =
  a_uid :: nat
  a_gid :: nat
  a_mode :: nat
  a_acl :: "string option"

record access_env =
  app_identity :: "nat option"
  reader_identity :: "nat option"
  takes_acl :: "path \<Rightarrow> bool"
  clears_acl :: "path \<Rightarrow> bool"
  member_limit :: nat

record access_state =
  seen :: nat
  acc :: "path \<rightharpoonup> access"

definition old_acl :: "access_state \<Rightarrow> path \<Rightarrow> string option" where
  "old_acl s p = Option.bind (acc s p) a_acl"

definition apply_managed_access :: "access_env \<Rightarrow> nat \<Rightarrow> nat \<Rightarrow> bool \<Rightarrow> bool \<Rightarrow> path \<Rightarrow> access_state \<Rightarrow> unit res \<times> access_state" where
  "apply_managed_access env app_uid reader_gid directory writable p s =
     (if writable then
        (if \<not> clears_acl env p then (Inl (OSErr ''removexattr''), s)
         else (Inr (), s\<lparr>acc := (acc s)(p \<mapsto> \<lparr>a_uid = app_uid, a_gid = reader_gid,
                 a_mode = if directory then 488 else 416, a_acl = None\<rparr>)\<rparr>))
      else
        (let base = \<lparr>a_uid = 0, a_gid = reader_gid, a_mode = if directory then 360 else 288, a_acl = old_acl s p\<rparr> in
         if takes_acl env p
         then (Inr (), s\<lparr>acc := (acc s)(p \<mapsto> base\<lparr>a_acl := Some (read_only_access_acl app_uid (if directory then 5 else 4))\<rparr>)\<rparr>)
         else (Inl (ProvisionError ''cannot apply managed-file ACL; /data must support POSIX ACLs''),
               s\<lparr>acc := (acc s)(p \<mapsto> base)\<rparr>)))"

subsection \<open>Granting access to a tree\<close>

definition changed_entry :: error where
  "changed_entry = ProvisionError ''bundle files entry changed during reconciliation''"

definition not_regular :: error where
  "not_regular = ProvisionError ''bundle files entry must be a regular file''"

text \<open>
  Opening an entry and looking at the descriptor: the \<^verbatim>\<open>confirmed\<close> stat. Opening with
  \<^verbatim>\<open>O_DIRECTORY\<close> fails on anything else.
\<close>

definition confirm_entry :: "nat \<Rightarrow> fstat option \<Rightarrow> file_obs \<Rightarrow> fstat option \<Rightarrow> fstat res" where
  "confirm_entry depth st f opened = (case st of
     None \<Rightarrow> Inl (OSErr ''stat'')
   | Some st' \<Rightarrow>
       rbind (rguard (st_kind st' \<noteq> Symlink) (ProvisionError ''bundle files entry must not be a symlink'')) (\<lambda>_.
       rbind (rguard (st_kind st' = Directory \<or> st_kind st' = Reg) not_regular) (\<lambda>_.
       rbind (if st_kind st' = Directory
              then rbind (rguard (depth < max_bundle_depth) (ProvisionError ''bundle exceeds 64 directory depth limit'')) (\<lambda>_.
                   case opened of
                     None \<Rightarrow> Inl (OSErr ''open'')
                   | Some fd \<Rightarrow> if st_kind fd = Directory then Inr fd else Inl (OSErr ''open''))
              else rbind (open_verified_regular_file f st' changed_entry) (\<lambda>_. Inr (confirmed f))) (\<lambda>fd.
       rbind (rguard (st_id fd = st_id st') changed_entry) (\<lambda>_.
       rbind (rguard (st_kind fd = Reg \<longrightarrow> st_nlink fd = 1) not_single) (\<lambda>_.
       rbind (rguard (st_kind fd = Directory \<or> st_kind fd = Reg) not_regular) (\<lambda>_.
       Inr fd)))))))"

definition then_do :: "unit res \<times> 's \<Rightarrow> ('s \<Rightarrow> unit res \<times> 's) \<Rightarrow> unit res \<times> 's" where
  "then_do r k = (case r of (Inl e, s) \<Rightarrow> (Inl e, s) | (Inr u, s) \<Rightarrow> k s)"

fun grant_managed_dir_access :: "access_env \<Rightarrow> nat \<Rightarrow> nat \<Rightarrow> bool \<Rightarrow> nat \<Rightarrow> path \<Rightarrow> (string \<times> src_entry) list
      \<Rightarrow> access_state \<Rightarrow> unit res \<times> access_state"
  and grant_entry :: "access_env \<Rightarrow> nat \<Rightarrow> nat \<Rightarrow> bool \<Rightarrow> nat \<Rightarrow> path \<Rightarrow> src_entry
      \<Rightarrow> access_state \<Rightarrow> unit res \<times> access_state"
where
  "grant_managed_dir_access env app_uid reader_gid writable depth path [] s = (Inr (), s)"
| "grant_managed_dir_access env app_uid reader_gid writable depth path (x # xs) s =
     (if seen s \<ge> member_limit env then (Inl (exceeds_members (member_limit env)), s)
      else then_do (grant_entry env app_uid reader_gid writable depth (path @ [fst x]) (snd x) (s\<lparr>seen := Suc (seen s)\<rparr>))
        (\<lambda>s1. grant_managed_dir_access env app_uid reader_gid writable depth path xs s1))"
| "grant_entry env app_uid reader_gid writable depth current (Src_Entry st f opened (Src_Dir before es after)) s =
     (case confirm_entry depth st f opened of
        Inl e \<Rightarrow> (Inl e, s)
      | Inr fd \<Rightarrow>
          then_do (apply_managed_access env app_uid reader_gid (st_kind fd = Directory) writable current s) (\<lambda>s1.
          if st_kind fd = Directory
          then grant_managed_dir_access env app_uid reader_gid writable (Suc depth) current es s1
          else (Inr (), s1)))"

text \<open>\<open>root\<close> is the \<^verbatim>\<open>lstat\<close> of the path and, when it opens as a directory, its entries.\<close>

definition grant_managed_file_access :: "access_env \<Rightarrow> fkind option \<Rightarrow> src_dir option \<Rightarrow> bool \<Rightarrow> access_state \<Rightarrow> unit res \<times> access_state" where
  "grant_managed_file_access env lst dir writable s = (case lst of
     None \<Rightarrow> (Inr (), s)
   | Some k \<Rightarrow>
       (if k \<noteq> Directory then (Inl (ProvisionError ''managed files root must be a directory''), s)
        else case (app_identity env, reader_identity env) of
          (Some app_uid, Some reader_gid) \<Rightarrow> (case dir of
             None \<Rightarrow> (Inl (ProvisionError ''failed to open bundle directory without following symlinks''), s)
           | Some (Src_Dir before es after) \<Rightarrow>
               then_do (apply_managed_access env app_uid reader_gid True writable [] (s\<lparr>seen := 0\<rparr>))
                 (\<lambda>s1. grant_managed_dir_access env app_uid reader_gid writable 0 [] es s1))
        | _ \<Rightarrow> (Inl (ProvisionError ''managed-file identity not found''), s)))"

section \<open>Who may do what\<close>

text \<open>
  The meaning of an access control list, acl(5): the entries of the attribute, and the permissions a process
  gets from them. The owner gets the owner entry, a named user its entry and a member of the group the group
  entry, both cut down to the mask, anybody else the last entry.
\<close>

fun unpack_le :: "string \<Rightarrow> nat" where
  "unpack_le [] = 0"
| "unpack_le (c # cs) = of_char c + 256 * unpack_le cs"

fun acl_entries :: "string \<Rightarrow> (nat \<times> nat \<times> nat) list" where
  "acl_entries (a # b # c # d # e # f # g # h # rest) =
     (unpack_le [a, b], unpack_le [c, d], unpack_le [e, f, g, h]) # acl_entries rest"
| "acl_entries other = []"

definition acl_perm :: "(nat \<times> nat \<times> nat) list \<Rightarrow> nat \<Rightarrow> nat \<Rightarrow> nat \<Rightarrow> nat list \<Rightarrow> nat option" where
  "acl_perm es owner grp uid gids = (let perm = (\<lambda>tag. map_of (map (\<lambda>(t, p, i). (t, p)) es) tag) in
     if uid = owner then perm 1
     else case map_of (map (\<lambda>(t, p, i). ((t, i), p)) es) (2, uid) of
       Some p \<Rightarrow> map_option (\<lambda>m. p AND m) (perm 16)
     | None \<Rightarrow> if grp \<in> set gids
         then Option.bind (perm 4) (\<lambda>p. map_option (\<lambda>m. p AND m) (perm 16)) else perm 32)"

lemma unpack_pack: "n < 256 ^ k \<Longrightarrow> unpack_le (pack_le k n) = n"
proof (induction k arbitrary: n)
  case (Suc k)
  then have "n div 256 < 256 ^ k" by (simp add: less_mult_imp_div_less mult.commute)
  with Suc.IH show ?case by simp
qed simp

lemma pack_le_2: "pack_le 2 n = [char_of (n mod 256), char_of (n div 256 mod 256)]"
  by (simp add: numeral_2_eq_2)

lemma pack_le_4: "pack_le 4 n = [char_of (n mod 256), char_of (n div 256 mod 256),
    char_of (n div 256 div 256 mod 256), char_of (n div 256 div 256 div 256 mod 256)]"
proof -
  have four: "4 = Suc (Suc (Suc (Suc 0)))" by simp
  show ?thesis unfolding four pack_le.simps by (rule refl)
qed

lemma acl_entries_pack:
  assumes "t < 65536" "p < 65536" "i < 4294967296"
  shows "acl_entries (pack_le 2 t @ pack_le 2 p @ pack_le 4 i @ rest) = (t, p, i) # acl_entries rest"
proof -
  have "unpack_le (pack_le 2 t) = t" "unpack_le (pack_le 2 p) = p" "unpack_le (pack_le 4 i) = i"
    using assms by (simp_all add: unpack_pack)
  then show ?thesis by (simp add: pack_le_2 pack_le_4)
qed

lemma acl_entries_read_only:
  assumes "uid < 4294967296" "perm < 65536"
  shows "acl_entries (drop 4 (read_only_access_acl uid perm)) =
     [(1, perm, 4294967295), (2, perm, uid), (4, perm, 4294967295), (16, perm, 4294967295), (32, 0, 4294967295)]"
proof -
  have "length (pack_le 4 2) = 4" by (simp add: pack_le_4)
  then show ?thesis using assms
    by (simp add: read_only_access_acl_def acl_entries_pack acl_entries_pack [where rest = "[]", simplified])
qed

lemma read_only_perms:
  assumes "uid < 4294967296" "perm < 65536" "owner \<noteq> uid"
  shows "acl_perm (acl_entries (drop 4 (read_only_access_acl uid perm))) owner grp uid gids = Some perm"
    and "uid' \<noteq> owner \<Longrightarrow> uid' \<noteq> uid \<Longrightarrow>
      acl_perm (acl_entries (drop 4 (read_only_access_acl uid perm))) owner grp uid' gids =
        Some (if grp \<in> set gids then perm else 0)"
  using assms by (simp_all add: acl_entries_read_only acl_perm_def Let_def)

section \<open>The workload can read the managed files and cannot change them\<close>

lemma then_do_Inr: "then_do r k = (Inr u, s') \<longleftrightarrow> (\<exists>s. r = (Inr (), s) \<and> k s = (Inr u, s'))"
  by (auto simp: then_do_def split: prod.splits sum.splits)

definition granted :: "nat \<Rightarrow> nat \<Rightarrow> bool \<Rightarrow> bool \<Rightarrow> access" where
  "granted app_uid reader_gid writable directory =
     (if writable then \<lparr>a_uid = app_uid, a_gid = reader_gid, a_mode = if directory then 488 else 416, a_acl = None\<rparr>
      else \<lparr>a_uid = 0, a_gid = reader_gid, a_mode = if directory then 360 else 288,
             a_acl = Some (read_only_access_acl app_uid (if directory then 5 else 4))\<rparr>)"

lemma apply_managed_access_Inr:
  "apply_managed_access env app_uid reader_gid directory writable p s = (Inr u, s')
   \<Longrightarrow> s' = s\<lparr>acc := (acc s)(p \<mapsto> granted app_uid reader_gid writable directory)\<rparr>"
  by (auto simp: apply_managed_access_def granted_def Let_def split: if_splits)

lemma apply_frame:
  "q \<noteq> p \<Longrightarrow> acc (snd (apply_managed_access env app_uid reader_gid directory writable p s)) q = acc s q"
  by (auto simp: apply_managed_access_def Let_def)

lemma confirm_entry_Inr:
  "confirm_entry depth st f opened = Inr fd \<Longrightarrow>
     \<exists>st'. st = Some st' \<and> (st_kind st' = Directory \<and> st_kind fd = Directory \<or> st_kind st' = Reg \<and> fd = confirmed f)"
  by (auto simp: confirm_entry_def res_simps split: option.splits if_splits)

text \<open>Granting access below a path changes nothing beside it, whatever happens.\<close>

lemma grant_frame:
  shows "(\<And>n. n \<in> fst ` set xs \<Longrightarrow> \<not> prefix (path @ [n]) q) \<Longrightarrow>
      acc (snd (grant_managed_dir_access env app_uid reader_gid writable depth path xs s)) q = acc s q"
    and "\<not> prefix current q \<Longrightarrow>
      acc (snd (grant_entry env app_uid reader_gid writable depth current e s)) q = acc s q"
proof (induction env app_uid reader_gid writable depth path xs s and env app_uid reader_gid writable depth current e s
    rule: grant_managed_dir_access_grant_entry.induct)
  case (2 env app_uid reader_gid writable depth path x xs s)
  then show ?case by (auto simp: then_do_def split: prod.splits sum.splits)
next
  case (3 env app_uid reader_gid writable depth current st f opened before es after s)
  have ne: "q \<noteq> current" "\<not> prefix (current @ [n]) q" for n using 3(2) by (auto dest: append_prefixD)
  with 3(1) apply_frame [OF ne(1), of env app_uid reader_gid _ writable s]
  show ?case by (auto simp: then_do_def split: prod.splits sum.splits) (metis snd_conv)+
qed simp

fun opened_as_dir :: "src_entry \<Rightarrow> bool" where
  "opened_as_dir (Src_Entry st f opened sub) =
     (map_option st_kind st = Some Directory \<or> st_kind (confirmed f) = Directory)"

lemma grant_reaches:
  shows "grant_managed_dir_access env app_uid reader_gid writable depth path xs s = (Inr u, s') \<Longrightarrow>
      distinct (map fst xs) \<Longrightarrow> list_all (\<lambda>x. distinct_entry (snd x)) xs \<Longrightarrow>
      map_of xs n = Some e0 \<Longrightarrow> below e0 r = Some e' \<Longrightarrow>
      acc s' (path @ n # r) = Some (granted app_uid reader_gid writable (opened_as_dir e'))"
    and "grant_entry env app_uid reader_gid writable depth current e s = (Inr u, s') \<Longrightarrow> distinct_entry e \<Longrightarrow>
      below e r = Some e' \<Longrightarrow> acc s' (current @ r) = Some (granted app_uid reader_gid writable (opened_as_dir e'))"
proof (induction env app_uid reader_gid writable depth path xs s and env app_uid reader_gid writable depth current e s
    arbitrary: u s' n e0 r e' and u s' r e'
    rule: grant_managed_dir_access_grant_entry.induct)
  case (2 env app_uid reader_gid writable depth path x xs s)
  from 2(3) obtain s1 where lt: "\<not> seen s \<ge> member_limit env"
    and s1: "grant_entry env app_uid reader_gid writable depth (path @ [fst x]) (snd x) (s\<lparr>seen := Suc (seen s)\<rparr>) = (Inr (), s1)"
    and r1: "grant_managed_dir_access env app_uid reader_gid writable depth path xs s1 = (Inr u, s')"
    by (auto simp: then_do_Inr split: if_splits)
  show ?case
  proof (cases "n = fst x")
    case True
    have "m \<in> fst ` set xs \<Longrightarrow> \<not> prefix (path @ [m]) (path @ n # r)" for m
      using 2(4) True by (auto simp: image_iff)
    from grant_frame(1) [of xs path "path @ n # r", OF this, of env app_uid reader_gid writable depth s1] r1
    have "acc s' (path @ n # r) = acc s1 (path @ n # r)" by simp
    then show ?thesis using 2(1) [OF lt s1] 2(5-7) True by simp
  next
    case False
    then show ?thesis using 2(2) [OF lt r1] 2(4-7) by simp
  qed
next
  case (3 env app_uid reader_gid writable depth current st f opened before es after s)
  from 3(2) obtain fd s1 where fd: "confirm_entry depth st f opened = Inr fd"
    and a: "apply_managed_access env app_uid reader_gid (st_kind fd = Directory) writable current s = (Inr (), s1)"
    and r1: "(if st_kind fd = Directory then grant_managed_dir_access env app_uid reader_gid writable (Suc depth) current es s1
      else (Inr (), s1)) = (Inr u, s')"
    by (auto simp: then_do_Inr split: sum.splits)
  obtain st' where st: "st = Some st'"
    and k: "st_kind st' = Directory \<and> st_kind fd = Directory \<or> st_kind st' = Reg \<and> fd = confirmed f"
    using confirm_entry_Inr [OF fd] by blast
  show ?case
  proof (cases r)
    case Nil
    have "acc s' current = acc s1 current"
      using r1 grant_frame(1) [of es current current env app_uid reader_gid writable "Suc depth" s1]
      by (auto split: if_splits)
    then show ?thesis using Nil 3(4) k st apply_managed_access_Inr [OF a] by (auto simp: below_def)
  next
    case (Cons n r')
    with 3(4) st have d: "st_kind st' = Directory" and at: "entry_at (Src_Dir before es after) (n # r') = Some e'"
      by (auto simp: below_def split: if_splits simp del: entry_at.simps)
    from at obtain e0 where "map_of es n = Some e0" "below e0 r' = Some e'"
      by (auto simp: entry_at_Cons bind_eq_Some_conv simp del: entry_at.simps)
    then show ?thesis using 3(1) [OF fd] d k r1 3(3) Cons by auto
  qed
qed simp

text \<open>
  C16: When the managed files are granted read-only, every file and folder below the root, and the root itself,
  belongs to the superuser and the reader group; under its access control list \<^verbatim>\<open>appsvc\<close> may read
  a file (4) and read and enter a folder (5), and may never write; users outside the reader group may do
  nothing. As \<^verbatim>\<open>appsvc\<close> is not the owner, it cannot change these rights.
\<close>

theorem managed_files_read_only:
  assumes "grant_managed_file_access env (Some Directory) (Some d) False s = (Inr (), s')"
    and "distinct_dir d" and "app_identity env = Some uid" and "reader_identity env = Some g"
    and "0 < uid" and "uid < 4294967296"
    and "p = [] \<and> directory \<or> map_option opened_as_dir (entry_at d p) = Some directory"
  shows "\<exists>acl. acc s' p = Some \<lparr>a_uid = 0, a_gid = g, a_mode = if directory then 360 else 288, a_acl = Some acl\<rparr>
    \<and> acl_perm (acl_entries (drop 4 acl)) 0 g uid gids = Some (if directory then 5 else 4)
    \<and> (\<forall>uid' gids'. uid' \<notin> {0, uid} \<longrightarrow> g \<notin> set gids' \<longrightarrow> acl_perm (acl_entries (drop 4 acl)) 0 g uid' gids' = Some 0)"
proof -
  obtain before es after where d: "d = Src_Dir before es after" by (cases d)
  from assms(1,3,4) obtain s1 where
    a: "apply_managed_access env uid g True False [] (s\<lparr>seen := 0\<rparr>) = (Inr (), s1)"
    and r: "grant_managed_dir_access env uid g False 0 [] es s1 = (Inr (), s')"
    by (auto simp: grant_managed_file_access_def then_do_Inr d)
  have "acc s' p = Some (granted uid g False directory)"
  proof (cases p)
    case Nil
    then have "acc s' p = acc s1 p" "directory"
      using grant_frame(1) [of es "[]" p env uid g False 0 s1] r assms(7) d by auto
    then show ?thesis using apply_managed_access_Inr [OF a] Nil by simp
  next
    case (Cons n q)
    with assms(7) obtain e e0 where "map_of es n = Some e0" "below e0 q = Some e" "opened_as_dir e = directory"
      by (auto simp: d entry_at_Cons bind_eq_Some_conv simp del: entry_at.simps)
    then show ?thesis using grant_reaches(1) [OF r] assms(2) d Cons by auto
  qed
  then show ?thesis using assms(5,6) read_only_perms [of uid "if directory then 5 else 4" 0]
    by (auto simp: granted_def)
qed

definition sample_access_env :: access_env where
  "sample_access_env = \<lparr>app_identity = Some 900, reader_identity = Some 901, takes_acl = (\<lambda>p. True),
     clears_acl = (\<lambda>p. True), member_limit = 3\<rparr>"

theorem managed_files_read_only_witness:
  "\<exists>s' acl. grant_managed_file_access sample_access_env (Some Directory) (Some sample_source) False
       \<lparr>seen = 0, acc = Map.empty\<rparr> = (Inr (), s')
     \<and> acc s' [''site'', ''index.html''] = Some \<lparr>a_uid = 0, a_gid = 901, a_mode = 288, a_acl = Some acl\<rparr>
     \<and> acl_perm (acl_entries (drop 4 acl)) 0 901 900 [901] = Some 4"
proof -
  let ?r = "grant_managed_file_access sample_access_env (Some Directory) (Some sample_source) False \<lparr>seen = 0, acc = Map.empty\<rparr>"
  have "fst ?r = Inr ()"
    by (simp add: grant_managed_file_access_def sample_access_env_def sample_source_simps apply_managed_access_def
        confirm_entry_def open_verified_regular_file_def then_do_def)
  then have r: "?r = (Inr (), snd ?r)" by (metis prod.collapse)
  have "entry_at sample_source [''site'', ''index.html''] = Some (sample_file 3 ''hello'')"
    by (simp add: sample_source_simps)
  then have "map_option opened_as_dir (entry_at sample_source [''site'', ''index.html'']) = Some False"
    by (simp add: sample_source_simps)
  then show ?thesis
    using managed_files_read_only [OF r sample_distinct, of 900 901 "[''site'', ''index.html'']" False "[901]"] r
    by (auto simp: sample_access_env_def)
qed

end
