(* ===== verification/Bundle_Archive.thy ===== *)
theory Bundle_Archive
  imports Bundle_Files
begin

text \<open>
  Bundles as archives, \<^verbatim>\<open>bundle.py\<close>: detection, decompression, extraction
  (\<^verbatim>\<open>extract_bundle_archive\<close>, \<^verbatim>\<open>validate_bundle_layout\<close>,
  \<^verbatim>\<open>prepare_source_bytes\<close>, \<^verbatim>\<open>prepare_source_path\<close>) and export
  (\<^verbatim>\<open>_read_export_file\<close>, \<^verbatim>\<open>_build_export_tar\<close>,
  \<^verbatim>\<open>export_bundle_bytes\<close>).

  Bytes are strings. A tar file is the list of members that \<^verbatim>\<open>tarfile\<close> reports, with a flag for
  an archive that breaks off; the encoding of members as bytes, the gzip and zstd programs and the modes that
  the umask leaves to new files are parameters. Files are written to a dict from absolute paths to nodes in
  which names are resolved like the kernel does, \<^verbatim>\<open>..\<close> included, so that a member could in
  principle reach any path. Extraction starts in a private directory without symbolic links and creates none.
\<close>

section \<open>Definitions\<close>

record bundle_limits =
  max_source_bytes :: nat
  max_decompressed_bytes :: nat
  max_bundle_members :: nat
  max_bundle_member_bytes :: nat

subsection \<open>Detection and validation\<close>

datatype bundle_kind = Tar_Gz | Tar_Zst

definition gzip_magic :: string where
  "gzip_magic = [CHR 0x1F, CHR 0x8B]"

definition zstd_magic :: string where
  "zstd_magic = [CHR 0x28, CHR 0xB5, CHR 0x2F, CHR 0xFD]"

definition detect_bundle_kind :: "string \<Rightarrow> string \<Rightarrow> bundle_kind option" where
  "detect_bundle_kind source filename = (let lowered = lower filename in
     if list_ex (\<lambda>e. ends_with e lowered) [''.tar.gz'', ''.tgz''] \<or> starts_with gzip_magic source then Some Tar_Gz
     else if list_ex (\<lambda>e. ends_with e lowered) [''.tar.zst'', ''.tar.zstd'', ''.tzst''] \<or> starts_with zstd_magic source
     then Some Tar_Zst else None)"

text \<open>\<^verbatim>\<open>Path(name).parts\<close> without the root, and \<^verbatim>\<open>is_absolute\<close>.\<close>

definition path_parts :: "string \<Rightarrow> path" where
  "path_parts name = filter (\<lambda>p. p \<noteq> [] \<and> p \<noteq> ''.'') (split_on CHR ''/'' name)"

definition validate_bundle_member :: "string \<Rightarrow> unit res" where
  "validate_bundle_member name =
     rguard (\<not> (starts_with ''/'' name \<or> ''..'' \<in> set (path_parts name) \<or> name = []))
       (ProvisionError ''invalid bundle member path'')"

definition validate_source_size :: "bundle_limits \<Rightarrow> nat \<Rightarrow> unit res" where
  "validate_source_size lims n = rguard (n \<le> max_source_bytes lims) (ProvisionError ''config upload exceeds byte limit'')"

subsection \<open>Decompression\<close>

datatype decompressor = Tool_Missing | Tool_Ran "string list" "(int \<times> string) option"

fun decompress_loop :: "nat \<Rightarrow> string list \<Rightarrow> string \<Rightarrow> string res" where
  "decompress_loop limit [] out = Inr out"
| "decompress_loop limit (chunk # chunks) out =
     (if chunk = [] then Inr out
      else if length out + length chunk > limit then Inl (exceeds_total limit)
      else decompress_loop limit chunks (out @ chunk))"

definition decompress_to_tempfile :: "bundle_limits \<Rightarrow> decompressor \<Rightarrow> string res" where
  "decompress_to_tempfile lims tool = (case tool of
     Tool_Missing \<Rightarrow> Inl (ProvisionError ''decompression tool is required'')
   | Tool_Ran chunks ended \<Rightarrow>
       rbind (decompress_loop (max_decompressed_bytes lims) chunks []) (\<lambda>out.
       case ended of
         None \<Rightarrow> Inl (ProvisionError ''timed out decompressing bundle'')
       | Some (returncode, stderr) \<Rightarrow>
           rbind (rguard (returncode = 0) (ProvisionError (''failed to decompress bundle'' @
             (if strip stderr = [] then [] else '': '' @ strip stderr)))) (\<lambda>_. Inr out)))"

subsection \<open>The file system\<close>

fun resolve :: "path \<Rightarrow> path \<Rightarrow> path" where
  "resolve cwd [] = cwd"
| "resolve cwd (p # ps) = resolve (if p = ''..'' then butlast cwd else cwd @ [p]) ps"

text \<open>\<^verbatim>\<open>destination / name\<close>: an absolute name replaces the destination.\<close>

definition join_path :: "path \<Rightarrow> string \<Rightarrow> path" where
  "join_path dest name = resolve (if starts_with ''/'' name then [] else dest) (path_parts name)"

text \<open>\<^verbatim>\<open>mkdir(parents=True, exist_ok=True)\<close>: the ancestors, outermost first.\<close>

fun mkdirs :: "nat \<Rightarrow> path list \<Rightarrow> fs \<Rightarrow> unit res \<times> fs" where
  "mkdirs mode [] files = (Inr (), files)"
| "mkdirs mode (p # ps) files = (case map_of files p of
     None \<Rightarrow> mkdirs mode ps (AList.update p (Folder mode) files)
   | Some (Folder m) \<Rightarrow> mkdirs mode ps files
   | Some (File m data) \<Rightarrow> (Inl (OSErr ''mkdir''), files))"

definition mkdir_parents :: "nat \<Rightarrow> path \<Rightarrow> fs \<Rightarrow> unit res \<times> fs" where
  "mkdir_parents mode p files = mkdirs mode (tl (prefixes p)) files"

subsection \<open>Extraction\<close>

datatype member_type = M_File | M_Dir | M_Sparse | M_Other

text \<open>What reading the data of a member gives: the data, nothing, or a part before the archive breaks off.\<close>

datatype member_body = Body string | No_Body | Cut_Body string

record tar_member =
  m_name :: string
  m_type :: member_type
  m_size :: nat
  m_mode :: nat
  m_body :: member_body

record tar_file =
  headers :: "tar_member list"
  broken :: bool

record bundle_env =
  untar :: "string \<Rightarrow> tar_file"
  tar :: "tar_member list \<Rightarrow> string"
  gzip :: "string \<Rightarrow> string"
  decompress :: "bundle_kind \<Rightarrow> string \<Rightarrow> decompressor"
  new_dir_mode :: nat
  new_file_mode :: nat

definition bad_archive :: error where
  "bad_archive = ProvisionError ''failed to read bundle archive''"

fun collect_members :: "bundle_limits \<Rightarrow> bool \<Rightarrow> tar_member list \<Rightarrow> tar_member list \<Rightarrow> tar_member list res" where
  "collect_members lims brk [] ms = (if brk then Inl bad_archive else Inr ms)"
| "collect_members lims brk (h # hs) ms =
     (if length ms \<ge> max_bundle_members lims then Inl (exceeds_members (max_bundle_members lims))
      else collect_members lims brk hs (ms @ [h]))"

fun extracted_bytes :: "tar_member list \<Rightarrow> nat \<Rightarrow> nat res" where
  "extracted_bytes [] n = Inr n"
| "extracted_bytes (m # ms) n =
     (if m_type m = M_Sparse then Inl (ProvisionError ''sparse bundle member is not supported'')
      else extracted_bytes ms (if m_type m = M_File then n + m_size m else n))"

definition write_member :: "bundle_env \<Rightarrow> path \<Rightarrow> member_body \<Rightarrow> fs \<Rightarrow> unit res \<times> fs" where
  "write_member env target body files = (case body of
     No_Body \<Rightarrow> (Inl (ProvisionError ''failed to read bundle member''), files)
   | _ \<Rightarrow> (case map_of files target of
       Some (Folder m) \<Rightarrow> (Inl (OSErr ''open''), files)
     | _ \<Rightarrow> (case body of
         Body data \<Rightarrow> (Inr (), AList.update target (File 420 data) files)
       | Cut_Body data \<Rightarrow> (Inl bad_archive, AList.update target (File (new_file_mode env) data) files)
       | No_Body \<Rightarrow> (Inr (), files))))"

text \<open>A name with a null byte is refused by the first system call.\<close>

definition extract_member :: "bundle_env \<Rightarrow> bundle_limits \<Rightarrow> path \<Rightarrow> tar_member \<Rightarrow> fs \<Rightarrow> unit res \<times> fs" where
  "extract_member env lims dest m files = (case validate_bundle_member (m_name m) of
     Inl e \<Rightarrow> (Inl e, files)
   | Inr _ \<Rightarrow>
       (if m_name m = ''.'' then
          (if m_type m = M_Dir then (Inr (), files)
           else (Inl (ProvisionError ''bundle member '.' must be a directory''), files))
        else (let target = join_path dest (m_name m) in
          if m_type m = M_Dir then
            (if CHR 0x00 \<in> set (m_name m) then (Inl (ValueErr ''embedded null byte''), files)
             else case mkdir_parents (new_dir_mode env) target files of
               (Inl e, files1) \<Rightarrow> (Inl e, files1)
             | (Inr _, files1) \<Rightarrow> (Inr (), AList.update target (Folder 493) files1))
          else if m_type m \<noteq> M_File then (Inl (ProvisionError ''unsupported bundle member type''), files)
          else if m_size m > max_bundle_member_bytes lims then (Inl (exceeds_member (max_bundle_member_bytes lims)), files)
          else if CHR 0x00 \<in> set (m_name m) then (Inl (ValueErr ''embedded null byte''), files)
          else case mkdir_parents (new_dir_mode env) (butlast target) files of
            (Inl e, files1) \<Rightarrow> (Inl e, files1)
          | (Inr _, files1) \<Rightarrow> write_member env target (m_body m) files1)))"

fun extract_members :: "bundle_env \<Rightarrow> bundle_limits \<Rightarrow> path \<Rightarrow> tar_member list \<Rightarrow> fs \<Rightarrow> unit res \<times> fs" where
  "extract_members env lims dest [] files = (Inr (), files)"
| "extract_members env lims dest (m # ms) files = (case extract_member env lims dest m files of
     (Inl e, files1) \<Rightarrow> (Inl e, files1)
   | (Inr _, files1) \<Rightarrow> extract_members env lims dest ms files1)"

definition archive_members :: "bundle_limits \<Rightarrow> tar_file \<Rightarrow> tar_member list res" where
  "archive_members lims archive =
     rbind (collect_members lims (broken archive) (headers archive) []) (\<lambda>ms.
     rbind (extracted_bytes ms 0) (\<lambda>n.
     rbind (rguard (n \<le> max_decompressed_bytes lims) (exceeds_total (max_decompressed_bytes lims))) (\<lambda>_.
     Inr ms)))"

definition extract_bundle_archive :: "bundle_env \<Rightarrow> bundle_limits \<Rightarrow> string \<Rightarrow> string \<Rightarrow> path \<Rightarrow> fs \<Rightarrow> unit res \<times> fs" where
  "extract_bundle_archive env lims source filename dest files =
     (case rbind (case detect_bundle_kind source filename of
          None \<Rightarrow> Inl (ProvisionError ''supported bundle formats are .tar.gz, .tgz, .tar.zst, .tar.zstd, and .tzst'')
        | Some k \<Rightarrow> decompress_to_tempfile lims (decompress env k source)) (\<lambda>tarred.
        archive_members lims (untar env tarred)) of
        Inl e \<Rightarrow> (Inl e, files)
      | Inr ms \<Rightarrow> extract_members env lims dest ms files)"

subsection \<open>Source preparation\<close>

definition dir_names :: "path \<Rightarrow> fs \<Rightarrow> string list" where
  "dir_names dest files = map (\<lambda>x. last (fst x)) (filter (\<lambda>x. fst x \<noteq> [] \<and> butlast (fst x) = dest) files)"

definition validate_bundle_layout :: "path \<Rightarrow> fs \<Rightarrow> unit res" where
  "validate_bundle_layout dest files = (let names = dir_names dest files in
     rbind (rguard (''config.toml'' \<in> set names)
       (ProvisionError ''bundle must contain config.toml at the top level'')) (\<lambda>_.
     rbind (rguard (list_all (\<lambda>n. n \<in> {''config.toml'', ''files''}) names)
       (ProvisionError ''bundle contains unsupported top-level entries'')) (\<lambda>_.
     rguard (case map_of files (dest @ [''files'']) of Some (File m data) \<Rightarrow> False | _ \<Rightarrow> True)
       (ProvisionError ''bundle entry 'files' must be a directory''))))"

type_synonym prepared = "path \<times> path option"

definition prepare_bundle_from_bytes :: "bundle_env \<Rightarrow> bundle_limits \<Rightarrow> string \<Rightarrow> string \<Rightarrow> path \<Rightarrow> fs \<Rightarrow> prepared res \<times> fs" where
  "prepare_bundle_from_bytes env lims source filename dest files =
     (case extract_bundle_archive env lims source filename dest files of
        (Inl e, files1) \<Rightarrow> (Inl e, files1)
      | (Inr _, files1) \<Rightarrow> (case validate_bundle_layout dest files1 of
          Inl e \<Rightarrow> (Inl e, files1)
        | Inr _ \<Rightarrow> (Inr (dest @ [''config.toml''], Some (dest @ [''files''])), files1)))"

definition prepare_source_bytes :: "bundle_env \<Rightarrow> bundle_limits \<Rightarrow> string \<Rightarrow> string \<Rightarrow> path \<Rightarrow> fs \<Rightarrow> prepared res \<times> fs" where
  "prepare_source_bytes env lims source filename dest files =
     (case validate_source_size lims (length source) of
        Inl e \<Rightarrow> (Inl e, files)
      | Inr _ \<Rightarrow>
          (if detect_bundle_kind source filename \<noteq> None
           then prepare_bundle_from_bytes env lims source filename dest files
           else (Inr (dest @ [''config.toml''], None),
                 AList.update (dest @ [''config.toml'']) (File (new_file_mode env) source) files)))"

text \<open>\<^verbatim>\<open>Path.suffix\<close> of a file name.\<close>

definition path_suffix :: "string \<Rightarrow> string" where
  "path_suffix name = (let ext = takeWhile (\<lambda>c. c \<noteq> CHR ''.'') (rev name) in
     if ext = [] \<or> Suc (length ext) \<ge> length name then [] else CHR ''.'' # rev ext)"

text \<open>A source file: its path, its size and its bytes.\<close>

definition prepare_source_path :: "bundle_env \<Rightarrow> bundle_limits \<Rightarrow> path \<Rightarrow> nat \<Rightarrow> string \<Rightarrow> path \<Rightarrow> fs \<Rightarrow> prepared res \<times> fs" where
  "prepare_source_path env lims source_path st source dest files =
     (if path_suffix (last source_path) = ''.toml'' then
        (case validate_source_size lims st of
           Inl e \<Rightarrow> (Inl e, files)
         | Inr _ \<Rightarrow> (Inr (source_path, None), files))
      else case validate_source_size lims (length source) of
        Inl e \<Rightarrow> (Inl e, files)
      | Inr _ \<Rightarrow>
          (if detect_bundle_kind source (last source_path) = None
           then (Inl (ProvisionError ''supported import inputs are config.toml, .tar.gz/.tgz, and .tar.zst/.tar.zstd/.tzst''), files)
           else prepare_bundle_from_bytes env lims source (last source_path) dest files))"

subsection \<open>Export\<close>

datatype 'a obs = Missing | Failing | Seen 'a

record export_obs =
  e_lstat :: "fstat obs"
  e_open :: "fstat obs"
  e_data :: "string option"

definition not_found :: "string \<Rightarrow> error" where
  "not_found member = ProvisionError (if member = ''config.toml'' then ''current config.toml not found''
     else ''managed bundle file not found'')"

definition read_export_file :: "bundle_limits \<Rightarrow> string \<Rightarrow> export_obs \<Rightarrow> string res" where
  "read_export_file lims member f = (case e_lstat f of
     Missing \<Rightarrow> Inl (not_found member)
   | Failing \<Rightarrow> Inl (ProvisionError ''cannot inspect managed bundle file'')
   | Seen st \<Rightarrow>
       rbind (rguard (st_kind st = Reg) (ProvisionError ''bundle member must be a regular file'')) (\<lambda>_.
       case e_open f of
         Missing \<Rightarrow> Inl (not_found member)
       | Failing \<Rightarrow> Inl (ProvisionError ''cannot read managed bundle file'')
       | Seen fd \<Rightarrow>
           rbind (rguard (single_regular fd) (ProvisionError ''bundle member must be a single-link regular file'')) (\<lambda>_.
           rbind (rguard (st_id fd = st_id st) changed_file) (\<lambda>_.
           rbind (rguard (st_size fd \<le> max_bundle_member_bytes lims) (exceeds_member (max_bundle_member_bytes lims))) (\<lambda>_.
           case e_data f of
             None \<Rightarrow> Inl (ProvisionError ''cannot read managed bundle file'')
           | Some data \<Rightarrow>
               rbind (rguard (length (take (Suc (max_bundle_member_bytes lims)) data) \<le> max_bundle_member_bytes lims)
                 (exceeds_member (max_bundle_member_bytes lims))) (\<lambda>_.
               Inr (take (Suc (max_bundle_member_bytes lims)) data)))))))"

text \<open>A file of the private snapshot, which nobody else changes.\<close>

definition own_file :: "string \<Rightarrow> export_obs" where
  "own_file data = (let st = \<lparr>st_kind = Reg, st_nlink = 1, st_id = (0, 0), st_size = length data, st_mtime = 0, st_ctime = 0\<rparr> in
     \<lparr>e_lstat = Seen st, e_open = Seen st, e_data = Some data\<rparr>)"

definition add_member :: "bundle_limits \<Rightarrow> tar_member \<Rightarrow> tar_member list \<Rightarrow> tar_member list res" where
  "add_member lims m ms =
     rbind (validate_bundle_member (m_name m)) (\<lambda>_.
     rbind (rguard (Suc (length ms) \<le> max_bundle_members lims) (exceeds_members (max_bundle_members lims))) (\<lambda>_.
     rbind (rguard (m_size m \<le> max_bundle_member_bytes lims) (exceeds_member (max_bundle_member_bytes lims))) (\<lambda>_.
     Inr (ms @ [m]))))"

definition file_member :: "string \<Rightarrow> string \<Rightarrow> nat \<Rightarrow> tar_member" where
  "file_member name data mode = \<lparr>m_name = name, m_type = M_File, m_size = length data, m_mode = mode, m_body = Body data\<rparr>"

definition dir_member :: "string \<Rightarrow> tar_member" where
  "dir_member name = \<lparr>m_name = name, m_type = M_Dir, m_size = 0, m_mode = 493, m_body = No_Body\<rparr>"

definition member_path :: "path \<Rightarrow> string" where
  "member_path p = ''files/'' @ join ''/'' p"

fun add_paths :: "bundle_limits \<Rightarrow> path list \<Rightarrow> fs \<Rightarrow> tar_member list \<Rightarrow> tar_member list res" where
  "add_paths lims nonempty [] ms = Inr ms"
| "add_paths lims nonempty ((p, Folder mode) # xs) ms =
     (if p \<in> set nonempty then add_paths lims nonempty xs ms
      else rbind (add_member lims (dir_member (member_path p)) ms) (\<lambda>ms'. add_paths lims nonempty xs ms'))"
| "add_paths lims nonempty ((p, File mode data) # xs) ms =
     rbind (read_export_file lims (member_path p) (own_file data)) (\<lambda>data'.
     rbind (add_member lims (file_member (member_path p) data' 420) ms) (\<lambda>ms'. add_paths lims nonempty xs ms'))"

text \<open>The members of the archive; the snapshot is given with paths relative to its root.\<close>

definition export_members :: "bundle_limits \<Rightarrow> string \<Rightarrow> fs option \<Rightarrow> tar_member list res" where
  "export_members lims config files =
     rbind (add_member lims (file_member ''config.toml'' config 384) []) (\<lambda>ms.
     case files of
       None \<Rightarrow> Inr ms
     | Some snapshot \<Rightarrow>
         (let paths = sort_key (\<lambda>x. join ''/'' (fst x)) (filter (\<lambda>x. fst x \<noteq> []) snapshot);
              nonempty = map (\<lambda>x. butlast (fst x)) paths in
          rbind (if [] \<in> set nonempty then Inr ms else add_member lims (dir_member ''files'') ms) (\<lambda>ms'.
          add_paths lims nonempty paths ms')))"

definition build_export_tar :: "bundle_env \<Rightarrow> bundle_limits \<Rightarrow> string \<Rightarrow> fs option \<Rightarrow> string res" where
  "build_export_tar env lims config files =
     rbind (export_members lims config files) (\<lambda>ms.
     (let tar_bytes = tar env ms in
      rbind (rguard (length tar_bytes \<le> max_decompressed_bytes lims) (exceeds_total (max_decompressed_bytes lims))) (\<lambda>_.
      (let result = gzip env tar_bytes in
       rbind (rguard (length result \<le> max_source_bytes lims) (ProvisionError ''config bundle export exceeds byte limit'')) (\<lambda>_.
       Inr result)))))"

text \<open>\<open>files_stat\<close> is the \<^verbatim>\<open>lstat\<close> of \<^verbatim>\<open>files\<close>, \<open>source\<close> what opening it shows.\<close>

definition export_bundle_bytes :: "bundle_env \<Rightarrow> bundle_limits \<Rightarrow> export_obs \<Rightarrow> fkind obs \<Rightarrow> src_dir option \<Rightarrow> string res" where
  "export_bundle_bytes env lims config_file files_stat source =
     rbind (read_export_file lims ''config.toml'' config_file) (\<lambda>config.
     rbind (rguard (length config \<le> max_decompressed_bytes lims) (exceeds_total (max_decompressed_bytes lims))) (\<lambda>_.
     case files_stat of
       Missing \<Rightarrow> build_export_tar env lims config None
     | Failing \<Rightarrow> Inl (ProvisionError ''cannot inspect managed bundle files'')
     | Seen k \<Rightarrow>
         rbind (rguard (k = Directory) (ProvisionError ''bundle files entry must be a directory'')) (\<lambda>_.
         rbind (snapshot_files_source \<lparr>max_file_bytes = max_bundle_member_bytes lims,
             max_total_bytes = max_decompressed_bytes lims - length config,
             max_members = max_bundle_members lims\<rparr> source) (\<lambda>s.
         build_export_tar env lims config (Some (copied s))))))"

section \<open>Extraction stays inside its directory\<close>

definition is_folder :: "fs \<Rightarrow> path \<Rightarrow> bool" where
  "is_folder files p = (case map_of files p of Some (Folder m) \<Rightarrow> True | _ \<Rightarrow> False)"

text \<open>The destination and its ancestors are directories.\<close>

definition anchored :: "path \<Rightarrow> fs \<Rightarrow> bool" where
  "anchored dest files = list_all (is_folder files) (tl (prefixes dest))"

lemma in_tl_prefixes: "a \<in> set (tl (prefixes p)) \<longleftrightarrow> a \<noteq> [] \<and> prefix a p"
  by (cases p) (auto simp: prefix_Cons)

lemma resolve_plain: "''..'' \<notin> set ps \<Longrightarrow> resolve cwd ps = cwd @ ps"
  by (induction ps arbitrary: cwd) auto

lemma join_path_valid: "validate_bundle_member name = Inr u \<Longrightarrow> join_path dest name = dest @ path_parts name"
  by (auto simp: validate_bundle_member_def join_path_def resolve_plain res_simps)

lemma mkdirs_keeps: "map_of files q = Some x \<Longrightarrow> map_of (snd (mkdirs mode ps files)) q = Some x"
proof (induction mode ps files rule: mkdirs.induct)
  case (2 mode p ps files)
  then show ?case by (cases "q = p") (auto simp: map_of_update split: option.split node.split)
qed simp

lemma mkdirs_other: "q \<notin> set ps \<Longrightarrow> map_of (snd (mkdirs mode ps files)) q = map_of files q"
  by (induction mode ps files rule: mkdirs.induct) (auto simp: map_of_update split: option.split node.split)

lemma mkdir_parents_frame:
  assumes "anchored dest files" "prefix dest t \<or> prefix t dest" "\<not> prefix dest p"
  shows "map_of (snd (mkdir_parents mode t files)) p = map_of files p"
proof (cases "p \<noteq> [] \<and> prefix p t")
  case True
  then have "prefix p dest" using assms(2,3) by (meson prefix_order.trans prefix_same_cases)
  then have "is_folder files p" using assms(1) True by (auto simp: anchored_def list_all_iff in_tl_prefixes)
  then show ?thesis
    by (auto simp: is_folder_def mkdir_parents_def intro: mkdirs_keeps split: option.splits)
next
  case False
  then show ?thesis by (simp add: mkdir_parents_def mkdirs_other in_tl_prefixes)
qed

lemma mkdir_parents_folder: "is_folder files q \<Longrightarrow> is_folder (snd (mkdir_parents mode t files)) q"
  by (auto simp: is_folder_def mkdir_parents_def mkdirs_keeps split: option.splits node.splits)

lemma write_member_frame:
  "p \<noteq> target \<Longrightarrow> map_of (snd (write_member env target body files)) p = map_of files p"
  "is_folder files q \<Longrightarrow> is_folder (snd (write_member env target body files)) q"
  by (auto simp: write_member_def is_folder_def map_of_update split: member_body.split option.splits node.splits)

lemma butlast_anchor: "prefix dest (butlast (dest @ ps)) \<or> prefix (butlast (dest @ ps)) dest"
  by (cases ps rule: rev_cases) (auto simp: butlast_append intro: prefixeq_butlast)

lemma extract_member_frame:
  assumes "anchored dest files" "\<not> prefix dest p"
  shows "map_of (snd (extract_member env lims dest m files)) p = map_of files p"
proof -
  have t: "join_path dest (m_name m) = dest @ path_parts (m_name m)"
    if "validate_bundle_member (m_name m) = Inr u" for u using join_path_valid [OF that] .
  note frame = mkdir_parents_frame [OF assms(1) _ assms(2), where t = "dest @ path_parts (m_name m)"]
    mkdir_parents_frame [OF assms(1) butlast_anchor [of dest "path_parts (m_name m)"] assms(2)]
  have ne: "p \<noteq> dest @ ps" for ps using assms(2) by auto
  show ?thesis
    using frame ne write_member_frame(1) [OF ne]
    by (auto simp: extract_member_def Let_def t map_of_update split: sum.splits prod.splits) (metis snd_conv)+
qed


lemma extract_member_folder:
  assumes "is_folder files q"
  shows "is_folder (snd (extract_member env lims dest m files)) q"
proof -
  have f: "is_folder (AList.update t (Folder 493) fs') q" if "is_folder fs' q" for t fs'
    using that by (auto simp: is_folder_def map_of_update split: option.splits node.splits)
  show ?thesis
    using assms mkdir_parents_folder [OF assms, of "new_dir_mode env"] f write_member_frame(2)
    by (auto simp: extract_member_def Let_def split: sum.splits prod.splits) (metis snd_conv)+
qed

lemma extract_members_frame:
  assumes "anchored dest files" "\<not> prefix dest p"
  shows "map_of (snd (extract_members env lims dest ms files)) p = map_of files p"
  using assms(1)
proof (induction ms arbitrary: files)
  case (Cons m ms)
  have "anchored dest (snd (extract_member env lims dest m files))"
    using Cons.prems by (auto simp: anchored_def list_all_iff intro: extract_member_folder)
  with Cons.IH Cons.prems extract_member_frame [OF Cons.prems assms(2), of env lims m]
  show ?case by (auto split: prod.splits sum.splits)
qed simp

lemma collect_members_Inr:
  "collect_members lims brk hs ms = Inr ms' \<Longrightarrow> length ms \<le> max_bundle_members lims
   \<Longrightarrow> \<not> brk \<and> ms' = ms @ hs \<and> length ms' \<le> max_bundle_members lims"
  by (induction lims brk hs ms rule: collect_members.induct) (auto split: if_splits)

lemma extracted_bytes_Inr:
  "extracted_bytes ms n = Inr k \<longleftrightarrow>
     list_all (\<lambda>m. m_type m \<noteq> M_Sparse) ms \<and> k = n + sum_list (map m_size (filter (\<lambda>m. m_type m = M_File) ms))"
  by (induction ms n rule: extracted_bytes.induct) auto

text \<open>The members an archive is accepted with: within the limits.\<close>

definition archive_bounded :: "bundle_limits \<Rightarrow> tar_member list \<Rightarrow> bool" where
  "archive_bounded lims ms = (length ms \<le> max_bundle_members lims
     \<and> sum_list (map m_size (filter (\<lambda>m. m_type m = M_File) ms)) \<le> max_decompressed_bytes lims)"

lemma archive_members_Inr:
  "archive_members lims archive = Inr ms \<Longrightarrow> \<not> broken archive \<and> ms = headers archive \<and> archive_bounded lims ms"
  by (auto simp: archive_members_def archive_bounded_def extracted_bytes_Inr res_simps dest!: collect_members_Inr)

text \<open>
  C14: Whatever the bytes of an upload are, and whether or not it is accepted, preparing it changes no path
  outside the private directory it is unpacked in. When it is accepted, that directory holds
  \<^verbatim>\<open>config.toml\<close> and at most \<^verbatim>\<open>files\<close> beside it, and a bundle was unpacked from an
  archive within the limits for members and bytes.
\<close>

theorem extraction_confined:
  assumes "prepare_source_bytes env lims source filename dest files = (r, files')"
    and "anchored dest files" and "dir_names dest files = []"
  shows "(\<not> prefix dest p \<longrightarrow> map_of files' p = map_of files p)
    \<and> (r = Inr (config_path, files_path) \<longrightarrow> config_path = dest @ [''config.toml'']
        \<and> length source \<le> max_source_bytes lims
        \<and> ''config.toml'' \<in> set (dir_names dest files') \<and> set (dir_names dest files') \<subseteq> {''config.toml'', ''files''}
        \<and> (files_path = None \<or> files_path = Some (dest @ [''files'']) \<and>
            (\<exists>k tarred. decompress_to_tempfile lims (decompress env k source) = Inr tarred
              \<and> archive_bounded lims (headers (untar env tarred)))))"
proof (intro conjI impI)
  have frame: "map_of (snd (extract_bundle_archive env lims source filename dest files)) p = map_of files p"
    if "\<not> prefix dest p"
    using extract_members_frame [OF assms(2) that]
    by (auto simp: extract_bundle_archive_def split: sum.splits)
  assume out: "\<not> prefix dest p"
  then have "p \<noteq> dest @ [''config.toml'']" by auto
  with frame [OF out] assms(1) show "map_of files' p = map_of files p"
    by (auto simp: prepare_source_bytes_def prepare_bundle_from_bytes_def map_of_update
        split: sum.splits prod.splits if_splits)
next
  assume r: "r = Inr (config_path, files_path)"
  have up: "dir_names dest (AList.update (dest @ [''config.toml'']) (File m source) files) = [''config.toml'']" for m
  proof -
    have new: "dest @ [''config.toml''] \<notin> fst ` set files"
      using assms(3) by (fastforce simp: dir_names_def filter_empty_conv)
    then have "AList.update (dest @ [''config.toml'']) (File m source) files = files @ [(dest @ [''config.toml''], File m source)]"
      by (induction files) auto
    then show ?thesis using assms(3) by (simp add: dir_names_def)
  qed
  from assms(1) r up show "config_path = dest @ [''config.toml'']" "length source \<le> max_source_bytes lims"
    "''config.toml'' \<in> set (dir_names dest files')" "set (dir_names dest files') \<subseteq> {''config.toml'', ''files''}"
    by (auto simp: prepare_source_bytes_def prepare_bundle_from_bytes_def validate_bundle_layout_def
        validate_source_size_def Let_def list_all_iff res_simps split: sum.splits prod.splits if_splits)
  from assms(1) r show "files_path = None \<or> files_path = Some (dest @ [''files'']) \<and>
      (\<exists>k tarred. decompress_to_tempfile lims (decompress env k source) = Inr tarred
        \<and> archive_bounded lims (headers (untar env tarred)))"
    by (auto simp: prepare_source_bytes_def prepare_bundle_from_bytes_def extract_bundle_archive_def res_simps
        dest!: archive_members_Inr split: sum.splits prod.splits if_splits option.splits)
qed

section \<open>Export and import are inverse\<close>

text \<open>What a node holds, whatever its mode: the data of a file, nothing for a folder.\<close>

fun holds :: "node \<Rightarrow> string option" where
  "holds (File m data) = Some data"
| "holds (Folder m) = None"

text \<open>
  A target tree below the destination: \<open>T q\<close> is \<open>Some (Some data)\<close> for a file and \<open>Some None\<close> for a folder.
  The files agree with it as far as they exist.
\<close>

definition agrees :: "(path \<Rightarrow> string option option) \<Rightarrow> path \<Rightarrow> fs \<Rightarrow> bool" where
  "agrees T dest files = (\<forall>q x. q \<noteq> [] \<longrightarrow> map_of files (dest @ q) = Some x \<longrightarrow> T q = Some (holds x))"

definition fits :: "bundle_limits \<Rightarrow> (path \<Rightarrow> string option option) \<Rightarrow> tar_member \<Rightarrow> bool" where
  "fits lims T m = (let q = path_parts (m_name m) in
     validate_bundle_member (m_name m) = Inr () \<and> CHR 0x00 \<notin> set (m_name m) \<and> q \<noteq> []
     \<and> (\<forall>a. a \<noteq> [] \<longrightarrow> strict_prefix a q \<longrightarrow> T a = Some None)
     \<and> (m_type m = M_Dir \<and> T q = Some None
        \<or> m_type m = M_File \<and> m_size m \<le> max_bundle_member_bytes lims \<and> (\<exists>data. m_body m = Body data \<and> T q = Some (Some data))))"

lemma mkdirs_no_file:
  "(\<And>q m data. q \<in> set ps \<Longrightarrow> map_of files q \<noteq> Some (File m data)) \<Longrightarrow>
   \<exists>files'. mkdirs mode ps files = (Inr (), files') \<and>
     (\<forall>q. map_of files' q = (if q \<in> set ps \<and> map_of files q = None then Some (Folder mode) else map_of files q))"
proof (induction ps arbitrary: files)
  case (Cons p ps)
  show ?case
  proof (cases "map_of files p")
    case None
    let ?f = "AList.update p (Folder mode) files"
    have nf: "map_of ?f q \<noteq> Some (File m data)" if "q \<in> set ps" for q m data
      using Cons.prems that by (auto simp: map_of_update)
    then obtain files' where f: "mkdirs mode ps ?f = (Inr (), files')"
      "\<forall>q. map_of files' q = (if q \<in> set ps \<and> map_of ?f q = None then Some (Folder mode) else map_of ?f q)"
      using Cons.IH [of ?f, OF nf] by blast
    then show ?thesis using None by (auto simp: map_of_update)
  next
    case (Some x)
    then obtain m where "x = Folder m" using Cons.prems by (cases x) auto
    then show ?thesis using Some Cons.IH [of files] Cons.prems by auto
  qed
qed simp

lemma mkdir_parents_fit:
  assumes "anchored dest files" "agrees T dest files" "\<And>a. a \<noteq> [] \<Longrightarrow> prefix a q \<Longrightarrow> T a = Some None"
  shows "\<exists>files'. mkdir_parents mode (dest @ q) files = (Inr (), files') \<and> anchored dest files' \<and> agrees T dest files'
     \<and> (\<forall>p. map_of files' p = (if p \<noteq> [] \<and> prefix p (dest @ q) \<and> map_of files p = None then Some (Folder mode) else map_of files p))"
proof -
  have nf: "map_of files p \<noteq> Some (File m data)" if pp: "p \<in> set (tl (prefixes (dest @ q)))" for p m data
  proof (cases "prefix p dest")
    case True
    then have "is_folder files p" using assms(1) pp by (auto simp: anchored_def list_all_iff in_tl_prefixes)
    then show ?thesis by (auto simp: is_folder_def)
  next
    case False
    then obtain a where "p = dest @ a" "a \<noteq> []" "prefix a q"
      using pp by (auto simp: in_tl_prefixes prefix_append)
    then show ?thesis using assms(2,3) by (fastforce simp: agrees_def)
  qed
  from mkdirs_no_file [of "tl (prefixes (dest @ q))" files mode, OF nf]
  obtain files' where f: "mkdir_parents mode (dest @ q) files = (Inr (), files')"
    and m: "\<forall>p. map_of files' p = (if p \<noteq> [] \<and> prefix p (dest @ q) \<and> map_of files p = None then Some (Folder mode) else map_of files p)"
    by (auto simp: mkdir_parents_def in_tl_prefixes)
  have "anchored dest files'"
    using assms(1) mkdir_parents_folder [of files _ mode "dest @ q"] f by (auto simp: anchored_def list_all_iff)
  moreover have "agrees T dest files'"
    using assms(2,3) m by (auto simp: agrees_def split: if_splits)
  ultimately show ?thesis using f m by blast
qed

lemma anchored_update_below: "q \<noteq> [] \<Longrightarrow> anchored dest files \<Longrightarrow> anchored dest (AList.update (dest @ q) x files)"
  by (auto simp: anchored_def list_all_iff in_tl_prefixes is_folder_def map_of_update prefix_def)

lemma agrees_update: "agrees T dest files \<Longrightarrow> T q = Some (holds x) \<Longrightarrow> agrees T dest (AList.update (dest @ q) x files)"
  by (auto simp: agrees_def map_of_update split: if_splits)

lemma extract_member_fit:
  assumes "anchored dest files" "agrees T dest files" "fits lims T m"
  shows "\<exists>files'. extract_member env lims dest m files = (Inr (), files') \<and> anchored dest files' \<and> agrees T dest files'
     \<and> (\<forall>a. a \<noteq> [] \<longrightarrow> prefix a (path_parts (m_name m)) \<longrightarrow> map_of files' (dest @ a) \<noteq> None)
     \<and> (\<forall>p. map_of files p \<noteq> None \<longrightarrow> map_of files' p \<noteq> None)"
proof -
  define q where "q = path_parts (m_name m)"
  have q: "q \<noteq> []" "validate_bundle_member (m_name m) = Inr ()" "CHR 0x00 \<notin> set (m_name m)"
    and anc: "\<And>a. a \<noteq> [] \<Longrightarrow> strict_prefix a q \<Longrightarrow> T a = Some None"
    using assms(3) by (auto simp: fits_def Let_def q_def)
  have t: "join_path dest (m_name m) = dest @ q" using join_path_valid [OF q(2)] by (simp add: q_def)
  have dot: "m_name m \<noteq> ''.''" using q(1) by (auto simp: q_def path_parts_def)
  consider (dir) "m_type m = M_Dir" "T q = Some None"
    | (reg) data where "m_type m = M_File" "m_size m \<le> max_bundle_member_bytes lims" "m_body m = Body data" "T q = Some (Some data)"
    using assms(3) by (auto simp: fits_def Let_def q_def)
  then show ?thesis
  proof cases
    case dir
    have "\<And>a. a \<noteq> [] \<Longrightarrow> prefix a q \<Longrightarrow> T a = Some None" using anc dir(2) by (metis strict_prefix_def)
    from mkdir_parents_fit [OF assms(1,2) this, where mode = "new_dir_mode env"]
    obtain f where f: "mkdir_parents (new_dir_mode env) (dest @ q) files = (Inr (), f)" "anchored dest f" "agrees T dest f"
      and m: "\<forall>p. map_of f p = (if p \<noteq> [] \<and> prefix p (dest @ q) \<and> map_of files p = None then Some (Folder (new_dir_mode env)) else map_of files p)"
      by blast
    have "extract_member env lims dest m files = (Inr (), AList.update (dest @ q) (Folder 493) f)"
      using f q dot t dir by (simp add: extract_member_def Let_def)
    then show ?thesis using anchored_update_below [OF q(1) f(2)] agrees_update [OF f(3)] dir m
      by (auto simp: map_of_update q_def [symmetric])
  next
    case reg
    obtain b n where bn: "q = b @ [n]" using q(1) by (cases q rule: rev_cases) auto
    have "\<And>a. a \<noteq> [] \<Longrightarrow> prefix a b \<Longrightarrow> T a = Some None"
      using anc bn by (auto simp: strict_prefix_def prefix_def)
    from mkdir_parents_fit [OF assms(1,2) this, where mode = "new_dir_mode env"]
    obtain f where f: "mkdir_parents (new_dir_mode env) (dest @ b) files = (Inr (), f)" "anchored dest f" "agrees T dest f"
      and m: "\<forall>p. map_of f p = (if p \<noteq> [] \<and> prefix p (dest @ b) \<and> map_of files p = None then Some (Folder (new_dir_mode env)) else map_of files p)"
      by blast
    have "map_of f (dest @ q) \<noteq> Some (Folder k)" for k
      using f(3) reg(4) q(1) by (auto simp: agrees_def)
    then have w: "write_member env (dest @ q) (Body data) f = (Inr (), AList.update (dest @ q) (File 420 data) f)"
      by (auto simp: write_member_def split: option.split node.split)
    have "extract_member env lims dest m files = (Inr (), AList.update (dest @ q) (File 420 data) f)"
      using f(1) q dot t reg w by (simp add: extract_member_def Let_def bn butlast_append)
    then show ?thesis using anchored_update_below [OF q(1) f(2)] agrees_update [OF f(3)] reg(4) m
      by (auto simp: map_of_update q_def [symmetric] bn)
  qed
qed

lemma extract_members_fit:
  assumes "anchored dest files" "agrees T dest files" "\<And>m. m \<in> set ms \<Longrightarrow> fits lims T m"
  shows "\<exists>files'. extract_members env lims dest ms files = (Inr (), files') \<and> agrees T dest files'
     \<and> (\<forall>m a. m \<in> set ms \<longrightarrow> a \<noteq> [] \<longrightarrow> prefix a (path_parts (m_name m)) \<longrightarrow> map_of files' (dest @ a) \<noteq> None)
     \<and> (\<forall>p. map_of files p \<noteq> None \<longrightarrow> map_of files' p \<noteq> None)"
  using assms
proof (induction ms arbitrary: files)
  case (Cons m ms)
  from extract_member_fit [OF Cons.prems(1,2), of lims m env] Cons.prems(3)
  obtain f where f: "extract_member env lims dest m files = (Inr (), f)" "anchored dest f" "agrees T dest f"
    "\<forall>a. a \<noteq> [] \<longrightarrow> prefix a (path_parts (m_name m)) \<longrightarrow> map_of f (dest @ a) \<noteq> None"
    "\<forall>p. map_of files p \<noteq> None \<longrightarrow> map_of f p \<noteq> None"
    by auto
  from Cons.IH [OF f(2,3)] Cons.prems(3)
  obtain f' where f': "extract_members env lims dest ms f = (Inr (), f')" "agrees T dest f'"
    "\<forall>m a. m \<in> set ms \<longrightarrow> a \<noteq> [] \<longrightarrow> prefix a (path_parts (m_name m)) \<longrightarrow> map_of f' (dest @ a) \<noteq> None"
    "\<forall>p. map_of f p \<noteq> None \<longrightarrow> map_of f' p \<noteq> None"
    by auto
  then show ?case using f by (auto simp: f(1))
qed simp

subsection \<open>The exported members\<close>

definition legal_name :: "string \<Rightarrow> bool" where
  "legal_name n = (n \<notin> {[], ''.'', ''..''} \<and> CHR ''/'' \<notin> set n \<and> CHR 0x00 \<notin> set n)"

lemma path_parts_join:
  assumes "p \<noteq> []" "list_all legal_name p"
  shows "path_parts (join ''/'' p) = p"
proof -
  have "split_on CHR ''/'' (join ''/'' p) = p"
    using assms by (intro split_on_join) (auto simp: list_all_iff legal_name_def)
  then show ?thesis using assms(2) by (auto simp: path_parts_def list_all_iff legal_name_def intro!: filter_True)
qed

lemma set_join: "set (join sep p) \<subseteq> set sep \<union> \<Union> (set ` set p)"
  by (induction sep p rule: join.induct) auto

lemma member_path_join: "p \<noteq> [] \<Longrightarrow> member_path p = join ''/'' (''files'' # p)"
  by (cases p) (simp_all add: member_path_def)

lemma member_path_parts: "p \<noteq> [] \<Longrightarrow> list_all legal_name p \<Longrightarrow> path_parts (member_path p) = ''files'' # p"
  using path_parts_join [of "''files'' # p"] by (simp add: member_path_join legal_name_def)

lemma valid_join:
  assumes "p \<noteq> []" "list_all legal_name p"
  shows "validate_bundle_member (join ''/'' p) = Inr ()" and "CHR 0x00 \<notin> set (join ''/'' p)"
proof -
  obtain a p' where p: "p = a # p'" "legal_name a" using assms by (cases p) auto
  then obtain c a' where a: "a = c # a'" "c \<noteq> CHR ''/''" by (cases a) (auto simp: legal_name_def)
  have "\<exists>r. join ''/'' p = c # r" using p(1) a(1) by (cases p') auto
  then have "join ''/'' p \<noteq> []" "\<not> starts_with ''/'' (join ''/'' p)" using a(2) by (auto simp: starts_with_def)
  moreover have "''..'' \<notin> set p" using assms(2) by (auto simp: list_all_iff legal_name_def)
  ultimately show "validate_bundle_member (join ''/'' p) = Inr ()"
    by (simp only: validate_bundle_member_def path_parts_join [OF assms] rguard_True simp_thms)
  show "CHR 0x00 \<notin> set (join ''/'' p)"
    using set_join [of "''/''" p] assms(2) by (auto simp: list_all_iff legal_name_def)
qed

lemma add_member_Inr:
  "add_member lims m ms = Inr ms' \<longleftrightarrow> ms' = ms @ [m] \<and> validate_bundle_member (m_name m) = Inr ()
     \<and> length ms' \<le> max_bundle_members lims \<and> m_size m \<le> max_bundle_member_bytes lims"
  by (auto simp: add_member_def res_simps)

lemma read_own_file: "read_export_file lims name (own_file data) = Inr data' \<longleftrightarrow>
    data' = data \<and> length data \<le> max_bundle_member_bytes lims"
  by (auto simp: read_export_file_def own_file_def Let_def single_regular_def res_simps)

fun path_member :: "path \<times> node \<Rightarrow> tar_member" where
  "path_member (p, File m data) = file_member (member_path p) data 420"
| "path_member (p, Folder m) = dir_member (member_path p)"

definition listed :: "path list \<Rightarrow> path \<times> node \<Rightarrow> bool" where
  "listed nonempty x = (case snd x of File m data \<Rightarrow> True | Folder m \<Rightarrow> fst x \<notin> set nonempty)"

lemma add_paths_Inr:
  "add_paths lims nonempty xs ms = Inr ms' \<Longrightarrow> length ms \<le> max_bundle_members lims \<Longrightarrow>
     ms' = ms @ map path_member (filter (listed nonempty) xs) \<and> length ms' \<le> max_bundle_members lims
     \<and> list_all (\<lambda>x. node_size (snd x) \<le> max_bundle_member_bytes lims) xs"
proof (induction lims nonempty xs ms rule: add_paths.induct)
  case (2 lims nonempty p mode xs ms)
  show ?case
  proof (cases "p \<in> set nonempty")
    case True
    then show ?thesis using 2(1) 2(3,4) by (auto simp: listed_def)
  next
    case False
    then show ?thesis using 2(2) [of "ms @ [dir_member (member_path p)]"] 2(3) by (auto simp: res_simps add_member_Inr listed_def)
  qed
next
  case (3 lims nonempty p mode data xs ms)
  let ?ms = "ms @ [file_member (member_path p) data 420]"
  from 3(2) have "add_paths lims nonempty xs ?ms = Inr ms'" "length ?ms \<le> max_bundle_members lims"
    "length data \<le> max_bundle_member_bytes lims"
    by (auto simp: res_simps add_member_Inr read_own_file)
  with 3(1) [of ?ms] show ?case by (auto simp: listed_def)
qed simp

definition wf_tree :: "fs \<Rightarrow> bool" where
  "wf_tree t = (distinct (map fst t) \<and> is_folder t [] \<and> (\<forall>p n x. map_of t (p @ [n]) = Some x \<longrightarrow> is_folder t p)
     \<and> (\<forall>x\<in>set t. list_all legal_name (fst x)))"

lemma wf_tree_ancestor:
  "wf_tree t \<Longrightarrow> map_of t p = Some x \<Longrightarrow> strict_prefix a p \<Longrightarrow> is_folder t a"
proof (induction p arbitrary: x rule: rev_induct)
  case (snoc n p)
  have f: "is_folder t p" using snoc.prems(1,2) unfolding wf_tree_def by blast
  then obtain y where y: "map_of t p = Some y" by (auto simp: is_folder_def split: option.splits)
  from snoc.prems(3) have "prefix a p" by (auto simp: strict_prefix_def)
  then show ?case using snoc.IH [OF snoc.prems(1) y] f by (cases "a = p") (auto simp: strict_prefix_def)
qed simp

text \<open>Every node of the tree lies above a member that is listed.\<close>

lemma listed_below:
  assumes "map_of t p = Some x" "p \<noteq> []"
    and "nonempty = map (\<lambda>x. butlast (fst x)) (filter (\<lambda>x. fst x \<noteq> []) t)"
  shows "\<exists>y\<in>set t. fst y \<noteq> [] \<and> listed nonempty y \<and> prefix p (fst y)"
proof -
  define M where "M = sum_list (map (\<lambda>x. length (fst x)) t)"
  have M: "length (fst y) \<le> M" if "y \<in> set t" for y
    using that by (auto simp: M_def intro: member_le_sum_list)
  show ?thesis using assms(1,2)
  proof (induction "M - length p" arbitrary: p x rule: less_induct)
    case less
    have m: "(p, x) \<in> set t" using less.prems(1) by (rule map_of_SomeD)
    show ?case
    proof (cases "listed nonempty (p, x)")
      case True
      then show ?thesis using m less.prems(2) by (intro bexI [of _ "(p, x)"]) auto
    next
      case False
      then have "p \<in> set nonempty" by (auto simp: listed_def split: node.splits)
      then obtain y where y: "y \<in> set t" "fst y \<noteq> []" "butlast (fst y) = p" by (auto simp: assms(3))
      then obtain n where n: "fst y = p @ [n]" by (metis append_butlast_last_id)
      obtain z where z: "map_of t (fst y) = Some z" using y(1) by (cases "map_of t (fst y)") (auto simp: map_of_eq_None_iff)
      have "M - length (fst y) < M - length p" using M [OF y(1)] n by simp
      from less.hyps [OF this z y(2)] show ?thesis by (auto simp: n dest: append_prefixD)
    qed
  qed
qed

definition exported :: "string \<Rightarrow> fs option \<Rightarrow> path \<Rightarrow> string option option" where
  "exported config files q = (case q of
     [] \<Rightarrow> None
   | n # p \<Rightarrow>
       if n = ''config.toml'' then (if p = [] then Some (Some config) else None)
       else if n = ''files'' then Option.bind files (\<lambda>t. map_option holds (map_of t p))
       else None)"

lemma exported_files: "exported config (Some t) (''files'' # p) = map_option holds (map_of t p)"
  by (simp add: exported_def)

lemma is_folder_holds: "is_folder t p \<longleftrightarrow> map_option holds (map_of t p) = Some None"
  by (auto simp: is_folder_def split: option.split node.split)

lemma path_member_fits:
  assumes "wf_tree t" "(p, x) \<in> set t" "p \<noteq> []" "node_size x \<le> max_bundle_member_bytes lims"
  shows "fits lims (exported config (Some t)) (path_member (p, x)) \<and> path_parts (m_name (path_member (p, x))) = ''files'' # p"
proof -
  have l: "list_all legal_name p" and mo: "map_of t p = Some x"
    using assms by (auto simp: wf_tree_def)
  have n: "m_name (path_member (p, x)) = member_path p"
    by (cases x) (simp_all add: file_member_def dir_member_def)
  have parts: "path_parts (member_path p) = ''files'' # p" using member_path_parts [OF assms(3) l] .
  have l': "list_all legal_name (''files'' # p)" using l by (simp add: legal_name_def)
  have v: "validate_bundle_member (member_path p) = Inr ()" "CHR 0x00 \<notin> set (member_path p)"
    using valid_join [OF _ l'] member_path_join [OF assms(3)] by simp_all
  have anc: "exported config (Some t) a = Some None" if a: "a \<noteq> []" "strict_prefix a (''files'' # p)" for a
  proof -
    obtain b where b: "a = ''files'' # b" "strict_prefix b p"
      using a by (cases a) (auto simp: strict_prefix_def)
    then show ?thesis using wf_tree_ancestor [OF assms(1) mo b(2)] by (simp add: exported_files is_folder_holds)
  qed
  show ?thesis
    using v anc assms(4) mo by (cases x)
      (simp_all add: fits_def Let_def n parts exported_files file_member_def dir_member_def del: prefix_Cons)
qed

lemma config_member_fits:
  assumes "length config \<le> max_bundle_member_bytes lims"
  shows "fits lims (exported config files) (file_member ''config.toml'' config mode)"
    and "path_parts ''config.toml'' = [''config.toml'']"
proof -
  show pp: "path_parts ''config.toml'' = [''config.toml'']" by (simp add: path_parts_def)
  show "fits lims (exported config files) (file_member ''config.toml'' config mode)"
    using assms by (auto simp: fits_def Let_def file_member_def pp exported_def validate_bundle_member_def starts_with_def
        strict_prefix_def prefix_Cons)
qed

lemma files_member_fits:
  assumes "is_folder t []"
  shows "fits lims (exported config (Some t)) (dir_member ''files'')" and "path_parts ''files'' = [''files'']"
proof -
  show pp: "path_parts ''files'' = [''files'']" by (simp add: path_parts_def)
  show "fits lims (exported config (Some t)) (dir_member ''files'')"
    using assms by (auto simp: fits_def Let_def dir_member_def pp exported_def validate_bundle_member_def starts_with_def
        strict_prefix_def prefix_Cons is_folder_holds)
qed

lemma listed_above:
  assumes "map_of t p \<noteq> None" "p \<noteq> [] \<or> (\<exists>y\<in>set t. fst y \<noteq> [])"
    and "nonempty = map (\<lambda>x. butlast (fst x)) (filter (\<lambda>x. fst x \<noteq> []) t)"
  shows "\<exists>y\<in>set t. fst y \<noteq> [] \<and> listed nonempty y \<and> prefix p (fst y)"
proof (cases "p = []")
  case True
  then obtain y where y: "y \<in> set t" "fst y \<noteq> []" using assms(2) by auto
  then obtain z where "map_of t (fst y) = Some z" by (cases "map_of t (fst y)") (auto simp: map_of_eq_None_iff)
  from listed_below [OF this y(2) assms(3)] show ?thesis using True by auto
next
  case False
  then show ?thesis using assms(1) listed_below [OF _ False assms(3)] by auto
qed

lemma export_members_fit:
  assumes "export_members lims config files = Inr ms" and "\<And>t. files = Some t \<Longrightarrow> wf_tree t"
  shows "(\<forall>m\<in>set ms. fits lims (exported config files) m) \<and> length ms \<le> max_bundle_members lims
    \<and> (\<forall>q x. exported config files q = Some x \<longrightarrow> (\<exists>m\<in>set ms. prefix q (path_parts (m_name m))))"
proof -
  let ?c = "file_member ''config.toml'' config 384"
  from assms(1) have c: "length config \<le> max_bundle_member_bytes lims" "1 \<le> max_bundle_members lims"
    by (auto simp: export_members_def res_simps add_member_Inr file_member_def split: option.splits)
  have cp: "path_parts (m_name ?c) = [''config.toml'']" using config_member_fits(2) [OF c(1)] by (simp add: file_member_def)
  show ?thesis
  proof (cases files)
    case None
    then have "ms = [?c]" using assms(1) by (auto simp: export_members_def res_simps add_member_Inr)
    then show ?thesis using None c cp config_member_fits(1) [OF c(1)]
      by (auto simp: exported_def split: list.splits if_splits)
  next
    case (Some t)
    then have wf: "wf_tree t" using assms(2) by simp
    define ps where "ps = sort_key (\<lambda>x. join ''/'' (fst x)) (filter (\<lambda>x. fst x \<noteq> []) t)"
    define ne where "ne = map (\<lambda>x. butlast (fst x)) ps"
    have ps: "set ps = {x \<in> set t. fst x \<noteq> []}" by (simp add: ps_def)
    define root where "root = (if [] \<in> set ne then [] else [dir_member ''files''])"
    have "export_members lims config files = rbind (add_member lims ?c []) (\<lambda>ms.
        rbind (if [] \<in> set ne then Inr ms else add_member lims (dir_member ''files'') ms) (\<lambda>ms'. add_paths lims ne ps ms'))"
      by (simp add: export_members_def Some Let_def ps_def ne_def)
    with assms(1) have ml: "length (?c # root) \<le> max_bundle_members lims" and add: "add_paths lims ne ps (?c # root) = Inr ms"
      by (auto simp: root_def res_simps add_member_Inr split: if_splits)
    have ms: "ms = ?c # root @ map path_member (filter (listed ne) ps)" "length ms \<le> max_bundle_members lims"
      and small: "\<And>x. x \<in> set ps \<Longrightarrow> node_size (snd x) \<le> max_bundle_member_bytes lims"
      using add_paths_Inr [OF add ml] by (auto simp: list_all_iff)
    have pf: "fits lims (exported config (Some t)) (path_member y) \<and> path_parts (m_name (path_member y)) = ''files'' # fst y"
      if "y \<in> set ps" for y
      using path_member_fits [OF wf, of "fst y" "snd y" lims config] that small [OF that] ps by auto
    have folder: "is_folder t []" using wf by (simp add: wf_tree_def)
    have "\<forall>m\<in>set ms. fits lims (exported config files) m"
      using ms(1) root_def Some pf config_member_fits(1) [OF c(1)] files_member_fits(1) [OF folder] by (auto split: if_splits)
    moreover have "\<exists>m\<in>set ms. prefix (''files'' # p) (path_parts (m_name m))" if p: "map_of t p \<noteq> None" for p
    proof (cases "p = [] \<and> [] \<notin> set ne")
      case True
      then show ?thesis using ms(1) root_def files_member_fits(2) [OF folder] by (auto simp: dir_member_def)
    next
      case False
      let ?ne = "map (\<lambda>x. butlast (fst x)) (filter (\<lambda>x. fst x \<noteq> []) t)"
      have same: "listed ne y = listed ?ne y" for y by (simp add: listed_def ne_def ps split: node.split)
      have "p \<noteq> [] \<or> (\<exists>y\<in>set t. fst y \<noteq> [])" using False by (auto simp: ne_def ps)
      from listed_above [OF p this refl] obtain y where y: "y \<in> set ps" "listed ne y" "prefix p (fst y)"
        by (auto simp: same ps)
      then have "path_member y \<in> set ms" using ms(1) by auto
      moreover have "prefix (''files'' # p) (path_parts (m_name (path_member y)))"
        using pf [OF y(1)] y(3) by auto
      ultimately show ?thesis by blast
    qed
    ultimately show ?thesis
      using ms Some cp by (auto simp: exported_def split: list.splits if_splits)
  qed
qed


lemma entry_at_parent:
  "entry_at d (p @ [n]) = Some e \<Longrightarrow> p \<noteq> [] \<Longrightarrow> \<exists>st f opened sub. entry_at d p = Some (Src_Entry (Some st) f opened sub) \<and> st_kind st = Directory"
proof (induction p arbitrary: d)
  case (Cons a p)
  obtain before es after where d: "d = Src_Dir before es after" by (cases d)
  show ?case
  proof (cases p)
    case Nil
    then show ?thesis using Cons.prems(1) by (auto simp: d split: option.splits src_entry.splits if_splits)
  next
    case (Cons b p')
    then show ?thesis using Cons.prems(1) Cons.IH by (auto simp: d split: option.splits src_entry.splits if_splits)
  qed
qed simp

lemma snapshot_distinct:
  shows "snapshot_dir lm depth dest d s = Inr s' \<Longrightarrow> distinct (map fst (copied s)) \<Longrightarrow> distinct (map fst (copied s'))"
    and "snapshot_entries lm depth dest xs s = Inr s' \<Longrightarrow> distinct (map fst (copied s)) \<Longrightarrow> distinct (map fst (copied s'))"
    and "snapshot_entry lm depth target e s = Inr s' \<Longrightarrow> distinct (map fst (copied s)) \<Longrightarrow> distinct (map fst (copied s'))"
proof (induction lm depth dest d s and lm depth dest xs s and lm depth target e s
    arbitrary: s' and s' and s'
    rule: snapshot_dir_snapshot_entries_snapshot_entry.induct)
  case (4 lm depth target st f opened sub s)
  from 4(2) obtain st' where st: "st = Some st'" by (cases st) auto
  show ?case
  proof (cases "st_kind st'")
    case Reg
    then show ?thesis using 4(2,3) st snapshot_file_Inr [of lm target st' f s s'] by (simp add: distinct_update)
  qed (use 4 st in \<open>auto simp: res_simps split: if_splits option.splits\<close>)
qed (auto simp: res_simps distinct_update)

text \<open>Names as the operating system has them: no separator and no null byte.\<close>

definition legal_dir :: "src_dir \<Rightarrow> bool" where
  "legal_dir d = (\<forall>q e. entry_at d q = Some e \<longrightarrow> list_all legal_name q)"

lemma snapshot_wf_tree:
  assumes "snapshot_files_source lm (Some d) = Inr s" "distinct_dir d" "legal_dir d"
  shows "wf_tree (copied s)" and "map_of (copied s) = dir_nodes d"
proof -
  from assms(1) have run: "snapshot_dir lm 0 [] d \<lparr>member_count = 0, total_bytes = 0, copied = []\<rparr> = Inr s"
    by (simp add: snapshot_files_source_def)
  show m: "map_of (copied s) = dir_nodes d" using snapshot_copies(1) [OF assms(2) run] by simp
  have "is_folder (copied s) p" if "map_of (copied s) (p @ [n]) = Some x" for p n x
    using that entry_at_parent [of d p n] by (auto simp: is_folder_def m dir_nodes_def)
  moreover have "list_all legal_name (fst x)" if "x \<in> set (copied s)" for x
  proof -
    have "map_of (copied s) (fst x) \<noteq> None" using that by (auto simp: map_of_eq_None_iff)
    then show ?thesis using assms(3) by (auto simp: m dir_nodes_def legal_dir_def split: if_splits)
  qed
  moreover have "distinct (map fst (copied s))" using snapshot_distinct(1) [OF run] by simp
  ultimately show "wf_tree (copied s)" unfolding wf_tree_def by (auto simp: is_folder_def m dir_nodes_def)
qed

subsection \<open>The round trip\<close>

text \<open>What the archive and compression code must give back of an archive it wrote.\<close>

definition codec_ok :: "bundle_env \<Rightarrow> tar_member list \<Rightarrow> bool" where
  "codec_ok env ms = (untar env (tar env ms) = \<lparr>headers = ms, broken = False\<rparr>
     \<and> sum_list (map m_size (filter (\<lambda>m. m_type m = M_File) ms)) \<le> length (tar env ms)
     \<and> starts_with gzip_magic (gzip env (tar env ms))
     \<and> (case decompress env Tar_Gz (gzip env (tar env ms)) of
          Tool_Ran chunks (Some (returncode, err)) \<Rightarrow> returncode = 0 \<and> concat chunks = tar env ms \<and> [] \<notin> set chunks
        | _ \<Rightarrow> False))"

text \<open>A new directory: nothing lies below it.\<close>

definition fresh :: "path \<Rightarrow> fs \<Rightarrow> bool" where
  "fresh dest files = list_all (\<lambda>x. \<not> strict_prefix dest (fst x)) files"

lemma fresh_agrees: "fresh dest files \<Longrightarrow> agrees T dest files"
  by (fastforce simp: fresh_def agrees_def list_all_iff strict_prefix_def dest: map_of_SomeD)

lemma decompress_loop_all:
  "[] \<notin> set chunks \<Longrightarrow> length out + length (concat chunks) \<le> limit
   \<Longrightarrow> decompress_loop limit chunks out = Inr (out @ concat chunks)"
  by (induction limit chunks out rule: decompress_loop.induct) auto

lemma collect_members_all:
  "length ms + length hs \<le> max_bundle_members lims \<Longrightarrow> collect_members lims False hs ms = Inr (ms @ hs)"
  by (induction lims False hs ms rule: collect_members.induct) auto

lemma build_export_tar_Inr:
  "build_export_tar env lims config files = Inr bundle \<Longrightarrow>
     \<exists>ms. export_members lims config files = Inr ms \<and> bundle = gzip env (tar env ms)
       \<and> length (tar env ms) \<le> max_decompressed_bytes lims \<and> length bundle \<le> max_source_bytes lims"
  by (auto simp: build_export_tar_def Let_def res_simps)

lemma archive_members_own:
  assumes "codec_ok env ms" "length ms \<le> max_bundle_members lims" "length (tar env ms) \<le> max_decompressed_bytes lims"
    "\<forall>m\<in>set ms. m_type m \<noteq> M_Sparse"
  shows "archive_members lims (untar env (tar env ms)) = Inr ms"
    and "decompress_to_tempfile lims (decompress env Tar_Gz (gzip env (tar env ms))) = Inr (tar env ms)"
    and "detect_bundle_kind (gzip env (tar env ms)) filename = Some Tar_Gz"
proof -
  have "extracted_bytes ms 0 = Inr (sum_list (map m_size (filter (\<lambda>m. m_type m = M_File) ms)))"
    using assms(4) by (simp add: extracted_bytes_Inr list_all_iff)
  then show "archive_members lims (untar env (tar env ms)) = Inr ms"
    using assms(1-3) collect_members_all [of "[]" ms lims] by (auto simp: archive_members_def codec_ok_def rguard_def)
  show "decompress_to_tempfile lims (decompress env Tar_Gz (gzip env (tar env ms))) = Inr (tar env ms)"
    using assms(1,3) decompress_loop_all [where out = "[]" and limit = "max_decompressed_bytes lims"]
    by (auto simp: codec_ok_def decompress_to_tempfile_def split: decompressor.splits option.splits)
  show "detect_bundle_kind (gzip env (tar env ms)) filename = Some Tar_Gz"
    using assms(1) by (simp add: codec_ok_def detect_bundle_kind_def Let_def)
qed

lemma layout_of_export:
  assumes "agrees (exported config files) dest out" "map_of out (dest @ [''config.toml'']) \<noteq> None"
    and "\<And>t. files = Some t \<Longrightarrow> is_folder t []"
  shows "validate_bundle_layout dest out = Inr ()"
proof -
  have "n = ''config.toml'' \<or> n = ''files''" if n: "n \<in> set (dir_names dest out)" for n
  proof -
    from n obtain x where x: "x \<in> set out" "fst x = dest @ [n]"
      by (auto simp: dir_names_def)
    then have "map_of out (dest @ [n]) \<noteq> None" by (metis image_eqI map_of_eq_None_iff)
    then have "exported config files [n] \<noteq> None" using assms(1) by (fastforce simp: agrees_def)
    then show ?thesis by (auto simp: exported_def split: if_splits)
  qed
  moreover have "''config.toml'' \<in> set (dir_names dest out)"
  proof -
    from assms(2) obtain x where "(dest @ [''config.toml''], x) \<in> set out" by (auto dest: map_of_SomeD)
    then show ?thesis by (auto simp: dir_names_def intro!: image_eqI [of _ _ "(dest @ [''config.toml''], x)"])
  qed
  moreover have "map_of out (dest @ [''files'']) \<noteq> Some (File m data)" for m data
    using assms(1,3) by (cases files) (fastforce simp: agrees_def exported_def is_folder_holds)+
  ultimately show ?thesis
    by (auto simp: validate_bundle_layout_def Let_def list_all_iff rguard_def split: option.split node.split)
qed

lemma import_of_export:
  assumes "build_export_tar env lims config files = Inr bundle" and wf: "\<And>t. files = Some t \<Longrightarrow> wf_tree t"
    and "\<forall>ms. gzip env (tar env ms) = bundle \<longrightarrow> codec_ok env ms" and "anchored dest fs" "fresh dest fs"
  shows "\<exists>out. prepare_source_bytes env lims bundle filename dest fs =
      (Inr (dest @ [''config.toml''], Some (dest @ [''files''])), out)
      \<and> (\<forall>q. q \<noteq> [] \<longrightarrow> map_option holds (map_of out (dest @ q)) = exported config files q)"
proof -
  let ?T = "exported config files"
  from build_export_tar_Inr [OF assms(1)] obtain ms where ms: "export_members lims config files = Inr ms"
    "bundle = gzip env (tar env ms)" "length (tar env ms) \<le> max_decompressed_bytes lims" "length bundle \<le> max_source_bytes lims"
    by blast
  note fit = export_members_fit [OF ms(1) wf]
  have ok: "codec_ok env ms" using assms(3) ms(2) by blast
  have ns: "\<forall>m\<in>set ms. m_type m \<noteq> M_Sparse" using fit by (fastforce simp: fits_def Let_def)
  note own = archive_members_own [OF ok _ ms(3) ns]
  obtain out where out: "extract_members env lims dest ms fs = (Inr (), out)" "agrees ?T dest out"
    "\<forall>m a. m \<in> set ms \<longrightarrow> a \<noteq> [] \<longrightarrow> prefix a (path_parts (m_name m)) \<longrightarrow> map_of out (dest @ a) \<noteq> None"
    using extract_members_fit [OF assms(4) fresh_agrees [OF assms(5)], of ms lims ?T env] fit by blast
  have all: "map_option holds (map_of out (dest @ q)) = ?T q" if q: "q \<noteq> []" for q
  proof (cases "?T q")
    case None
    then show ?thesis using out(2) q by (cases "map_of out (dest @ q)") (auto simp: agrees_def)
  next
    case (Some x)
    then obtain m where "m \<in> set ms" "prefix q (path_parts (m_name m))" using fit by blast
    then obtain y where "map_of out (dest @ q) = Some y" using out(3) q by blast
    then show ?thesis using out(2) q by (auto simp: agrees_def)
  qed
  have "extract_bundle_archive env lims bundle filename dest fs = (Inr (), out)"
    using own fit out(1) by (simp add: extract_bundle_archive_def ms(2))
  moreover have "validate_bundle_layout dest out = Inr ()"
    using layout_of_export [OF out(2)] all [of "[''config.toml'']"] wf by (auto simp: exported_def wf_tree_def)
  ultimately have "prepare_source_bytes env lims bundle filename dest fs =
      (Inr (dest @ [''config.toml''], Some (dest @ [''files''])), out)"
    using own(3) fit ms(2,4) by (simp add: prepare_source_bytes_def prepare_bundle_from_bytes_def validate_source_size_def)
  then show ?thesis using all by blast
qed

text \<open>
  C13: A bundle that is exported from a device can be imported again, whatever it is called: when the export of
  a configuration file and a directory of managed files succeeds, preparing the exported bytes in a new
  directory is accepted and yields the configuration file byte for byte and exactly the exported tree of
  files and folders (with the bytes of every file), provided the tar and gzip code restores what it wrote.
\<close>

theorem export_import_round_trip:
  assumes "export_bundle_bytes env lims config_file (Seen Directory) (Some d) = Inr bundle"
    and "distinct_dir d" and "legal_dir d"
    and "\<forall>ms. gzip env (tar env ms) = bundle \<longrightarrow> codec_ok env ms"
    and "anchored dest fs" and "fresh dest fs"
  shows "\<exists>config out. read_export_file lims ''config.toml'' config_file = Inr config
    \<and> prepare_source_bytes env lims bundle filename dest fs = (Inr (dest @ [''config.toml''], Some (dest @ [''files''])), out)
    \<and> map_option holds (map_of out (dest @ [''config.toml''])) = Some (Some config)
    \<and> (\<forall>p. map_option holds (map_of out (dest @ ''files'' # p)) = map_option holds (dir_nodes d p))"
proof -
  from assms(1) obtain config lm s where c: "read_export_file lims ''config.toml'' config_file = Inr config"
    and s: "snapshot_files_source lm (Some d) = Inr s"
    and b: "build_export_tar env lims config (Some (copied s)) = Inr bundle"
    by (auto simp: export_bundle_bytes_def res_simps)
  note t = snapshot_wf_tree [OF s assms(2,3)]
  from import_of_export [OF b _ assms(4-6), of filename] t(1) obtain out where
    out: "prepare_source_bytes env lims bundle filename dest fs = (Inr (dest @ [''config.toml''], Some (dest @ [''files''])), out)"
    and q: "\<And>q. q \<noteq> [] \<Longrightarrow> map_option holds (map_of out (dest @ q)) = exported config (Some (copied s)) q"
    by auto
  have "map_option holds (map_of out (dest @ ''files'' # p)) = map_option holds (dir_nodes d p)" for p
    using q [of "''files'' # p"] by (simp add: exported_files t(2))
  moreover have "map_option holds (map_of out (dest @ [''config.toml''])) = Some (Some config)"
    using q [of "[''config.toml'']"] by (simp add: exported_def)
  ultimately show ?thesis using c out by blast
qed

text \<open>A sample: the exported members, and an archive code that knows only them.\<close>

definition sample_members :: "tar_member list" where
  "sample_members = [file_member ''config.toml'' ''v = 1'' 384, file_member ''files/Caddyfile'' '':80'' 420,
     file_member ''files/site/index.html'' ''hello'' 420]"

definition sample_bundle_env :: "tar_member list \<Rightarrow> bundle_env" where
  "sample_bundle_env ms = \<lparr>untar = (\<lambda>b. \<lparr>headers = ms, broken = False\<rparr>),
     tar = (\<lambda>ms'. if ms' = ms then replicate 20 CHR ''t'' else []), gzip = (\<lambda>b. gzip_magic @ b),
     decompress = (\<lambda>k b. Tool_Ran [drop 2 b] (Some (0, []))), new_dir_mode = 493, new_file_mode = 420\<rparr>"

definition sample_bundle_limits :: bundle_limits where
  "sample_bundle_limits = \<lparr>max_source_bytes = 30, max_decompressed_bytes = 20, max_bundle_members = 4, max_bundle_member_bytes = 10\<rparr>"

lemma sample_legal: "legal_dir sample_source"
proof -
  have "q \<in> {[''site''], [''site'', ''index.html''], [''Caddyfile'']}" if "entry_at sample_source q = Some e" for q e
    using that by (cases q; cases "tl q"; cases "tl (tl q)") (auto simp: sample_source_simps split: if_splits)
  then show ?thesis by (fastforce simp: legal_dir_def legal_name_def)
qed

lemma sample_sorted:
  "sort_key fst [(''site'', x), (''Caddyfile'', y)] = [(''Caddyfile'', y), (''site'', x)]"
  by simp

lemma sample_snapshot:
  "snapshot_files_source \<lparr>max_file_bytes = 10, max_total_bytes = 15, max_members = 4\<rparr> (Some sample_source) =
     Inr \<lparr>member_count = 3, total_bytes = 8, copied = [([], Folder 493), ([''Caddyfile''], File 420 '':80''),
       ([''site''], Folder 493), ([''site'', ''index.html''], File 420 ''hello'')]\<rparr>"
  by (simp add: snapshot_files_source_def sample_source_simps sample_sorted snapshot_file_quiet)

lemma sample_export:
  "export_bundle_bytes (sample_bundle_env sample_members) sample_bundle_limits (own_file ''v = 1'') (Seen Directory)
     (Some sample_source) = Inr (gzip_magic @ replicate 20 CHR ''t'')"
proof -
  have c: "read_export_file sample_bundle_limits ''config.toml'' (own_file ''v = 1'') = Inr ''v = 1''"
    by (simp add: read_own_file sample_bundle_limits_def)
  have "export_members sample_bundle_limits ''v = 1'' (Some [([], Folder 493), ([''Caddyfile''], File 420 '':80''),
       ([''site''], Folder 493), ([''site'', ''index.html''], File 420 ''hello'')]) = Inr sample_members"
    by code_simp
  then show ?thesis using c sample_snapshot
    by (simp add: export_bundle_bytes_def build_export_tar_def Let_def sample_bundle_limits_def sample_bundle_env_def
        gzip_magic_def)
qed

definition sample_root :: fs where
  "sample_root = [([''tmp''], Folder 1023), ([''tmp'', ''b''], Folder 448), ([''etc''], Folder 493), ([''etc'', ''passwd''], File 420 ''root'')]"

lemma sample_anchored: "anchored [''tmp'', ''b''] sample_root" "fresh [''tmp'', ''b''] sample_root"
  "dir_names [''tmp'', ''b''] sample_root = []"
  by code_simp+

theorem export_import_round_trip_witness:
  "\<exists>out. prepare_source_bytes (sample_bundle_env sample_members) sample_bundle_limits (gzip_magic @ replicate 20 CHR ''t'')
       ''upload'' [''tmp'', ''b''] sample_root = (Inr ([''tmp'', ''b'', ''config.toml''], Some [''tmp'', ''b'', ''files'']), out)
     \<and> map_option holds (map_of out [''tmp'', ''b'', ''config.toml'']) = Some (Some ''v = 1'')
     \<and> map_option holds (map_of out [''tmp'', ''b'', ''files'', ''site'', ''index.html'']) = Some (Some ''hello'')"
proof -
  let ?env = "sample_bundle_env sample_members"
  have "codec_ok ?env sample_members" by code_simp
  moreover have "ms = sample_members" if "gzip ?env (tar ?env ms) = gzip_magic @ replicate 20 CHR ''t''" for ms
    using that by (auto simp: sample_bundle_env_def split: if_splits)
  ultimately have "\<forall>ms. gzip ?env (tar ?env ms) = gzip_magic @ replicate 20 CHR ''t'' \<longrightarrow> codec_ok ?env ms" by metis
  from export_import_round_trip [OF sample_export sample_distinct sample_legal this sample_anchored(1,2), of "''upload''"]
  obtain config out where r: "read_export_file sample_bundle_limits ''config.toml'' (own_file ''v = 1'') = Inr config"
    and o: "prepare_source_bytes ?env sample_bundle_limits (gzip_magic @ replicate 20 CHR ''t'')
       ''upload'' [''tmp'', ''b''] sample_root = (Inr ([''tmp'', ''b'', ''config.toml''], Some [''tmp'', ''b'', ''files'']), out)"
      "map_option holds (map_of out [''tmp'', ''b'', ''config.toml'']) = Some (Some config)"
    and p: "\<And>p. map_option holds (map_of out (''tmp'' # ''b'' # ''files'' # p)) = map_option holds (dir_nodes sample_source p)"
    by auto
  have "config = ''v = 1''" using r by (simp add: read_own_file)
  moreover have "map_option holds (dir_nodes sample_source [''site'', ''index.html'']) = Some (Some ''hello'')"
    by (simp add: dir_nodes_def sample_source_simps)
  ultimately show ?thesis using o p [of "[''site'', ''index.html'']"] by auto
qed

text \<open>A bundle with a member that points outside is refused, and the file it points to stays.\<close>

theorem extraction_confined_witness:
  "\<exists>e files'. prepare_source_bytes (sample_bundle_env [file_member ''config.toml'' [] 420, file_member ''../../etc/passwd'' ''x'' 420])
       sample_bundle_limits (gzip_magic @ ''..'') ''upload'' [''tmp'', ''b''] sample_root = (Inl e, files')
     \<and> map_of files' [''etc'', ''passwd''] = Some (File 420 ''root'')"
proof -
  let ?r = "prepare_source_bytes (sample_bundle_env [file_member ''config.toml'' [] 420, file_member ''../../etc/passwd'' ''x'' 420])
       sample_bundle_limits (gzip_magic @ ''..'') ''upload'' [''tmp'', ''b''] sample_root"
  have "isl (fst ?r)" by code_simp
  then obtain e where e: "?r = (Inl e, snd ?r)" by (metis isl_def prod.collapse)
  from extraction_confined [OF e sample_anchored(1,3), of "[''etc'', ''passwd'']"]
  have "map_of (snd ?r) [''etc'', ''passwd''] = Some (File 420 ''root'')" by (simp add: sample_root_def)
  with e show ?thesis by metis
qed

end
