(* ===== verification/Staged_Worker.thy ===== *)
theory Staged_Worker
  imports Staged_Results Auth Partial_Config Bundle_Archive
begin

text \<open>
  The privileged worker, \<^verbatim>\<open>provision.py\<close>: authorization of a staged job
  (\<^verbatim>\<open>_verify_staged_authorization\<close>), the operation a signed request stands for
  (\<^verbatim>\<open>_request_operation\<close>), the source it is rendered from (the first part of
  \<^verbatim>\<open>_render_verified_staged_candidate_sync\<close>), and the outer handler \<^verbatim>\<open>apply_staged_job\<close> with
  \<^verbatim>\<open>finalize_staged_jobs\<close>.

  SHA-256, base64, \<^verbatim>\<open>ssh-keygen\<close>, the JSON and TOML parsers and URL decoding are parameters. The files of
  a job are values: the manifest, the bytes of \<^verbatim>\<open>request.bin\<close> and of the staged \<^verbatim>\<open>config.toml\<close>. What
  an apply does to the configuration root is modelled in \<open>Apply_Receipt\<close>; here its outcome is an argument.
\<close>

section \<open>Definitions\<close>

subsection \<open>Authorization\<close>

record codec =
  c_sha :: "string \<Rightarrow> string"
  c_b64 :: "string \<Rightarrow> string option"
  c_verify :: "string \<Rightarrow> string \<Rightarrow> string list \<Rightarrow> bool"
  c_json :: "string \<Rightarrow> pyval option"
  c_toml :: "string \<Rightarrow> pyval dict res"
  c_unquote :: "string \<Rightarrow> string"

text \<open>The configuration root as the worker reads it.\<close>

record live_root =
  lr_provisioned :: bool
  lr_signers :: "string option"
  lr_config :: "string option"
  lr_files :: bool

text \<open>A claimed job in its private copy.\<close>

record staged_job =
  sj_manifest :: "pyval dict"
  sj_request :: string
  sj_config :: string

definition claimed_job_is_locally_trusted :: "worker_env \<Rightarrow> int option \<Rightarrow> bool res" where
  "claimed_job_is_locally_trusted env owner = (case owner of
     None \<Rightarrow> Inl (ProvisionError ''cannot inspect claimed staged job'')
   | Some u \<Rightarrow> Inr (if default_root env then u = 0 else u = euid env))"

definition read_staged_request :: "staged_job \<Rightarrow> string option res" where
  "read_staged_request job = (case get_val (sj_manifest job) ''request'' of
     VNone \<Rightarrow> Inr None
   | VDict d \<Rightarrow> Inr (Some (sj_request job))
   | _ \<Rightarrow> Inl (ProvisionError ''staged request metadata must be an object''))"

definition staged_authorization :: "staged_job \<Rightarrow> pyval" where
  "staged_authorization job = (case get_val (sj_manifest job) ''request'' of
     VDict d \<Rightarrow> get_val d ''authorization''
   | _ \<Rightarrow> VNone)"

definition str_field :: "pyval dict \<Rightarrow> string \<Rightarrow> string option" where
  "str_field d k = (case get_val d k of VStr s \<Rightarrow> Some s | _ \<Rightarrow> None)"

text \<open>\<^verbatim>\<open>normalized\<close>: nonce, signature, method and path, all strings.\<close>

record authorization =
  au_nonce :: string
  au_signature :: string
  au_method :: string
  au_path :: string

definition normalize_authorization :: "pyval dict \<Rightarrow> authorization option" where
  "normalize_authorization d =
     (case (str_field d ''nonce'', str_field d ''signature'', str_field d ''method'', str_field d ''path'') of
        (Some n, Some s, Some m, Some p) \<Rightarrow> Some \<lparr>au_nonce = n, au_signature = s, au_method = m, au_path = p\<rparr>
      | _ \<Rightarrow> None)"

text \<open>The signature check; the markers of consumed nonces are returned with the result.\<close>

definition check_signature :: "codec \<Rightarrow> live_root \<Rightarrow> string \<Rightarrow> authorization \<Rightarrow> unit res" where
  "check_signature cd rt payload au = (case build_allowed_signers (lr_signers rt) of
     None \<Rightarrow> Inl (ProvisionError ''re-apply authorization has no active admin signers'')
   | Some signers \<Rightarrow> (case c_b64 cd (au_signature au) of
       None \<Rightarrow> Inl (ProvisionError ''staged authorization signature encoding is invalid'')
     | Some blob \<Rightarrow>
         rguard (c_verify cd (reapply_signature_message (c_sha cd) (au_nonce au) (au_method au) (au_path au) payload) blob signers)
           (ProvisionError ''staged request signature verification failed'')))"

definition verify_staged_authorization ::
  "codec \<Rightarrow> string \<Rightarrow> live_root \<Rightarrow> staged_job \<Rightarrow> bool \<Rightarrow> string list \<Rightarrow> (string option \<times> authorization option) res \<times> string list" where
  "verify_staged_authorization cd boot rt job locally_trusted used =
     (case read_staged_request job of
        Inl e \<Rightarrow> (Inl e, used)
      | Inr request_payload \<Rightarrow>
          (if \<not> lr_provisioned rt then
             (if staged_authorization job \<noteq> VNone
              then (Inl (ProvisionError ''initial provisioning must not carry re-apply authorization''), used)
              else (Inr (request_payload, None), used))
           else if locally_trusted then (Inr (request_payload, None), used)
           else case (request_payload, staged_authorization job) of
             (Some payload, VDict d) \<Rightarrow> (case normalize_authorization d of
                None \<Rightarrow> (Inl (ProvisionError ''staged authorization metadata is invalid''), used)
              | Some au \<Rightarrow> (case check_signature cd rt payload au of
                  Inl e \<Rightarrow> (Inl e, used)
                | Inr _ \<Rightarrow> (case consume_authorization_nonce (c_sha cd) boot (au_nonce au) used of
                    Inl e \<Rightarrow> (Inl e, used)
                  | Inr used' \<Rightarrow> (Inr (request_payload, Some au), used'))))
           | _ \<Rightarrow> (Inl (ProvisionError ''re-apply requires worker-verifiable authorization''), used)))"

subsection \<open>The operation of a signed request\<close>

text \<open>\<^verbatim>\<open>bytes.strip()\<close> leaves nothing.\<close>

definition blank_bytes :: "string \<Rightarrow> bool" where
  "blank_bytes b = list_all (\<lambda>c. cp c = 32 \<or> (9 \<le> cp c \<and> cp c \<le> 13)) b"

definition request_prefixes :: "(string \<times> string option) list" where
  "request_prefixes = [(''/api/config/users/'', None), (''/api/config/containers/'', Some ''container''),
     (''/api/config/container-networks/'', Some ''network''), (''/api/config/container-volumes/'', Some ''volume'')]"

definition unsupported_request :: error where
  "unsupported_request = ProvisionError ''signed request does not map to a supported provisioning operation''"

definition named_operation :: "string \<Rightarrow> string option \<Rightarrow> string \<Rightarrow> pyval dict \<Rightarrow> pyval dict res" where
  "named_operation method table name body =
     (if name = [] \<or> CHR ''/'' \<in> set name then Inl unsupported_request
      else case table of
        None \<Rightarrow>
          (if method = ''PUT'' then Inr [(''op'', VStr ''put_user''), (''name'', VStr name), (''payload'', VDict body)]
           else if method = ''DELETE'' \<and> body = [] then Inr [(''op'', VStr ''delete_user''), (''name'', VStr name)]
           else Inl unsupported_request)
      | Some t \<Rightarrow>
          (if method = ''PUT''
           then Inr [(''op'', VStr ''put_resource''), (''table'', VStr t), (''name'', VStr name), (''payload'', VDict body)]
           else if method = ''DELETE'' \<and> body = []
           then Inr [(''op'', VStr ''delete_resource''), (''table'', VStr t), (''name'', VStr name)]
           else Inl unsupported_request))"

fun match_prefix :: "codec \<Rightarrow> string \<Rightarrow> string \<Rightarrow> pyval dict \<Rightarrow> (string \<times> string option) list \<Rightarrow> pyval dict res" where
  "match_prefix cd method path body [] = Inl unsupported_request"
| "match_prefix cd method path body ((pre, table) # ps) =
     (if \<not> starts_with pre path then match_prefix cd method path body ps
      else named_operation method table (c_unquote cd (remove_prefix pre path)) body)"

definition request_operation :: "codec \<Rightarrow> authorization \<Rightarrow> string \<Rightarrow> pyval dict option res" where
  "request_operation cd au payload =
     (if au_method au = ''POST'' \<and> au_path au = ''/api/config'' then Inr None
      else case (if blank_bytes payload then Some (VDict []) else c_json cd payload) of
        Some (VDict body) \<Rightarrow>
          (if au_method au = ''PATCH'' \<and> au_path au = ''/api/config/network''
           then Inr (Some [(''op'', VStr ''patch_network''), (''payload'', VDict body)])
           else rbind (match_prefix cd (au_method au) (au_path au) body request_prefixes) (\<lambda>op. Inr (Some op)))
      | _ \<Rightarrow> Inl (ProvisionError ''signed partial request body must be a JSON object''))"

subsection \<open>The source of a candidate\<close>

datatype bundle_choice = Staged_Bundle | No_Bundle | Unpacked_Bundle "path option" fs

record source =
  src_config :: string
  src_bundle :: bundle_choice
  src_preserve :: bool
  src_operation :: pyval

definition manifest_bool :: "pyval dict \<Rightarrow> string \<Rightarrow> bool \<Rightarrow> bool res" where
  "manifest_bool manifest key dflt = (case get_or (VBool dflt) manifest key of
     VBool b \<Rightarrow> Inr b
   | _ \<Rightarrow> Inl (ProvisionError (''staged manifest '' @ key @ '' must be a boolean'')))"

definition config_text :: "path \<Rightarrow> fs \<Rightarrow> string res" where
  "config_text p files = (case map_of files p of Some (File m data) \<Rightarrow> Inr data | _ \<Rightarrow> Inl (OSErr ''open''))"

text \<open>\<^verbatim>\<open>load_current_config\<close> and the text of the updated document.\<close>

definition load_current_config :: "codec \<Rightarrow> live_root \<Rightarrow> pyval dict res" where
  "load_current_config cd rt = (case lr_config rt of
     None \<Rightarrow> Inl (ProvisionError ''current config.toml not found'')
   | Some text \<Rightarrow> (case c_toml cd text of
       Inl e \<Rightarrow> Inl (ProvisionError ''invalid current config.toml'')
     | Inr d \<Rightarrow> Inr d))"

definition full_source :: "bundle_env \<Rightarrow> bundle_limits \<Rightarrow> path \<Rightarrow> fs \<Rightarrow> pyval dict \<Rightarrow> string \<Rightarrow> source res" where
  "full_source benv lims tmp files manifest payload =
     (case get_val manifest ''request'' of
        VDict request \<Rightarrow> (case get_val request ''filename'' of
          VStr filename \<Rightarrow>
            (if filename = [] then Inl (ProvisionError ''staged request filename is invalid'')
             else case prepare_source_bytes benv lims payload filename tmp files of
               (Inl e, files1) \<Rightarrow> Inl e
             | (Inr (config_path, bundle_root), files1) \<Rightarrow>
                 rbind (config_text config_path files1) (\<lambda>text.
                 Inr \<lparr>src_config = text, src_bundle = Unpacked_Bundle bundle_root files1, src_preserve = False,
                      src_operation = VStr ''full-apply''\<rparr>))
        | _ \<Rightarrow> Inl (ProvisionError ''staged request filename is invalid''))
      | _ \<Rightarrow> Inl (PyExc ''KeyError''))"

definition partial_source :: "codec \<Rightarrow> bundle_env \<Rightarrow> bundle_limits \<Rightarrow> path \<Rightarrow> fs \<Rightarrow> live_root \<Rightarrow> pyval dict \<Rightarrow> source res" where
  "partial_source cd benv lims tmp files rt operation =
     rbind (load_current_config cd rt) (\<lambda>config.
     rbind (apply_operation config operation) (\<lambda>updated.
     rbind (canonical_config_bytes updated) (\<lambda>candidate.
     case prepare_source_bytes benv lims candidate ''config.toml'' tmp files of
       (Inl e, files1) \<Rightarrow> Inl e
     | (Inr (config_path, bundle_root), files1) \<Rightarrow>
         rbind (config_text config_path files1) (\<lambda>text.
         Inr \<lparr>src_config = text, src_bundle = No_Bundle, src_preserve = lr_files rt,
              src_operation = VStr ''partial-apply''\<rparr>))))"

definition snapshot_source :: "codec \<Rightarrow> staged_job \<Rightarrow> source res" where
  "snapshot_source cd job =
     rbind (manifest_bool (sj_manifest job) ''preserve_bundle_files'' False) (\<lambda>preserve.
     rbind (rguard (get_val (sj_manifest job) ''source_sha256'' = VStr (c_sha cd (sj_config job)))
       (ProvisionError ''staged source config hash changed'')) (\<lambda>_.
     Inr \<lparr>src_config = sj_config job, src_bundle = Staged_Bundle, src_preserve = preserve,
          src_operation = get_or (VStr ''full-apply'') (sj_manifest job) ''operation''\<rparr>))"

definition request_source :: "codec \<Rightarrow> bundle_env \<Rightarrow> bundle_limits \<Rightarrow> path \<Rightarrow> fs \<Rightarrow> live_root \<Rightarrow> staged_job \<Rightarrow> string \<Rightarrow> authorization \<Rightarrow> source res" where
  "request_source cd benv lims tmp files rt job payload au =
     rbind (request_operation cd au payload) (\<lambda>operation. case operation of
        None \<Rightarrow> full_source benv lims tmp files (sj_manifest job) payload
      | Some op \<Rightarrow> partial_source cd benv lims tmp files rt op)"

definition staged_source ::
  "codec \<Rightarrow> bundle_env \<Rightarrow> bundle_limits \<Rightarrow> string \<Rightarrow> path \<Rightarrow> fs \<Rightarrow> live_root \<Rightarrow> staged_job \<Rightarrow> bool \<Rightarrow> string list \<Rightarrow> source res \<times> string list" where
  "staged_source cd benv lims boot tmp files rt job locally_trusted used =
     (case verify_staged_authorization cd boot rt job locally_trusted used of
        (Inl e, used1) \<Rightarrow> (Inl e, used1)
      | (Inr (Some payload, Some au), used1) \<Rightarrow> (request_source cd benv lims tmp files rt job payload au, used1)
      | (Inr _, used1) \<Rightarrow> (snapshot_source cd job, used1))"

subsection \<open>The worker\<close>

text \<open>
  The outcome of verifying, copying and applying a claimed job: its result, or the exception with the
  rollback status it carries.
\<close>

datatype attempt = Attempt_Ok "pyval dict" | Attempt_Failed error "string option"

fun error_text :: "error \<Rightarrow> string" where
  "error_text (ProvisionError m) = m"
| "error_text (ProvisionSystemError m) = m"
| "error_text (StagedQueueBusyError m) = m"
| "error_text (ActivationPolicyError m) = m"
| "error_text (ValueErr m) = m"
| "error_text (OSErr m) = m"
| "error_text (PyExc m) = m"

definition rollback_note :: "string list \<Rightarrow> string" where
  "rollback_note failures = (if failures = [] then [] else ''; rollback: '' @ join ''; '' failures)"

definition success_payload :: "pyval dict \<Rightarrow> pyval dict" where
  "success_payload res = [(''status'', VStr ''succeeded''), (''result'', VDict res)]"

definition failure_payload :: "error \<Rightarrow> string option \<Rightarrow> recovery \<Rightarrow> pyval dict" where
  "failure_payload exc status rc =
     [(''status'', VStr ''failed''), (''error'', VStr (error_text exc @ rollback_note (rollback_failures rc)))]
     @ (if rollback_failures rc \<noteq> [] then [(''rollback_status'', VStr ''failed'')]
        else case status of Some s \<Rightarrow> [(''rollback_status'', VStr s)] | None \<Rightarrow> [])"

text \<open>
  The handler of an exception: the state is recovered first, then the receipt decides. Returned are what the
  worker returns or raises, the results, and whether a terminal result was written.
\<close>

definition reconcile_job ::
  "worker_env \<Rightarrow> real \<Rightarrow> string \<Rightarrow> error \<Rightarrow> string option \<Rightarrow> pyval dict option \<Rightarrow> recovery res \<Rightarrow> results_path
     \<Rightarrow> pyval dict res \<times> results_path \<times> bool" where
  "reconcile_job env now j exc status manifest recovered p = (case recovered of
     Inl e \<Rightarrow> (Inl e, p, False)
   | Inr rc \<Rightarrow> (case committed_result_for_manifest (rec_receipt rc) j manifest of
       Some res \<Rightarrow> (case write_result env now j (success_payload res) p of
           Inl e \<Rightarrow> (Inl e, p, False)
         | Inr p1 \<Rightarrow> (Inr res, p1, True))
     | None \<Rightarrow> (case write_result env now j (failure_payload exc status rc) p of
           Inl e \<Rightarrow> (Inl e, p, False)
         | Inr p1 \<Rightarrow> (Inl exc, p1, True))))"

definition run_claimed_job ::
  "worker_env \<Rightarrow> real \<Rightarrow> string \<Rightarrow> attempt \<Rightarrow> pyval dict option \<Rightarrow> recovery res \<Rightarrow> results_path
     \<Rightarrow> pyval dict res \<times> results_path \<times> bool" where
  "run_claimed_job env now j ended manifest recovered p = (case ended of
     Attempt_Ok res \<Rightarrow> (case write_result env now j (success_payload res) p of
         Inl e \<Rightarrow> reconcile_job env now j e None manifest recovered p
       | Inr p1 \<Rightarrow> (Inr res, p1, True))
   | Attempt_Failed exc status \<Rightarrow> reconcile_job env now j exc status manifest recovered p)"

text \<open>
  \<open>owner\<close> is the owner of the claimed directory, \<open>ended\<close> what applying it as a trusted or untrusted job
  gives, \<open>manifest\<close> the verified manifest, \<open>recovered\<close> the recovery after a failure.
\<close>

definition apply_staged_job ::
  "worker_env \<Rightarrow> real \<Rightarrow> int option \<Rightarrow> (bool \<Rightarrow> attempt) \<Rightarrow> pyval dict option \<Rightarrow> recovery res \<Rightarrow> queue_state \<Rightarrow> results_path
     \<Rightarrow> pyval dict option res \<times> queue_state \<times> results_path" where
  "apply_staged_job env now owner ended manifest recovered st p = (case claim_next_job now st of
     (Inl e, st1) \<Rightarrow> (Inl e, st1, p)
   | (Inr None, st1) \<Rightarrow> (Inr None, st1, p)
   | (Inr (Some j), st1) \<Rightarrow> (case claimed_job_is_locally_trusted env owner of
       Inl e \<Rightarrow> (Inl e, st1, p)
     | Inr locally_trusted \<Rightarrow> (case run_claimed_job env now j (ended locally_trusted) manifest recovered p of
         (r, p1, terminal_result_written) \<Rightarrow>
           (rbind r (\<lambda>res. Inr (Some res)), if terminal_result_written then cleanup_claimed_job j st1 else st1, p1))))"

definition finalize_staged_jobs ::
  "worker_env \<Rightarrow> real \<Rightarrow> string option \<Rightarrow> recovery res \<Rightarrow> claim_node dict \<Rightarrow> results_path \<Rightarrow> nat res \<times> claim_node dict \<times> results_path" where
  "finalize_staged_jobs env now reason recovered claims p = (case recovered of
     Inl e \<Rightarrow> (Inl e, claims, p)
   | Inr rc \<Rightarrow>
       (let base = (case reason of Some s \<Rightarrow> if s = [] then None else Some s | None \<Rightarrow> None);
            failure_reason = (case base of Some s \<Rightarrow> s | None \<Rightarrow> ''privileged apply worker stopped before writing a result'')
        in finalize_abandoned_active_jobs env now (failure_reason @ rollback_note (rollback_failures rc)) (rec_receipt rc) claims p))"

section \<open>Re-applies come from the signed request\<close>

lemma consume_marker_Inr:
  "consume_authorization_nonce sha boot nonce used = Inr used' \<Longrightarrow>
     nonce_matches_boot boot nonce \<and> sha nonce \<notin> set used \<and> used' = sha nonce # used"
  by (auto simp: consume_authorization_nonce_def split: if_splits)

lemma verify_remote_Inr:
  assumes "verify_staged_authorization cd boot rt job False used = (Inr (payload, auth), used')" "lr_provisioned rt"
  shows "\<exists>au. payload = Some (sj_request job) \<and> auth = Some au \<and> check_signature cd rt (sj_request job) au = Inr ()
     \<and> consume_authorization_nonce (c_sha cd) boot (au_nonce au) used = Inr used'"
  using assms
  by (auto simp: verify_staged_authorization_def read_staged_request_def split: sum.splits pyval.splits option.splits)
     (metis option.inject)

text \<open>
  C11: On a provisioned device a job that was not staged by the superuser is rendered only from what an
  administrator signed. When the worker accepts it, the bytes of its request, with their method and path, carry
  a valid signature of a signer of the current configuration over a nonce of this boot that was never used
  before and is now used up; the configuration is then that of the signed upload itself, or the current
  configuration changed by the operation the signed method, path and body stand for. The candidate and the
  digests the unprivileged service prepared play no part. A job that is refused uses up no nonce but a signed one.
\<close>

theorem reapply_from_signed_request:
  assumes "lr_provisioned rt"
    and "staged_source cd benv lims boot tmp files rt job False used = (r, used')"
  shows "(r = Inr src \<longrightarrow> (\<exists>au signers blob.
      build_allowed_signers (lr_signers rt) = Some signers \<and> c_b64 cd (au_signature au) = Some blob
      \<and> c_verify cd (reapply_signature_message (c_sha cd) (au_nonce au) (au_method au) (au_path au) (sj_request job)) blob signers
      \<and> nonce_matches_boot boot (au_nonce au) \<and> c_sha cd (au_nonce au) \<notin> set used \<and> used' = c_sha cd (au_nonce au) # used
      \<and> (au_method au = ''POST'' \<and> au_path au = ''/api/config''
          \<and> full_source benv lims tmp files (sj_manifest job) (sj_request job) = Inr src
        \<or> (\<exists>op. request_operation cd au (sj_request job) = Inr (Some op)
          \<and> partial_source cd benv lims tmp files rt op = Inr src))))
    \<and> (used' = used \<or> (\<exists>au. check_signature cd rt (sj_request job) au = Inr () \<and> used' = c_sha cd (au_nonce au) # used))"
proof (cases "verify_staged_authorization cd boot rt job False used")
  case (Pair v u)
  show ?thesis
  proof (cases v)
    case (Inl e)
    then have "u = used" using Pair assms(1)
      by (auto simp: verify_staged_authorization_def split: sum.splits option.splits pyval.splits if_splits)
    then show ?thesis using Pair Inl assms(2) by (auto simp: staged_source_def)
  next
    case (Inr x)
    then obtain au where v: "v = Inr (Some (sj_request job), Some au)" "check_signature cd rt (sj_request job) au = Inr ()"
      "consume_authorization_nonce (c_sha cd) boot (au_nonce au) used = Inr u"
      using verify_remote_Inr [of cd boot rt job used "fst x" "snd x" u] Pair assms(1) by (cases x) auto
    then have r: "r = request_source cd benv lims tmp files rt job (sj_request job) au" "used' = u"
      using assms(2) Pair by (auto simp: staged_source_def)
    from v(2) obtain signers blob where s: "build_allowed_signers (lr_signers rt) = Some signers" "c_b64 cd (au_signature au) = Some blob"
      "c_verify cd (reapply_signature_message (c_sha cd) (au_nonce au) (au_method au) (au_path au) (sj_request job)) blob signers"
      by (auto simp: check_signature_def res_simps split: option.splits)
    note n = consume_marker_Inr [OF v(3)]
    have "au_method au = ''POST'' \<and> au_path au = ''/api/config'' \<and> full_source benv lims tmp files (sj_manifest job) (sj_request job) = Inr src
        \<or> (\<exists>op. request_operation cd au (sj_request job) = Inr (Some op) \<and> partial_source cd benv lims tmp files rt op = Inr src)"
      if "r = Inr src"
      using that r(1) by (auto simp: request_source_def request_operation_def res_simps split: option.splits if_splits pyval.splits)
    then show ?thesis using r(2) s n v(2) by blast
  qed
qed

text \<open>
  The same as noninterference: two jobs that differ only in what the unprivileged service prepared (candidate,
  digests, flags of the manifest) are treated alike.
\<close>

lemma unsigned_parts_irrelevant:
  assumes "lr_provisioned rt" "sj_request a = sj_request b"
    and "get_val (sj_manifest a) ''request'' = get_val (sj_manifest b) ''request''"
  shows "staged_source cd benv lims boot tmp files rt a False used = staged_source cd benv lims boot tmp files rt b False used"
proof -
  have "read_staged_request a = read_staged_request b" "staged_authorization a = staged_authorization b"
    by (simp_all only: read_staged_request_def staged_authorization_def assms)
  then have v: "verify_staged_authorization cd boot rt a False used = verify_staged_authorization cd boot rt b False used"
    by (simp only: verify_staged_authorization_def)
  have f: "full_source benv lims tmp files (sj_manifest a) p = full_source benv lims tmp files (sj_manifest b) p" for p
    using assms(3) by (simp add: full_source_def)
  show ?thesis
  proof (cases "verify_staged_authorization cd boot rt b False used")
    case (Pair r u)
    then show ?thesis using v f verify_remote_Inr [of cd boot rt b used _ _ u] assms(1)
      by (cases r) (auto simp: staged_source_def request_source_def split: option.splits)
  qed
qed

definition sample_codec :: codec where
  "sample_codec = \<lparr>c_sha = (\<lambda>b. b), c_b64 = Some, c_verify = (\<lambda>m b s. b = ''good''), c_json = (\<lambda>b. None), c_toml = (\<lambda>b. Inr []),
     c_unquote = (\<lambda>s. s)\<rparr>"

definition sample_job :: staged_job where
  "sample_job = \<lparr>sj_manifest = [(''request'', VDict [(''filename'', VStr ''config.toml''), (''authorization'', VDict
       [(''nonce'', VStr ''b:1''), (''signature'', VStr ''good''), (''method'', VStr ''POST''), (''path'', VStr ''/api/config'')])])],
     sj_request = ''v = 1'', sj_config = ''v = 0''\<rparr>"

definition sample_live :: live_root where
  "sample_live = \<lparr>lr_provisioned = True, lr_signers = Some ''key'', lr_config = Some ''v = 2'', lr_files = False\<rparr>"

theorem reapply_from_signed_request_witness:
  "\<exists>src n. staged_source sample_codec (sample_bundle_env []) sample_bundle_limits ''b'' [''tmp'', ''b''] sample_root sample_live sample_job False []
       = (Inr src, [n]) \<and> src_config src = ''v = 1'' \<and> nonce_matches_boot ''b'' n"
proof -
  let ?r = "staged_source sample_codec (sample_bundle_env []) sample_bundle_limits ''b'' [''tmp'', ''b''] sample_root sample_live sample_job False []"
  have c: "map_sum id src_config (fst ?r) = Inr ''v = 1''" by code_simp
  then obtain src where s: "fst ?r = Inr src" "src_config src = ''v = 1''" by (auto simp: map_sum_def split: sum.splits)
  have p: "lr_provisioned sample_live" by (simp add: sample_live_def)
  have sh: "c_sha sample_codec n = n" for n by (simp add: sample_codec_def)
  have e: "?r = (Inr src, snd ?r)" using s(1) by (metis prod.collapse)
  from reapply_from_signed_request [OF p e, of src, THEN conjunct1, THEN mp, OF refl] obtain n where
    "nonce_matches_boot ''b'' n" "snd ?r = [n]" unfolding sh by blast
  with e s(2) show ?thesis by metis
qed

section \<open>A claimed job ends with a published result or stays claimed\<close>

lemma worker_payloads: "worker_payload (success_payload res)" "worker_payload (failure_payload exc status rc)"
  by (auto simp: worker_payload_def success_payload_def failure_payload_def has_key_def split: option.splits)

lemma claim_next_Some:
  assumes "claim_next_job now st = (Inr (Some j), st1)"
  shows "validate_job_id (VStr j) = Inr j" and "active_node st1 j = Some QDir"
proof -
  note c = claim_locked_Some [OF assms [unfolded claim_next_job_def]]
  then have "valid_id j" by blast
  then show "validate_job_id (VStr j) = Inr j"
    by (auto simp: valid_id_def validate_job_id_def split: if_splits)
  show "active_node st1 j = Some QDir" using c by (simp add: active_node_def)
qed

lemma committed_result_receipt:
  "committed_result_for_manifest r j manifest = Some res \<Longrightarrow>
     \<exists>x. r = Some x \<and> phase x = COMMITTED \<and> job_id x = j \<and> result x = res"
  by (auto simp: committed_result_for_manifest_def split: option.splits if_splits)

text \<open>What a job was reported with: \<open>r\<close> is what the worker returns or raises.\<close>

definition reported :: "pyval dict res \<Rightarrow> attempt \<Rightarrow> string \<Rightarrow> recovery res \<Rightarrow> pyval dict \<Rightarrow> bool" where
  "reported r ended j recovered d = (case r of
     Inr res \<Rightarrow> dget d ''status'' = Some (VStr ''succeeded'') \<and> dget d ''result'' = Some (sorted_json (VDict res))
       \<and> (ended = Attempt_Ok res \<or> (\<exists>rc x. recovered = Inr rc \<and> rec_receipt rc = Some x \<and> phase x = COMMITTED
             \<and> job_id x = j \<and> result x = res))
   | Inl exc \<Rightarrow> dget d ''status'' = Some (VStr ''failed'') \<and> (\<exists>status. ended = Attempt_Failed exc status)
       \<and> (\<exists>rc. recovered = Inr rc \<and> dget d ''error'' = Some (VStr (error_text exc @ rollback_note (rollback_failures rc)))))"

lemma run_claimed_job_reports:
  assumes "validate_job_id (VStr j) = Inr j" "owner_matches env m"
    and "verify_results_directory (default_root env) (RResults m es) = Inr (Some m)" "default_root reader = default_root env"
    and "run_claimed_job env now j ended manifest recovered (RResults m es) = (r, p1, written)"
  shows "(written \<and> (\<exists>d. read_result reader j p1 = Inr (Some d) \<and> reported r ended j recovered d))
    \<or> (\<not> written \<and> p1 = RResults m es \<and> (\<exists>e. r = Inl e \<and> recovered = Inl e))"
proof -
  note w = write_read [OF assms(1) _ assms(2-4)]
  have ok: "\<exists>p d. write_result env now j (success_payload res) (RResults m es) = Inr p \<and> read_result reader j p = Inr (Some d)
      \<and> dget d ''status'' = Some (VStr ''succeeded'') \<and> dget d ''result'' = Some (sorted_json (VDict res))" for res
    using w [OF worker_payloads(1) [of res], of now] by (auto simp: success_payload_def)
  have failed: "\<exists>p d. write_result env now j (failure_payload exc status rc) (RResults m es) = Inr p \<and> read_result reader j p = Inr (Some d)
      \<and> dget d ''status'' = Some (VStr ''failed'') \<and> dget d ''error'' = Some (VStr (error_text exc @ rollback_note (rollback_failures rc)))"
    for exc status rc
    using w [OF worker_payloads(2) [of exc status rc], of now] by (auto simp: failure_payload_def)
  show ?thesis
  proof (cases ended)
    case (Attempt_Ok res)
    with ok [of res] assms(5) show ?thesis by (auto simp: run_claimed_job_def reported_def)
  next
    case (Attempt_Failed exc status)
    show ?thesis
    proof (cases recovered)
      case (Inl e)
      with Attempt_Failed assms(5) show ?thesis by (auto simp: run_claimed_job_def reconcile_job_def)
    next
      case (Inr rc)
      show ?thesis
      proof (cases "committed_result_for_manifest (rec_receipt rc) j manifest")
        case None
        with Inr Attempt_Failed failed [of exc status rc] assms(5) show ?thesis
          by (auto simp: run_claimed_job_def reconcile_job_def reported_def)
      next
        case (Some res)
        with Inr Attempt_Failed ok [of res] committed_result_receipt [OF Some] assms(5) show ?thesis
          by (auto simp: run_claimed_job_def reconcile_job_def reported_def)
      qed
    qed
  qed
qed



end
