(* ===== verification/Bootstrap_Security.thy ===== *)
theory Bootstrap_Security
  imports Config_Values
begin

text \<open>
  The browser checks of first-boot requests, \<^verbatim>\<open>bootstrap_security.py\<close>: before a device has administrators,
  a request must name the device by an address or a local name, and its \<^verbatim>\<open>Origin\<close> and \<^verbatim>\<open>Referer\<close>,
  if any, must be the origin of the host it was sent to. \<^verbatim>\<open>urlparse\<close> is the \<open>urlsplit\<close> of \<open>Config_Values\<close>
  after the removal of leading blanks and of tabs and line ends. Headers are a dict with lower-case names.
\<close>

section \<open>Definitions\<close>

record request_origin =
  o_scheme :: string
  o_host :: string
  o_port :: nat

text \<open>What \<^verbatim>\<open>urlparse\<close> removes before it splits.\<close>

definition clean_url :: "string \<Rightarrow> string" where
  "clean_url url = filter (\<lambda>c. cp c \<notin> {9, 10, 13}) (dropWhile (\<lambda>c. cp c \<le> 32) url)"

definition urlparse :: "string \<Rightarrow> split_url res" where
  "urlparse url = urlsplit (clean_url url)"

text \<open>\<^verbatim>\<open>parsed.port or default\<close>: a malformed port raises, a missing or zero port is the default.\<close>

definition port_or :: "nat \<Rightarrow> split_url \<Rightarrow> nat res" where
  "port_or dflt u =
     (if \<not> url_port_ok u then Inl (ValueErr ''port'')
      else Inr (case snd (hostinfo (url_netloc u)) of
        None \<Rightarrow> dflt
      | Some p \<Rightarrow> if nat_of_digits p = 0 then dflt else nat_of_digits p))"

definition allowed_host :: "string \<Rightarrow> bool" where
  "allowed_host hostname =
     (hostname \<in> {''localhost'', ''gateway'', ''atomixos''} \<or> ends_with ''.local'' hostname \<or> ip_address hostname \<noteq> None)"

text \<open>The origin of a parsed URL; every \<^verbatim>\<open>ValueError\<close> gives none.\<close>

definition origin_of :: "string \<Rightarrow> nat \<Rightarrow> split_url \<Rightarrow> request_origin option" where
  "origin_of scheme dflt u = (case url_hostname u of
     None \<Rightarrow> None
   | Some h \<Rightarrow> (case port_or dflt u of
       Inl e \<Rightarrow> None
     | Inr p \<Rightarrow> Some \<lparr>o_scheme = scheme, o_host = lower h, o_port = p\<rparr>))"

definition host_origin :: "string \<Rightarrow> request_origin option" where
  "host_origin host_header = (case urlparse (''//'' @ host_header) of
     Inl e \<Rightarrow> None
   | Inr u \<Rightarrow> origin_of ''http'' 80 u)"

definition header_origin :: "string \<Rightarrow> request_origin option" where
  "header_origin v = (case urlparse v of
     Inl e \<Rightarrow> None
   | Inr u \<Rightarrow>
       (if url_scheme u \<notin> {''http'', ''https''} then None
        else origin_of (url_scheme u) (if url_scheme u = ''https'' then 443 else 80) u))"

definition header_or_empty :: "string dict \<Rightarrow> string \<Rightarrow> string" where
  "header_or_empty headers k = (case dget headers k of None \<Rightarrow> [] | Some v \<Rightarrow> v)"

fun check_headers :: "request_origin \<Rightarrow> string dict \<Rightarrow> string list \<Rightarrow> unit res" where
  "check_headers host headers [] = Inr ()"
| "check_headers host headers (h # hs) =
     (if header_or_empty headers h = [] then check_headers host headers hs
      else if header_origin (header_or_empty headers h) \<noteq> Some host
      then Inl (PyExc (''NotAuthorized: bootstrap '' @ h @ '' is not allowed''))
      else check_headers host headers hs)"

definition enforce_bootstrap_browser_origin :: "string dict \<Rightarrow> unit res" where
  "enforce_bootstrap_browser_origin headers = (case host_origin (header_or_empty headers ''host'') of
     None \<Rightarrow> Inl (PyExc ''NotAuthorized: bootstrap host is not allowed'')
   | Some host \<Rightarrow>
       rbind (rguard (allowed_host (o_host host)) (PyExc ''NotAuthorized: bootstrap host is not allowed'')) (\<lambda>_.
       check_headers host headers [''origin'', ''referer'']))"

section \<open>Requests of the page itself pass, those of other sites do not\<close>

text \<open>The network location of a URL with a scheme or without.\<close>

definition net_location :: "string \<Rightarrow> string" where
  "net_location s = takeWhile (\<lambda>c. \<not> (c = CHR ''/'' \<or> c = CHR ''?'' \<or> c = CHR ''#'')) s"

text \<open>Splitting a URL with a network location depends, but for the scheme, on what follows the slashes.\<close>

definition netloc_ok :: "string \<Rightarrow> bool" where
  "netloc_ok n = (let opened = CHR ''['' \<in> set n; closed = CHR '']'' \<in> set n in
     \<not> (opened \<noteq> closed \<or> (opened \<and> \<not> bracketed_netloc_ok n)))"

lemma partition_colon:
  "partition_on (CHR '':'') (''http:'' @ s) = (''http'', Some s)"
  "\<exists>a b. partition_on (CHR '':'') (''//'' @ s) = (''//'' @ a, b)"
  by (auto simp: partition_on_def)

lemma urlsplit_http:
  "urlsplit (''http://'' @ s) = Inr u \<Longrightarrow> url_scheme u = ''http'' \<and> url_netloc u = net_location s"
  "isl (urlsplit (''http://'' @ s)) \<longleftrightarrow> \<not> netloc_ok (net_location s)"
proof -
  have p: "partition_on (CHR '':'') (''http://'' @ s) = (''http'', Some (''//'' @ s))"
    using partition_colon(1) [of "''//'' @ s"] by simp
  have l: "lower ''http'' = ''http''" by code_simp
  show "urlsplit (''http://'' @ s) = Inr u \<Longrightarrow> url_scheme u = ''http'' \<and> url_netloc u = net_location s"
    unfolding urlsplit_def p by (auto simp: Let_def l starts_with_def net_location_def is_scheme_char_def is_ascii_alnum_def
        is_ascii_lower_def cp_def split: if_splits prod.splits)
  show "isl (urlsplit (''http://'' @ s)) \<longleftrightarrow> \<not> netloc_ok (net_location s)"
    unfolding urlsplit_def p by (auto simp: Let_def l starts_with_def net_location_def netloc_ok_def is_scheme_char_def is_ascii_alnum_def
        is_ascii_lower_def cp_def split: if_splits prod.splits)
qed

lemma urlsplit_relative:
  "urlsplit (''//'' @ s) = Inr u \<Longrightarrow> url_netloc u = net_location s"
  "isl (urlsplit (''//'' @ s)) \<longleftrightarrow> \<not> netloc_ok (net_location s)"
proof -
  obtain a b where p: "partition_on (CHR '':'') (''//'' @ s) = (''//'' @ a, b)" using partition_colon(2) by blast
  show "urlsplit (''//'' @ s) = Inr u \<Longrightarrow> url_netloc u = net_location s"
    unfolding urlsplit_def p by (auto simp: Let_def starts_with_def net_location_def is_ascii_lower_def is_ascii_upper_def cp_def
        split: if_splits prod.splits option.splits)
  show "isl (urlsplit (''//'' @ s)) \<longleftrightarrow> \<not> netloc_ok (net_location s)"
    unfolding urlsplit_def p by (auto simp: Let_def starts_with_def net_location_def netloc_ok_def is_ascii_lower_def is_ascii_upper_def
        cp_def split: if_splits prod.splits option.splits)
qed

lemma clean_url_prefix:
  "clean_url (''//'' @ s) = ''//'' @ filter (\<lambda>c. cp c \<notin> {9, 10, 13}) s"
  "clean_url (''http://'' @ s) = ''http://'' @ filter (\<lambda>c. cp c \<notin> {9, 10, 13}) s"
  by (simp_all add: clean_url_def cp_def)

lemma net_location_path: "net_location (s @ CHR ''/'' # p) = net_location s"
  by (induction s) (auto simp: net_location_def)

lemma origin_of_netloc: "url_netloc u = url_netloc v \<Longrightarrow> origin_of sc d u = origin_of sc d v"
  by (simp only: origin_of_def url_hostname_def port_or_def url_port_ok_def)

text \<open>The page a browser loaded from a host has the origin of that host, with any path.\<close>

lemma same_origin:
  assumes "net_location s = net_location t"
  shows "(case urlsplit (''//'' @ s) of Inl e \<Rightarrow> None | Inr u \<Rightarrow> origin_of ''http'' 80 u) =
    (case urlsplit (''http://'' @ t) of Inl e \<Rightarrow> None | Inr u \<Rightarrow>
       (if url_scheme u \<notin> {''http'', ''https''} then None
        else origin_of (url_scheme u) (if url_scheme u = ''https'' then 443 else 80) u))"
proof (cases "netloc_ok (net_location s)")
  case True
  then obtain u v where uv: "urlsplit (''//'' @ s) = Inr u" "urlsplit (''http://'' @ t) = Inr v"
    using urlsplit_relative(2) [of s] urlsplit_http(2) [of t] assms by (metis isl_def sum.exhaust)
  then show ?thesis
    using urlsplit_relative(1) [OF uv(1)] urlsplit_http(1) [OF uv(2)] assms origin_of_netloc [of u v] by simp
next
  case False
  then have "isl (urlsplit (''//'' @ s))" "isl (urlsplit (''http://'' @ t))"
    using urlsplit_relative(2) [of s] urlsplit_http(2) [of t] assms by simp_all
  then show ?thesis by (auto simp: isl_def)
qed

lemma page_origin:
  "header_origin (''http://'' @ host) = host_origin host"
  "header_origin (''http://'' @ host @ CHR ''/'' # path) = host_origin host"
  unfolding header_origin_def host_origin_def urlparse_def clean_url_prefix
  by (rule same_origin [symmetric], simp add: net_location_path cp_def)+

lemma check_headers_Inr:
  "check_headers host headers hs = Inr () \<longleftrightarrow>
     (\<forall>h\<in>set hs. header_or_empty headers h = [] \<or> header_origin (header_or_empty headers h) = Some host)"
  by (induction hs) auto

text \<open>
  C17: A first-boot request that passes was sent to the device under an IP address, a \<^verbatim>\<open>.local\<close> name or one
  of the three fixed names, over plain HTTP, and each of its \<^verbatim>\<open>Origin\<close> and \<^verbatim>\<open>Referer\<close> headers names that
  very scheme, host and port, so a page of another site, under a rebound name too, cannot drive the
  provisioning. And the page of the device itself is not locked out: the same request with the
  \<^verbatim>\<open>Origin\<close> of its host and a \<^verbatim>\<open>Referer\<close> to any path there passes too.
\<close>

theorem bootstrap_origin_enforced:
  assumes "enforce_bootstrap_browser_origin headers = Inr ()"
  shows "\<exists>origin. host_origin (header_or_empty headers ''host'') = Some origin \<and> o_scheme origin = ''http''
    \<and> (o_host origin \<in> {''localhost'', ''gateway'', ''atomixos''} \<or> ends_with ''.local'' (o_host origin)
       \<or> ip_address (o_host origin) \<noteq> None)
    \<and> (\<forall>h v. h \<in> {''origin'', ''referer''} \<longrightarrow> dget headers h = Some v \<longrightarrow> v \<noteq> [] \<longrightarrow> header_origin v = Some origin)
    \<and> enforce_bootstrap_browser_origin (dset ''origin'' (''http://'' @ header_or_empty headers ''host'')
        (dset ''referer'' (''http://'' @ header_or_empty headers ''host'' @ CHR ''/'' # path) headers)) = Inr ()"
proof -
  let ?h = "header_or_empty headers ''host''"
  from assms obtain org where org: "host_origin ?h = Some org" "allowed_host (o_host org)"
    "check_headers org headers [''origin'', ''referer''] = Inr ()"
    by (auto simp: enforce_bootstrap_browser_origin_def res_simps split: option.splits)
  have "o_scheme org = ''http''" using org(1) by (auto simp: host_origin_def origin_of_def split: sum.splits option.splits)
  moreover have "header_origin v = Some org" if "h \<in> {''origin'', ''referer''}" "dget headers h = Some v" "v \<noteq> []" for h v
    using that org(3) by (auto simp: check_headers_Inr header_or_empty_def simp del: check_headers.simps)
  moreover have "enforce_bootstrap_browser_origin (dset ''origin'' (''http://'' @ ?h)
        (dset ''referer'' (''http://'' @ ?h @ CHR ''/'' # path) headers)) = Inr ()"
    using org(1,2) page_origin by (simp add: enforce_bootstrap_browser_origin_def check_headers_Inr header_or_empty_def)
  ultimately show ?thesis using org(1,2) by (auto simp: allowed_host_def)
qed

theorem bootstrap_origin_enforced_witness:
  "enforce_bootstrap_browser_origin [(''host'', ''192.168.1.1:8080''), (''referer'', ''http://192.168.1.1:8080/setup''), (''origin'', ''http://192.168.1.1:8080'')] = Inr ()"
proof -
  have "enforce_bootstrap_browser_origin [(''host'', ''192.168.1.1:8080'')] = Inr ()" by code_simp
  from bootstrap_origin_enforced [OF this, of "''setup''"] show ?thesis by (auto simp: header_or_empty_def)
qed

end
