(* ===== verification/Spec2Isabelle.thy ===== *)
theory Spec2Isabelle
  imports Auth Job_Manager Lan_Gateway Firewall_Inbound Managed_Users Partial_Config Imported_State Managed_Access Staged_Worker Bootstrap_Security
begin

text \<open>
  Verification of the AtomixOS provisioning service (\<^verbatim>\<open>src/scripts/atomixos_provision\<close>) and of the boot
  scripts that apply what it writes (\<^verbatim>\<open>src/scripts/*.py\<close>).

  \<^bold>\<open>The program.\<close> An unprivileged HTTP service accepts a configuration (\<^verbatim>\<open>config.toml\<close>, alone or in a
  bundle with files), authenticated by an SSH signature over a nonce once the device is provisioned. It
  stages the job in a queue directory; a privileged worker claims one job at a time, verifies the staged
  tree against its manifest, renders the control files of a candidate root, promotes the candidate by
  renaming, activates it and restores the previous root when activation fails. Markers and a receipt on
  disk let a crash at any point be recovered. At boot, scripts read the control files and configure the
  LAN, the firewall and the user accounts; the container units are copied into the Quadlet directories.

  \<^bold>\<open>The theories\<close>, each with its data, operations and theorems:
  \<^item> \<open>Py_Base\<close>: what the sources share: exceptions as \<open>error + 'a\<close>, parsed values, dicts in
    insertion order, strings (code points below 256) with the \<^verbatim>\<open>str\<close> methods, decimal numerals, JSON escapes;
    the collection \<open>res_simps\<close> inverts results.
  \<^item> \<open>Config_Root\<close> (\<^verbatim>\<open>activation.py\<close>: promotion, rollback, discard, recovery): roots are trees,
    operations are programs that emit filesystem steps, so an interruption is a prefix of the steps, with a
    partly done \<^verbatim>\<open>rmtree\<close> or copy. \<open>Crash_Logic\<close>: Hoare triples with a crash condition for
    these programs, and a locale for programs followed by a recovery that may itself be interrupted.
  \<^item> \<open>Apply_Receipt\<close> (\<^verbatim>\<open>apply_transaction.py\<close>, the promotion in \<^verbatim>\<open>provision.py\<close>): receipts,
    commit, recovery of an interrupted staged apply. Its main theorem: a re-apply is atomic under crashes.
  \<^item> \<open>Staging_Manifest\<close>, \<open>Staging_Queue\<close>, \<open>Staged_Results\<close> (\<^verbatim>\<open>staging.py\<close>, the rest of
    \<^verbatim>\<open>apply_transaction.py\<close>): manifests and their verification; reservations, ready markers, claims,
    abandonment and timeouts on the queue directory, each operation atomic under the queue lock and
    composed by an \<open>inductive\<close> step relation; published results, waiting for them, finalization after a crash.
  \<^item> \<open>Staged_Worker\<close> (\<^verbatim>\<open>provision.py\<close>): what the worker does with a claimed job: authorization, the
    operation a signed request stands for, the source it renders from, and the handler that publishes a result
    and removes the claim.
  \<^item> \<open>Job_Manager\<close> (\<^verbatim>\<open>jobs.py\<close>): jobs, the single-flight manager as a step relation over
    interleavings of the event loop, staging and monitoring of staged jobs.
  \<^item> \<open>Auth\<close> (\<^verbatim>\<open>auth.py\<close>): nonces, signature message, guards; one locale states single use for the
    nonce store of the service and for the marker directory of the worker.
  \<^item> \<open>Bootstrap_Security\<close> (\<^verbatim>\<open>bootstrap_security.py\<close>): the origin checks of browser requests before
    the device has administrators.
  \<^item> \<open>Ip_Address\<close>, \<open>Config_Values\<close>, \<open>Config_Sections\<close> (\<^verbatim>\<open>config.py\<close>): the
    \<^verbatim>\<open>ipaddress\<close> functions it uses (addresses as words), every validator and section loader.
  \<^item> \<open>Partial_Config\<close> (\<^verbatim>\<open>partial_config.py\<close>): typed updates and the canonical TOML text.
  \<^item> \<open>Quadlet_Render\<close>, \<open>Quadlet_Sync\<close> (\<^verbatim>\<open>quadlet.py\<close>, \<^verbatim>\<open>quadlet_sync.py\<close>, mode inference
    in \<^verbatim>\<open>provision.py\<close>): rendering of container units with the rules for networks, ports and host
    mounts, and their installation; a reader of unit files is the reference for the rendered text.
  \<^item> \<open>Activation\<close> (\<^verbatim>\<open>activation.py\<close>: policy and activation sequence): restarts and health checks
    against a world whose clock and command outcomes may change at every call.
  \<^item> \<open>Imported_State\<close> (\<^verbatim>\<open>provision.write_imported_state\<close>): the control files of a root.
  \<^item> \<open>Bundle_Files\<close>, \<open>Managed_Access\<close>, \<open>Bundle_Archive\<close> (\<^verbatim>\<open>bundle.py\<close>): snapshots of a
    directory that may change meanwhile, given by what each call observes; owners, modes and access control
    lists of the installed files; detection, decompression, extraction and export of archives over a dict of
    absolute paths.
  \<^item> \<open>Lan_Gateway\<close>, \<open>Firewall_Inbound\<close>, \<open>Managed_Users\<close> (\<^verbatim>\<open>lan-gateway-apply.py\<close>,
    \<^verbatim>\<open>provisioned-firewall-inbound.py\<close>, \<^verbatim>\<open>apply-users.py\<close>): the boot scripts over a dict of
    files and a log of commands.
  \<^item> This theory: the properties that span provisioning, activation and authentication.

  \<^bold>\<open>What the theorems show.\<close> Crash safety of promotion, rollback, discard and commit; order, capacity
  and exclusiveness of the queue; integrity of staged trees; single use and bounds of nonces, and that the
  guard fails closed; that the worker applies only signed requests and reports every job it removes; that what provisioning accepts is accepted, unchanged, by the parts that read it
  (LAN script, firewall script, unit synchronization, activation, authentication); confinement of rootless
  containers; that unpacking a bundle touches nothing outside its directory, that a snapshot is an exact and
  bounded copy of verified files, and that the workload cannot write managed files; exactness of firewall rules, authorized keys and account changes; round trips of receipts,
  results, manifests, addresses, strings and exported bundles; that a successful activation has checked what its policy asks.

  \<^bold>\<open>Loops and bounds.\<close> All functions are total: loops are structural recursion or have a measure. Waiting
  for a result is recursion over the list of observations the caller makes, so no fuel is used. Sequences of
  steps (\<open>inductive\<close> relations) are unbounded.

  \<^bold>\<open>Parameters.\<close> Code outside the sources: SHA-256, base64, \<^verbatim>\<open>ssh-keygen\<close>, the JSON schema validator, gzip, zstd and the tar encoding,
  \<^verbatim>\<open>nft\<close>, \<^verbatim>\<open>systemctl\<close> and the account tools; the clock; the order in which Python walks a set; what other
  processes do between two critical sections.

  \<^bold>\<open>Not modelled.\<close> The HTTP layer (\<^verbatim>\<open>app.py\<close>, \<^verbatim>\<open>server.py\<close>, \<^verbatim>\<open>domain/\<close>, \<^verbatim>\<open>ui.py\<close>,
  \<^verbatim>\<open>schemas.py\<close>), which wires the modelled operations to a web framework and renders pages; the byte
  formats of tar and gzip; the socket protocol of the export worker; locks, file modes and \<^verbatim>\<open>fsync\<close> calls, whose effect is the atomicity and
  durability that the step programs assume; TOML and JSON parsing; progress messages; rounding of floats;
  characters above U+00FF.
\<close>

section \<open>Definitions\<close>

text \<open>A configuration that the witnesses below provision.\<close>

definition sample_key :: string where
  "sample_key = ''ssh-rsa AAAAB3NzaC1yc2EAAAA= me''"

definition sample_doc :: "pyval dict" where
  "sample_doc = [(''users'', VDict [(''ann'', VDict [(''isAdmin'', VBool True), (''ssh_key'', VStr sample_key)])]),
     (''network'', sample_network), (''containers'', VDict [(''container'', VDict [(''web'', VDict sample_sections)])]),
     (''activation'', VDict [(''required'', VList [VStr ''web''])])]"

definition empty_root :: imported where
  "empty_root = \<lparr>config_toml_text = None, admin_signers = None, users_file = Absent, authorized_keys = [], firewall_file = Absent,
     lan_file = Absent, host_network_file = Absent, os_upgrade_file = Absent, health_required_file = Absent, activation_file = Absent,
     quadlet_files = [], runtime_file = Absent\<rparr>"

section \<open>Theorems\<close>

lemma sample_config_loads:
  "\<exists>conf im ws. load_config (\<lambda>v. Inr ()) sample_doc = Inr conf \<and> write_imported_state ''/'' ''/data/config'' conf ''x'' empty_root = Inr (im, ws) \<and>
     cfg_ssh_keys conf = [sample_key] \<and> cfg_users conf = [(''ann'', VDict [(''isAdmin'', VBool True), (''ssh_key'', VStr sample_key)])]"
proof -
  have users: "load_users (VDict [(''ann'', VDict [(''isAdmin'', VBool True), (''ssh_key'', VStr sample_key)])]) =
      Inr ([(''ann'', VDict [(''isAdmin'', VBool True), (''ssh_key'', VStr sample_key)])], [sample_key])" by code_simp
  have fw: "\<not> isl (load_firewall_inbound sample_network)" by code_simp
  have host: "\<not> isl (load_host_network_settings sample_network)" by code_simp
  have policy: "\<not> isl (Config_Sections.load_activation_policy (VDict [(''required'', VList [VStr ''web''])]) [''web''])" by code_simp
  obtain f h p where "load_firewall_inbound sample_network = Inr f" "load_host_network_settings sample_network = Inr h"
    "Config_Sections.load_activation_policy (VDict [(''required'', VList [VStr ''web''])]) [''web''] = Inr p"
    using fw host policy by (metis isl_def sum.exhaust_sel sum.collapse(2))
  then obtain conf where conf: "load_config (\<lambda>v. Inr ()) sample_doc = Inr conf" "cfg_ssh_keys conf = [sample_key]"
    "cfg_users conf = [(''ann'', VDict [(''isAdmin'', VBool True), (''ssh_key'', VStr sample_key)])]"
    "containers_dict conf = [(''container'', VDict [(''web'', VDict sample_sections)]), (''network'', VNone), (''volume'', VNone), (''build'', VNone)]"
    using users sample_network_loads
    by (simp add: load_config_def sample_doc_def get_or_def require_mapping_def load_os_upgrade_def containers_dict_def)
  have units: "\<not> isl (render_units ''/'' [(''container'', VDict [(''web'', VDict sample_sections)]), (''network'', VNone), (''volume'', VNone), (''build'', VNone)] ''/data/config'')"
    by code_simp
  obtain r where "render_units ''/'' (containers_dict conf) ''/data/config'' = Inr r" using units conf(4) by (metis isl_def sum.exhaust_sel sum.collapse(2))
  then have "\<exists>im ws. write_imported_state ''/'' ''/data/config'' conf ''x'' empty_root = Inr (im, ws)"
    using conf(3) by (cases r) (simp add: write_imported_state_def Let_def user_key_def get_or_def)
  then show ?thesis using conf by blast
qed





text \<open>The comment of an accepted key may hold U+0085; the reader then sees a second signer.\<close>

lemma next_line_splits_signer:
  "require_ssh_public_key (VStr (''ssh-rsa AAAAB3NzaC1yc2EAAAA= me'' @ [CHR 0x85] @ ''x'')) ''p'' = Inr (''ssh-rsa AAAAB3NzaC1yc2EAAAA= me'' @ [CHR 0x85] @ ''x'')"
  "build_allowed_signers (write_admin_signers [''ssh-rsa AAAAB3NzaC1yc2EAAAA= me'' @ [CHR 0x85] @ ''x''] None) =
     Some [''atomixos-reapply ssh-rsa AAAAB3NzaC1yc2EAAAA= me'', ''atomixos-reapply x'']"
  by code_simp+

end
